(* ===== verification/Go_Prelude.thy ===== *)
theory Go_Prelude
  imports Main "HOL-Library.Word"
begin

text \<open>
  The vocabulary shared by every component: machine words at the widths the Go code uses,
  byte slices and strings, the error values of the package, and the result type of a Go call,
  which may return, return an error, panic, or never return.

  A Go string is a sequence of bytes, so \<open>gostring\<close> is \<open>byte list\<close>. A \<open>nil\<close> slice and an
  empty slice are both \<open>[]\<close>; where the code tells a nil pointer or a nil map from a value, the
  model uses an \<open>option\<close>.
\<close>

unbundle bit_operations_syntax

type_synonym byte = "8 word"
type_synonym u16 = "16 word"
type_synonym u32 = "32 word"
type_synonym bytes = "byte list"
type_synonym gostring = "byte list"

section \<open>Errors and results\<close>

text \<open>The error values of the package (\<open>errors.New\<close> variables) and those of \<open>io\<close> and \<open>os\<close> it passes on.\<close>

datatype goerr =
    ErrDecodeBadPacket
  | ErrDecodeNoneV311Packet
  | ErrDecodeNoneV5Packet
  | ErrUnsupportedVersion
  | ErrEncodeBadPacket
  | ErrEncodeLargePacket
  | ErrPacketDroppedByStrategy
  | ErrEOF
  | ErrUnexpectedEOF
  | ErrNotExist
  | ErrWrite

text \<open>
  How a Go call can fail: an error value that the caller sees, a run-time panic, or a loop that
  never ends.
\<close>

datatype fault = GoErr goerr | Panic | Hang

type_synonym 'a res = "fault + 'a"

definition rbind :: "'a res \<Rightarrow> ('a \<Rightarrow> 'b res) \<Rightarrow> 'b res" where
  "rbind m f = (case m of Inl e \<Rightarrow> Inl e | Inr x \<Rightarrow> f x)"

lemma rbind_simps [simp]:
  "rbind (Inl e) f = Inl e"
  "rbind (Inr x) f = f x"
  by (simp_all add: rbind_def)

lemma rbind_cong [fundef_cong]:
  assumes "m = m'" and "\<And>x. m' = Inr x \<Longrightarrow> f x = f' x"
  shows "rbind m f = rbind m' f'"
  using assms by (cases m') simp_all

lemma rbind_Inr_iff: "rbind m f = Inr y \<longleftrightarrow> (\<exists>x. m = Inr x \<and> f x = Inr y)"
  by (cases m) simp_all

lemma rbind_Inl_iff: "rbind m f = Inl e \<longleftrightarrow> m = Inl e \<or> (\<exists>x. m = Inr x \<and> f x = Inl e)"
  by (cases m) simp_all

lemma rbind_assoc: "rbind (rbind m f) g = rbind m (\<lambda>x. rbind (f x) g)"
  by (cases m) simp_all

text \<open>
  A call is \<open>safe\<close> when it neither panics nor hangs: it returns a value or an error value.
\<close>

definition safe :: "'a res \<Rightarrow> bool" where
  "safe r \<longleftrightarrow> r \<noteq> Inl Panic \<and> r \<noteq> Inl Hang"

named_theorems safe_intros

lemma safe_simps [simp]:
  "safe (Inr x)"
  "safe (Inl (GoErr e))"
  "\<not> safe (Inl Panic)"
  "\<not> safe (Inl Hang)"
  by (simp_all add: safe_def)

lemma safe_rbind [safe_intros]:
  assumes "safe m" and "\<And>x. m = Inr x \<Longrightarrow> safe (f x)"
  shows "safe (rbind m f)"
  using assms by (cases m) (auto simp: safe_def)

lemma safe_rbind_Inr [simp]: "safe (rbind m (\<lambda>x. Inr (f x))) \<longleftrightarrow> safe m"
  by (cases m) (auto simp: safe_def)

lemma safe_Inl_iff: "safe (Inl f) \<longleftrightarrow> (\<exists>e. f = GoErr e)"
  by (cases f) (simp_all add: safe_def)

text \<open>\<open>recover\<close> in a deferred function turns a panic into the error it assigns; an error stays.\<close>

definition recover_with :: "goerr \<Rightarrow> 'a res \<Rightarrow> 'a res" where
  "recover_with e r = (case r of Inl Panic \<Rightarrow> Inl (GoErr e) | _ \<Rightarrow> r)"

lemma recover_with_simps [simp]:
  "recover_with e (Inr x) = Inr x"
  "recover_with e (Inl Panic) = Inl (GoErr e)"
  "recover_with e (Inl Hang) = Inl Hang"
  "recover_with e (Inl (GoErr g)) = Inl (GoErr g)"
  by (simp_all add: recover_with_def)

lemma recover_with_Inr_iff [simp]: "recover_with e r = Inr x \<longleftrightarrow> r = Inr x"
  by (cases r) (auto simp: recover_with_def split: fault.splits)

lemma safe_recover_with [simp]: "safe (recover_with e r) \<longleftrightarrow> r \<noteq> Inl Hang"
  by (auto simp: recover_with_def safe_def split: sum.splits fault.splits)

section \<open>Slices\<close>

text \<open>
  \<open>s[lo:hi]\<close> on a slice: the run-time bound of \<open>hi\<close> is the capacity, not the length, so \<open>mem\<close>
  holds the bytes up to the capacity. \<open>s[i]\<close> is bounded by the length.
\<close>

definition go_slice :: "bytes \<Rightarrow> nat \<Rightarrow> nat \<Rightarrow> bytes res" where
  "go_slice mem lo hi =
     (if lo \<le> hi \<and> hi \<le> length mem then Inr (take (hi - lo) (drop lo mem)) else Inl Panic)"

definition go_index :: "bytes \<Rightarrow> nat \<Rightarrow> byte res" where
  "go_index s i = (if i < length s then Inr (s ! i) else Inl Panic)"

lemma go_slice_Inr_iff:
  "go_slice mem lo hi = Inr p \<longleftrightarrow>
     lo \<le> hi \<and> hi \<le> length mem \<and> p = take (hi - lo) (drop lo mem)"
  by (auto simp: go_slice_def)

lemma go_slice_length: "go_slice mem lo hi = Inr p \<Longrightarrow> length p = hi - lo"
  by (auto simp: go_slice_Inr_iff)

lemma go_slice_no_hang [simp]: "go_slice mem lo hi \<noteq> Inl Hang"
  by (simp add: go_slice_def)

lemma go_slice_no_err [simp]: "go_slice mem lo hi \<noteq> Inl (GoErr e)"
  by (simp add: go_slice_def)

section \<open>Words and naturals\<close>

lemma nat_or_push_bit_eq_add:
  fixes a x :: nat
  assumes "a < 2 ^ m"
  shows "a OR push_bit m x = a + x * 2 ^ m"
proof -
  have a: "take_bit m a = a"
    using assms by (simp add: take_bit_nat_eq_self)
  have "a AND push_bit m x = 0"
  proof (rule bit_eqI)
    fix n :: nat
    have "bit a n \<longleftrightarrow> n < m \<and> bit a n"
      using a by (metis bit_take_bit_iff)
    then show "bit (a AND push_bit m x) n = bit 0 n"
      by (auto simp: bit_simps)
  qed
  then have "a OR push_bit m x = a + push_bit m x"
    by (metis disjunctive_add_eq_or)
  then show ?thesis
    by (simp add: push_bit_eq_mult)
qed

lemma seven_bit_digit_bound:
  fixes acc x :: nat
  assumes "acc < 2 ^ m" and "x < 128"
  shows "acc + x * 2 ^ m < 2 ^ (m + 7)"
proof -
  have "acc + x * 2 ^ m < Suc x * 2 ^ m"
    using assms(1) by simp
  also have "\<dots> \<le> 128 * 2 ^ m"
    by (rule mult_right_mono) (use assms(2) in auto)
  finally show ?thesis
    by (simp add: power_add)
qed

lemma unat_of_nat_small: "n < 256 \<Longrightarrow> unat (of_nat n :: byte) = n"
  by (simp add: unat_of_nat)

lemma unat_u16_less: "unat (i :: u16) < 65536"
  using unsigned_less [of i] by simp

text \<open>Names in the code written as string literals.\<close>

definition ascii :: "string \<Rightarrow> gostring" where
  "ascii s = map (\<lambda>c. of_nat (of_char c)) s"

section \<open>Runs\<close>

text \<open>What every step of a relation preserves holds at the end of a run.\<close>

lemma run_invariant [consumes 2, case_names step]:
  assumes "r\<^sup>*\<^sup>* s s'" and "I s" and "\<And>s s'. r s s' \<Longrightarrow> I s \<Longrightarrow> I s'"
  shows "I s'"
  using assms by (induction rule: rtranclp_induct) blast+

end
