(* ===== verification/Wire.thy ===== *)
theory Wire
  imports Go_Prelude
begin

text \<open>
  The byte-level primitives of \<open>src/util.go\<close>: big-endian integers, length-prefixed strings and
  binary data, the variable-length integer of the fixed header and of the properties, and the
  \<open>BufferedWriter\<close> interface with its \<open>bytes.Buffer\<close> instance. The lemmas are the round trips of
  each pair, the widths, and what each reader leaves unread.
\<close>

unbundle bit_operations_syntax

section \<open>Booleans and big-endian integers\<close>

definition boolToByte :: "bool \<Rightarrow> byte" where
  "boolToByte flag = (if flag then 1 else 0)"

text \<open>\<open>putUint16\<close> and \<open>putUint32\<close> fill a fresh slice of 2 or 4 bytes at each of their call sites.\<close>

definition putUint16 :: "u16 \<Rightarrow> bytes" where
  "putUint16 v = [ucast (drop_bit 8 v), ucast v]"

definition putUint32 :: "u32 \<Rightarrow> bytes" where
  "putUint32 v =
     [ucast (drop_bit 24 v), ucast (drop_bit 16 v), ucast (drop_bit 8 v), ucast v]"

definition getUint16 :: "bytes \<Rightarrow> u16 res" where
  "getUint16 d =
     (if length d < 2 then Inl Panic
      else Inr (ucast (d ! 1) OR push_bit 8 (ucast (d ! 0))))"

definition getUint32 :: "bytes \<Rightarrow> u32 res" where
  "getUint32 d =
     (if length d < 4 then Inl Panic
      else Inr (ucast (d ! 3) OR push_bit 8 (ucast (d ! 2)) OR
                push_bit 16 (ucast (d ! 1)) OR push_bit 24 (ucast (d ! 0))))"

lemma length_putUint16 [simp]: "length (putUint16 v) = 2"
  by (simp add: putUint16_def)

lemma length_putUint32 [simp]: "length (putUint32 v) = 4"
  by (simp add: putUint32_def)

lemma getUint16_Inr [simp]: "2 \<le> length d \<Longrightarrow> \<exists>v. getUint16 d = Inr v"
  by (simp add: getUint16_def)

lemma getUint16_safe [safe_intros]: "2 \<le> length d \<Longrightarrow> safe (getUint16 d)"
  by (simp add: getUint16_def)

lemma getUint32_safe [safe_intros]: "4 \<le> length d \<Longrightarrow> safe (getUint32 d)"
  by (simp add: getUint32_def)

lemma be16_split: "(ucast (ucast v :: byte) OR push_bit 8 (ucast (ucast (drop_bit 8 v) :: byte)) :: u16) = v"
  by (auto simp: bit_eq_iff bit_simps)

lemma getUint16_put [simp]: "getUint16 (putUint16 v @ rest) = Inr v"
  by (simp add: getUint16_def putUint16_def be16_split)

lemma getUint16_put' [simp]: "getUint16 (putUint16 v) = Inr v"
  using getUint16_put [of v "[]"] by simp

lemma getUint16_put_Cons [simp]:
  "getUint16 (ucast (drop_bit 8 (v :: u16)) # ucast v # rest) = Inr v"
  using getUint16_put [of v rest] by (simp add: putUint16_def)

lemma getUint32_put [simp]: "getUint32 (putUint32 v @ rest) = Inr v"
proof -
  have "(ucast (ucast v :: byte) OR push_bit 8 (ucast (ucast (drop_bit 8 v) :: byte)) OR
     push_bit 16 (ucast (ucast (drop_bit 16 v) :: byte)) OR
     push_bit 24 (ucast (ucast (drop_bit 24 v) :: byte)) :: u32) = v"
  proof (rule bit_word_eqI)
    fix n :: nat
    assume "n < LENGTH(32)"
    then have "n < 8 \<or> 8 \<le> n \<and> n < 16 \<or> 16 \<le> n \<and> n < 24 \<or> n = 24 + (n - 24) \<and> n < 32"
      by auto
    then show "bit (ucast (ucast v :: byte) OR push_bit 8 (ucast (ucast (drop_bit 8 v) :: byte)) OR
     push_bit 16 (ucast (ucast (drop_bit 16 v) :: byte)) OR
     push_bit 24 (ucast (ucast (drop_bit 24 v) :: byte)) :: u32) n = bit v n"
      by (elim disjE) (auto simp: bit_simps)
  qed
  then show ?thesis
    by (simp add: getUint32_def putUint32_def numeral_eq_Suc)
qed

lemma getUint32_put' [simp]: "getUint32 (putUint32 v) = Inr v"
  using getUint32_put [of v "[]"] by simp

section \<open>Length-prefixed data\<close>

definition encodeBytesWithLen :: "bytes \<Rightarrow> bytes" where
  "encodeBytesWithLen data =
     (let l = length data in [of_nat (drop_bit 8 l), of_nat l] @ data)"

definition encodeStringWithLen :: "gostring \<Rightarrow> bytes" where
  "encodeStringWithLen str = encodeBytesWithLen str"

definition getBinaryData :: "bytes \<Rightarrow> (bytes \<times> bytes) res" where
  "getBinaryData data =
     (let dataLen = length data in
      if dataLen < 2 then Inl (GoErr ErrDecodeBadPacket)
      else rbind (getUint16 data) (\<lambda>n.
        let end' = unat n + 2 in
        if end' > dataLen then Inl (GoErr ErrDecodeBadPacket)
        else Inr (take (end' - 2) (drop 2 data), drop end' data)))"

definition getStringData :: "bytes \<Rightarrow> (gostring \<times> bytes) res" where
  "getStringData data =
     (case getBinaryData data of
        Inr (b, next) \<Rightarrow> Inr (b, next)
      | Inl err \<Rightarrow> Inl err)"

lemma getStringData_eq [simp]: "getStringData = getBinaryData"
  by (auto simp: getStringData_def fun_eq_iff split: sum.splits)

lemma encodeStringWithLen_eq [simp]: "encodeStringWithLen = encodeBytesWithLen"
  by (simp add: fun_eq_iff encodeStringWithLen_def)

lemma length_encodeBytesWithLen [simp]: "length (encodeBytesWithLen d) = length d + 2"
  by (simp add: encodeBytesWithLen_def Let_def)

lemma getUint16_len_prefix:
  assumes "l < 65536"
  shows "getUint16 (of_nat (drop_bit 8 l) # of_nat l # rest) = Inr (of_nat l)"
proof -
  have "(ucast (of_nat (drop_bit 8 l) :: byte) :: u16) = drop_bit 8 (of_nat l :: u16)"
    using assms
    by (auto simp: bit_eq_iff bit_simps)
  moreover have "(of_nat l :: byte) = ucast (of_nat l :: u16)"
    by (auto simp: bit_eq_iff bit_simps)
  ultimately show ?thesis
    using be16_split [of "of_nat l"] by (simp add: getUint16_def) (auto simp: bit_eq_iff bit_simps)
qed

lemma getBinaryData_encode [simp]:
  assumes "length d < 65536"
  shows "getBinaryData (encodeBytesWithLen d @ rest) = Inr (d, rest)"
proof -
  have "unat (of_nat (length d) :: u16) = length d"
    using assms by (simp add: unat_of_nat)
  then show ?thesis
    using assms
    by (simp add: getBinaryData_def encodeBytesWithLen_def Let_def getUint16_len_prefix)
qed

lemma getBinaryData_encode' [simp]:
  "length d < 65536 \<Longrightarrow> getBinaryData (encodeBytesWithLen d) = Inr (d, [])"
  using getBinaryData_encode [of d "[]"] by simp

lemma getBinaryData_safe [safe_intros, simp]: "safe (getBinaryData d)"
  by (auto simp: getBinaryData_def Let_def getUint16_def)

lemma getBinaryData_err: "getBinaryData d = Inl e \<Longrightarrow> e = GoErr ErrDecodeBadPacket"
  by (auto simp: getBinaryData_def Let_def getUint16_def split: if_splits)

text \<open>A successful read takes a two-byte length and that many bytes off the front, and no more.\<close>

lemma getBinaryData_Inr:
  assumes "getBinaryData d = Inr (b, next)"
  shows "\<exists>h l. d = h # l # b @ next \<and> length b < 65536"
proof -
  from assms obtain n where n: "getUint16 d = Inr n" and len: "unat n + 2 \<le> length d"
    and b: "b = take (unat n) (drop 2 d)" and nx: "next = drop (unat n + 2) d"
    by (auto simp: getBinaryData_def Let_def rbind_Inr_iff split: if_splits)
  from len obtain h l d' where d: "d = h # l # d'"
    by (metis Suc_le_length_iff add_2_eq_Suc' Suc_le_mono)
  have "unat n < 65536"
    using unsigned_less [of n] by simp
  with d len b nx show ?thesis
    by auto
qed

lemma getBinaryData_length:
  "getBinaryData d = Inr (b, next) \<Longrightarrow> length d = length b + length next + 2"
  using getBinaryData_Inr by fastforce

section \<open>The variable-length integer\<close>

definition maxMsgSize :: int where
  "maxMsgSize = 268435455"

function var_int_loop :: "nat \<Rightarrow> bytes" where
  "var_int_loop n =
     (if n > 0 then
        (let encodedByte = of_nat (n mod 128) :: byte; n' = n div 128 in
         (if n' > 0 then encodedByte OR 128 else encodedByte) # var_int_loop n')
      else [])"
  by pat_completeness auto
termination
  by (relation "measure id") auto

declare var_int_loop.simps [simp del]

lemma var_int_loop_0 [simp]: "var_int_loop 0 = []"
  by (subst var_int_loop.simps) simp

lemma var_int_loop_small [simp]: "0 < n \<Longrightarrow> n < 128 \<Longrightarrow> var_int_loop n = [of_nat n]"
  by (subst var_int_loop.simps) simp

lemma var_int_loop_large [simp]:
  "128 \<le> n \<Longrightarrow> var_int_loop n = (of_nat (n mod 128) OR 128) # var_int_loop (n div 128)"
  by (subst var_int_loop.simps) (simp add: Let_def div_greater_zero_iff)

definition varIntBytes :: "int \<Rightarrow> goerr + bytes" where
  "varIntBytes n =
     (if n < 0 \<or> n > maxMsgSize then Inl ErrEncodeLargePacket
      else if n = 0 then Inr [0]
      else Inr (var_int_loop (nat n)))"

text \<open>
  \<open>getRemainLength\<close> reads from a byte reader. The model returns the length, the number of bytes the
  code says it used, and what the reader still holds.
\<close>

fun remain_length_loop :: "nat \<Rightarrow> nat \<Rightarrow> bytes \<Rightarrow> nat \<times> nat \<times> bytes" where
  "remain_length_loop m len [] =
     (if m < 27 then (0, 0, []) else (len, m div 7 + 1, []))"
| "remain_length_loop m len (b # bs) =
     (if m < 27 then
        (let len' = len OR push_bit m (unat (b AND 127)) in
         if b AND 128 = 0 then (len', m div 7 + 1, bs)
         else remain_length_loop (m + 7) len' bs)
      else (len, m div 7 + 1, b # bs))"

definition getRemainLength :: "bytes \<Rightarrow> nat \<times> nat \<times> bytes" where
  "getRemainLength r = remain_length_loop 0 0 r"

lemma var_int_byte_table:
  "\<forall>n \<in> set [0..<128]. (of_nat n OR 128 :: byte) AND 127 = of_nat n \<and>
     (of_nat n OR 128 :: byte) AND 128 \<noteq> 0 \<and>
     (of_nat n :: byte) AND 127 = of_nat n \<and> (of_nat n :: byte) AND 128 = 0"
  by code_simp

lemma var_int_byte:
  assumes "n < 128"
  shows "(of_nat n OR 128 :: byte) AND 127 = of_nat n"
    and "(of_nat n OR 128 :: byte) AND 128 \<noteq> 0"
    and "(of_nat n :: byte) AND 127 = of_nat n"
    and "(of_nat n :: byte) AND 128 = 0"
  using var_int_byte_table assms by auto

text \<open>Reading back what the writer loop produced, from any position of the reader's shift.\<close>

lemma remain_length_loop_write:
  assumes "0 < n" and "n < 2 ^ (28 - m)" and "m \<le> 21" and "7 dvd m" and "acc < 2 ^ m"
  shows "remain_length_loop m acc (var_int_loop n @ rest) =
           (acc + n * 2 ^ m, m div 7 + length (var_int_loop n), rest)"
  using assms
proof (induction n arbitrary: m acc rule: var_int_loop.induct)
  case (1 n)
  have byte: "unat (of_nat (n mod 128) :: byte) = n mod 128"
    by (rule unat_of_nat_small, rule less_trans [of _ 128]) simp_all
  let ?len = "acc + n mod 128 * 2 ^ m"
  have or: "acc OR push_bit m (n mod 128) = ?len"
    using "1.prems"(5) by (rule nat_or_push_bit_eq_add)
  have m27: "m < 27"
    using "1.prems"(3) by simp
  show ?case
  proof (cases "n div 128 > 0")
    case False
    then have "n < 128"
      by (simp add: div_greater_zero_iff)
    then show ?thesis
      using "1.prems"(1) m27 byte or by (simp add: var_int_byte Let_def)
  next
    case True
    have m21: "m \<noteq> 21"
      using True "1.prems"(2) by auto
    have m14: "m \<le> 14"
      using "1.prems"(3,4) m21 by presburger
    have "28 - m = 7 + (28 - (m + 7))"
      using m14 by simp
    then have "2 ^ (28 - m) = (2 :: nat) ^ 7 * 2 ^ (28 - (m + 7))"
      by (simp only: power_add)
    then have bound: "n div 128 < 2 ^ (28 - (m + 7))"
      using "1.prems"(2) by (simp add: div_less_iff_less_mult mult.commute)
    have acc: "?len < 2 ^ (m + 7)"
      using "1.prems"(5) by (rule seven_bit_digit_bound) simp
    have dvd7: "7 dvd m + 7"
      using "1.prems"(4) by simp
    have IH: "remain_length_loop (m + 7) ?len (var_int_loop (n div 128) @ rest) =
        (?len + n div 128 * 2 ^ (m + 7), (m + 7) div 7 + length (var_int_loop (n div 128)), rest)"
      using "1.IH" [OF "1.prems"(1) refl refl True bound _ dvd7 acc] m14 by simp
    have sum: "?len + n div 128 * 2 ^ (m + 7) = acc + n * 2 ^ m"
    proof -
      have "n * 2 ^ m = (n div 128 * 128 + n mod 128) * 2 ^ m"
        by simp
      also have "\<dots> = n div 128 * (128 * 2 ^ m) + n mod 128 * 2 ^ m"
        by (simp only: add_mult_distrib mult.assoc)
      finally show ?thesis
        by (simp add: power_add ac_simps)
    qed
    show ?thesis
      using True m27 byte or IH sum
      by (simp add: var_int_byte Let_def div_greater_zero_iff)
  qed
qed

lemma length_var_int_loop:
  "0 < n \<Longrightarrow> length (var_int_loop n) =
     (if n < 128 then 1 else 1 + length (var_int_loop (n div 128)))"
  by simp

lemma varIntBytes_ok: "0 \<le> n \<Longrightarrow> n \<le> maxMsgSize \<Longrightarrow> \<exists>bs. varIntBytes n = Inr bs"
  by (auto simp: varIntBytes_def)

lemma varIntBytes_Inr_iff: "(\<exists>bs. varIntBytes n = Inr bs) \<longleftrightarrow> 0 \<le> n \<and> n \<le> maxMsgSize"
  by (auto simp: varIntBytes_def)

lemma getRemainLength_varInt:
  assumes "varIntBytes n = Inr bs"
  shows "getRemainLength (bs @ rest) = (nat n, length bs, rest)"
proof (cases "n = 0")
  case True
  with assms show ?thesis
    by (auto simp: varIntBytes_def getRemainLength_def maxMsgSize_def)
next
  case False
  with assms have pos: "0 < nat n" and le: "nat n < 2 ^ 28" and bs: "bs = var_int_loop (nat n)"
    by (auto simp: varIntBytes_def maxMsgSize_def split: if_splits)
  from remain_length_loop_write [of "nat n" 0 0 rest] pos le bs show ?thesis
    by (simp add: getRemainLength_def)
qed

lemma varIntBytes_bounds:
  assumes "varIntBytes n = Inr bs"
  shows "1 \<le> length bs" and "length bs \<le> 4"
proof -
  have le4: "k < 2 ^ 28 \<Longrightarrow> length (var_int_loop k) \<le> 4" for k
  proof -
    assume k: "k < 2 ^ 28"
    have one: "length (var_int_loop j) \<le> 1" if "j < 128" for j
      using that by (cases "j = 0") simp_all
    have two: "length (var_int_loop j) \<le> 2" if "j < 128 * 128" for j
      using that one [of "j div 128"] one [of j] by (cases "j < 128") auto
    have three: "length (var_int_loop j) \<le> 3" if "j < 128 * 128 * 128" for j
      using that two [of "j div 128"] one [of j] by (cases "j < 128") auto
    show ?thesis
      using k three [of "k div 128"] one [of k] by (cases "k < 128") auto
  qed
  have ge: "0 < k \<Longrightarrow> 1 \<le> length (var_int_loop k)" for k
    by (simp add: length_var_int_loop)
  show "1 \<le> length bs" and "length bs \<le> 4"
    using assms ge [of "nat n"] le4 [of "nat n"]
    by (auto simp: varIntBytes_def maxMsgSize_def split: if_splits)
qed

text \<open>What the reader can return, whatever it reads: a length below \<open>2 ^ 28\<close>, and the bytes it used.\<close>

lemma remain_length_loop_bound:
  assumes "remain_length_loop m len r = (n, k, rest)" and "len < 2 ^ m" and "m \<le> 28" and "7 dvd m"
  shows "n < 2 ^ 28"
  using assms
proof (induction m len r rule: remain_length_loop.induct)
  case (1 m len)
  then show ?case
    using power_increasing [of m 28 "2 :: nat"] by (auto split: if_splits)
next
  case (2 m len b bs)
  let ?x = "unat (b AND 127)"
  have x: "?x < 128"
  proof -
    have "b AND 127 \<le> (127 :: byte)"
      by (rule word_and_le1)
    then show ?thesis
      by (simp add: word_le_nat_alt)
  qed
  have len': "len OR push_bit m ?x = len + ?x * 2 ^ m"
    using "2.prems"(2) by (rule nat_or_push_bit_eq_add)
  have bound: "len OR push_bit m ?x < 2 ^ (m + 7)"
    unfolding len' using "2.prems"(2) x by (rule seven_bit_digit_bound)
  show ?case
  proof (cases "m < 27")
    case False
    with "2.prems" show ?thesis
      using power_increasing [of m 28 "2 :: nat"] by auto
  next
    case True
    with "2.prems"(4) have m21: "m + 7 \<le> 28" and dvd7: "7 dvd m + 7"
      by presburger+
    show ?thesis
    proof (cases "b AND 128 = 0")
      case False
      with "2.prems"(1) True
      have "remain_length_loop (m + 7) (len OR push_bit m ?x) bs = (n, k, rest)"
        by (simp add: Let_def)
      then show ?thesis
        using "2.IH" [OF True refl False] bound m21 dvd7 by blast
    next
      case b: True
      with "2.prems"(1) True have "n = len OR push_bit m ?x"
        by (simp add: Let_def)
      moreover have "(2 :: nat) ^ (m + 7) \<le> 2 ^ 28"
        by (rule power_increasing) (use m21 in auto)
      ultimately show ?thesis
        using bound by simp
    qed
  qed
qed

lemma getRemainLength_bound: "getRemainLength r = (n, k, rest) \<Longrightarrow> n < 2 ^ 28"
  unfolding getRemainLength_def by (erule remain_length_loop_bound) simp_all

end
