(* ===== verification/Writer.thy ===== *)
theory Writer
  imports Wire
begin

text \<open>
  The \<open>BufferedWriter\<close> interface of \<open>src/util.go\<close>, the framing functions \<open>BasePacket.write\<close> and
  \<open>BasePacket.writeV5\<close> of \<open>src/libmqtt.go\<close> that write through it, and \<open>writeVarInt\<close>.

  A writer is a record of the two interface methods over a writer state. The locale
  \<open>byte_sink\<close> states what \<open>io.Writer\<close> promises (what was written before an error is a prefix of the
  data), \<open>total_sink\<close> adds that no call fails, and \<open>bytes.Buffer\<close>, the writer that every \<open>Bytes\<close>
  method uses, is an instance of both.
\<close>

section \<open>The interface\<close>

record 'w buffered_writer =
  bw_Write :: "'w \<Rightarrow> bytes \<Rightarrow> 'w \<times> goerr option"
  bw_WriteByte :: "'w \<Rightarrow> byte \<Rightarrow> 'w \<times> goerr option"

text \<open>The result of a function that writes: the writer's state and the error or panic, if any.\<close>

type_synonym 'w wres = "'w \<times> fault option"

definition wbind :: "'w \<times> goerr option \<Rightarrow> ('w \<Rightarrow> 'w wres) \<Rightarrow> 'w wres" where
  "wbind r k = (case r of (w, Some e) \<Rightarrow> (w, Some (GoErr e)) | (w, None) \<Rightarrow> k w)"

lemma wbind_simps [simp]:
  "wbind (w, None) k = k w"
  "wbind (w, Some e) k = (w, Some (GoErr e))"
  by (simp_all add: wbind_def)

lemma wbind_cong [fundef_cong]:
  assumes "r = r'" and "\<And>w. r' = (w, None) \<Longrightarrow> k w = k' w"
  shows "wbind r k = wbind r' k'"
  using assms by (cases r') (auto simp: wbind_def split: option.splits)

section \<open>Framing\<close>

text \<open>A \<open>nil\<close> variable header or payload is \<open>[]\<close>: it is not written.\<close>

definition base_write ::
  "'w buffered_writer \<Rightarrow> 'w \<Rightarrow> byte \<Rightarrow> bytes \<Rightarrow> bytes \<Rightarrow> 'w wres" where
  "base_write W w first varHeader payload =
     wbind (bw_Write W w [first]) (\<lambda>w.
     (case varIntBytes (int (length varHeader + length payload)) of
        Inl err \<Rightarrow> (w, Some (GoErr err))
      | Inr remainingLengthBytes \<Rightarrow>
          wbind (bw_Write W w remainingLengthBytes) (\<lambda>w.
          wbind (if varHeader \<noteq> [] then bw_Write W w varHeader else (w, None)) (\<lambda>w.
          wbind (if payload \<noteq> [] then bw_Write W w payload else (w, None)) (\<lambda>w.
          (w, None))))))"

definition base_writeV5 ::
  "'w buffered_writer \<Rightarrow> 'w \<Rightarrow> byte \<Rightarrow> bytes \<Rightarrow> bytes \<Rightarrow> bytes \<Rightarrow> 'w wres" where
  "base_writeV5 W w first varHeader props payload =
     (case varIntBytes (int (length props)) of
        Inl err \<Rightarrow> (w, Some (GoErr err))
      | Inr propsLengthBytes \<Rightarrow>
          base_write W w first (varHeader @ propsLengthBytes @ props) payload)"

function write_var_int_loop :: "nat \<Rightarrow> 'w buffered_writer \<Rightarrow> 'w \<Rightarrow> 'w wres" where
  "write_var_int_loop n W w =
     (if n > 0 then
        (let encodedByte = of_nat (n mod 128) :: byte; n' = n div 128 in
         wbind (bw_WriteByte W w (if n' > 0 then encodedByte OR 128 else encodedByte))
           (\<lambda>w. write_var_int_loop n' W w))
      else (w, None))"
  by pat_completeness auto
termination
  by (relation "measure (\<lambda>(n, W, w). n)") auto

declare write_var_int_loop.simps [simp del]

definition writeVarInt :: "int \<Rightarrow> 'w buffered_writer \<Rightarrow> 'w \<Rightarrow> 'w wres" where
  "writeVarInt n W w =
     (if n < 0 \<or> n > maxMsgSize then (w, Some (GoErr ErrEncodeLargePacket))
      else if n = 0 then wbind (bw_WriteByte W w 0) (\<lambda>w. (w, None))
      else write_var_int_loop (nat n) W w)"

text \<open>The bytes of a frame: the fixed header, then the variable header and the payload.\<close>

definition frame :: "byte \<Rightarrow> bytes \<Rightarrow> bytes \<Rightarrow> bytes" where
  "frame first varHeader payload =
     first # (case varIntBytes (int (length varHeader + length payload)) of
                Inl _ \<Rightarrow> [] | Inr l \<Rightarrow> l @ varHeader @ payload)"

section \<open>What any writer gives\<close>

locale byte_sink =
  fixes W :: "'w buffered_writer"
    and contents :: "'w \<Rightarrow> bytes"
  assumes Write_ok: "bw_Write W w bs = (w', None) \<Longrightarrow> contents w' = contents w @ bs"
    and Write_err: "bw_Write W w bs = (w', Some e) \<Longrightarrow> \<exists>k. contents w' = contents w @ take k bs"
    and WriteByte_ok: "bw_WriteByte W w b = (w', None) \<Longrightarrow> contents w' = contents w @ [b]"
    and WriteByte_err: "bw_WriteByte W w b = (w', Some e) \<Longrightarrow> contents w' = contents w"
begin

text \<open>
  \<open>appends r w bs\<close>: the call started from \<open>w\<close> appended \<open>bs\<close> when it returned no error, and a
  prefix of \<open>bs\<close> when it failed.
\<close>

definition appends :: "'w wres \<Rightarrow> 'w \<Rightarrow> bytes \<Rightarrow> bool" where
  "appends r w bs \<longleftrightarrow>
     (snd r = None \<longrightarrow> contents (fst r) = contents w @ bs) \<and>
     (snd r \<noteq> None \<longrightarrow> (\<exists>k. contents (fst r) = contents w @ take k bs))"

lemma appends_return [simp]: "appends (w, None) w []"
  by (simp add: appends_def)

lemma appends_fail: "appends (w, Some f) w bs"
  unfolding appends_def by (auto intro: exI [of _ 0])

lemma appends_bind:
  assumes first: "\<And>w' e. r = (w', Some e) \<Longrightarrow> \<exists>k. contents w' = contents w @ take k bs"
    and ok: "\<And>w'. r = (w', None) \<Longrightarrow> contents w' = contents w @ bs"
    and rest: "\<And>w'. r = (w', None) \<Longrightarrow> appends (k w') w' cs"
  shows "appends (wbind r k) w (bs @ cs)"
proof (cases r)
  case (Pair w' e)
  show ?thesis
  proof (cases e)
    case None
    with Pair have r: "r = (w', None)"
      by simp
    have lift: "bs @ take i cs = take (length bs + i) (bs @ cs)" for i
      by simp
    show ?thesis
      using rest [OF r] ok [OF r] r lift by (auto simp: appends_def simp del: take_append)
  next
    case (Some err)
    with Pair first obtain j where j: "contents w' = contents w @ take j bs"
      by blast
    have "take (min j (length bs)) (bs @ cs) = take j bs"
      by (simp add: min_def)
    with j Pair Some show ?thesis
      by (auto simp: appends_def intro: exI [of _ "min j (length bs)"])
  qed
qed

lemma appends_Write:
  assumes "\<And>w'. appends (k w') w' cs"
  shows "appends (wbind (bw_Write W w bs) k) w (bs @ cs)"
  by (rule appends_bind) (auto intro: assms Write_ok Write_err)

lemma appends_WriteByte:
  assumes "\<And>w'. appends (k w') w' cs"
  shows "appends (wbind (bw_WriteByte W w b) k) w ([b] @ cs)"
  by (rule appends_bind)
    (auto intro: assms WriteByte_ok exI [of _ 0] dest: WriteByte_err)

lemma appends_Write_unless_nil:
  assumes "\<And>w'. appends (k w') w' cs"
  shows "appends (wbind (if bs \<noteq> [] then bw_Write W w bs else (w, None)) k) w (bs @ cs)"
  using assms appends_Write [of k cs w bs] by (cases "bs = []") auto

lemma base_write_appends: "appends (base_write W w first vh pl) w (frame first vh pl)"
proof -
  have single: "frame first vh pl = [first] @ tl (frame first vh pl)"
    by (simp add: frame_def)
  show ?thesis
    unfolding base_write_def
  proof (subst single, rule appends_Write)
    fix w'
    let ?r = "varIntBytes (int (length vh + length pl))"
    show "appends (case ?r of Inl err \<Rightarrow> (w', Some (GoErr err)) | Inr rl \<Rightarrow>
          wbind (bw_Write W w' rl) (\<lambda>w.
          wbind (if vh \<noteq> [] then bw_Write W w vh else (w, None)) (\<lambda>w.
          wbind (if pl \<noteq> [] then bw_Write W w pl else (w, None)) (\<lambda>w. (w, None))))) w'
       (tl (frame first vh pl))"
    proof (cases ?r)
      case (Inl e)
      then show ?thesis
        by (simp add: appends_fail)
    next
      case (Inr rl)
      then have "tl (frame first vh pl) = rl @ vh @ pl @ []"
        by (simp add: frame_def)
      moreover have "appends (wbind (bw_Write W w' rl) (\<lambda>w.
          wbind (if vh \<noteq> [] then bw_Write W w vh else (w, None)) (\<lambda>w.
          wbind (if pl \<noteq> [] then bw_Write W w pl else (w, None)) (\<lambda>w. (w, None)))))
          w' (rl @ vh @ pl @ [])"
        by (intro appends_Write appends_Write_unless_nil appends_return)
      ultimately show ?thesis
        using Inr by simp
    qed
  qed
qed

lemma write_var_int_loop_appends: "appends (write_var_int_loop n W w) w (var_int_loop n)"
proof (induction n arbitrary: w rule: var_int_loop.induct)
  case (1 n)
  show ?case
  proof (cases "n > 0")
    case False
    then show ?thesis
      by (simp add: write_var_int_loop.simps)
  next
    case True
    let ?b = "if n div 128 > 0 then of_nat (n mod 128) OR 128 else of_nat (n mod 128) :: byte"
    have split: "var_int_loop n = [?b] @ var_int_loop (n div 128)"
      using True by (subst var_int_loop.simps) (simp add: Let_def)
    have "write_var_int_loop n W w = wbind (bw_WriteByte W w ?b) (write_var_int_loop (n div 128) W)"
      using True by (subst write_var_int_loop.simps) (simp add: Let_def)
    then show ?thesis
      using appends_WriteByte [of "write_var_int_loop (n div 128) W"] 1 [OF True refl refl] split
      by metis
  qed
qed

end

text \<open>A writer that never fails, as \<open>bytes.Buffer\<close> is documented to be.\<close>

locale total_sink = byte_sink +
  assumes Write_total: "snd (bw_Write W w bs) = None"
    and WriteByte_total: "snd (bw_WriteByte W w b) = None"
begin

lemma wbind_Write [simp]: "wbind (bw_Write W w bs) k = k (fst (bw_Write W w bs))"
  using Write_total [of w bs] by (cases "bw_Write W w bs") simp

lemma wbind_Write_unless_nil [simp]:
  "wbind (if bs \<noteq> [] then bw_Write W w bs else (w, None)) k =
     k (if bs \<noteq> [] then fst (bw_Write W w bs) else w)"
  by simp

lemma wbind_WriteByte [simp]: "wbind (bw_WriteByte W w b) k = k (fst (bw_WriteByte W w b))"
  using WriteByte_total [of w b] by (cases "bw_WriteByte W w b") simp

text \<open>Framing through a writer that never fails, errors only for a packet that is too large.\<close>

lemma base_write_result:
  "snd (base_write W w first vh pl) =
     (if int (length vh + length pl) \<le> maxMsgSize then None
      else Some (GoErr ErrEncodeLargePacket))"
  by (auto simp: base_write_def varIntBytes_def)

lemma base_write_contents:
  assumes "int (length vh + length pl) \<le> maxMsgSize"
  shows "contents (fst (base_write W w first vh pl)) = contents w @ frame first vh pl"
  using base_write_appends [of w first vh pl] assms by (simp add: appends_def base_write_result)

lemma base_write_too_large:
  assumes "maxMsgSize < int (length vh + length pl)"
  shows "contents (fst (base_write W w first vh pl)) = contents w @ [first]"
proof -
  have "contents (fst (bw_Write W w [first])) = contents w @ [first]"
    using Write_total [of w "[first]"] Write_ok [of w "[first]"]
    by (metis prod.collapse)
  then show ?thesis
    using assms by (simp add: base_write_def varIntBytes_def)
qed

lemma write_var_int_loop_result: "snd (write_var_int_loop n W w) = None"
proof (induction n arbitrary: w rule: var_int_loop.induct)
  case (1 n)
  then show ?case
    by (subst write_var_int_loop.simps) (simp add: Let_def)
qed

end

section \<open>bytes.Buffer\<close>

text \<open>The in-memory writer of every \<open>Bytes\<close> method: its state is the bytes written so far.\<close>

definition bytes_Buffer :: "bytes buffered_writer" where
  "bytes_Buffer = \<lparr>bw_Write = (\<lambda>w bs. (w @ bs, None)), bw_WriteByte = (\<lambda>w b. (w @ [b], None))\<rparr>"

interpretation buffer: total_sink bytes_Buffer "\<lambda>w. w"
  by unfold_locales (auto simp: bytes_Buffer_def)

lemma writeVarInt_buffer:
  "writeVarInt n bytes_Buffer w =
     (case varIntBytes n of
        Inl err \<Rightarrow> (w, Some (GoErr err))
      | Inr bs \<Rightarrow> (w @ bs, None))"
proof -
  have "write_var_int_loop k bytes_Buffer w = (w @ var_int_loop k, None)" for k
    using buffer.write_var_int_loop_appends [of k w] buffer.write_var_int_loop_result [of k w]
    by (simp add: buffer.appends_def prod_eq_iff)
  moreover have "bw_WriteByte bytes_Buffer w b = (w @ [b], None)" for b
    by (simp add: bytes_Buffer_def)
  ultimately show ?thesis
    by (auto simp: writeVarInt_def varIntBytes_def)
qed

lemma base_write_buffer:
  assumes "int (length vh + length pl) \<le> maxMsgSize"
  shows "base_write bytes_Buffer w first vh pl = (w @ frame first vh pl, None)"
  using buffer.base_write_contents [OF assms, of w first] buffer.base_write_result [of w first vh pl]
    assms
  by (simp add: prod_eq_iff)

text \<open>
  C14: the two encoders of the variable-length integer agree. \<open>writeVarInt\<close> puts into a buffer exactly the
  bytes that \<open>varIntBytes\<close> returns, or fails with the same error and writes nothing; and
  \<open>getRemainLength\<close> reads the number back from them, whatever follows.
\<close>
theorem var_int_encoders_agree:
  "writeVarInt n bytes_Buffer w =
     (case varIntBytes n of Inl err \<Rightarrow> (w, Some (GoErr err)) | Inr bs \<Rightarrow> (w @ bs, None)) \<and>
   (\<forall>bs rest. varIntBytes n = Inr bs \<longrightarrow> getRemainLength (bs @ rest) = (nat n, length bs, rest))"
  using writeVarInt_buffer getRemainLength_varInt by blast

lemma var_int_encoders_agree_witness:
  "varIntBytes 321 = Inr [193, 2] \<and> writeVarInt 321 bytes_Buffer [7] = ([7, 193, 2], None) \<and>
   getRemainLength ([193, 2] @ [5]) = (321, 2, [5])"
proof -
  have v: "varIntBytes 321 = Inr [193, 2]"
    by code_simp
  show ?thesis
    using var_int_encoders_agree [of 321 "[7]"] v by auto
qed

end
