(* ===== verification/Id_Gen.thy ===== *)
theory Id_Gen
  imports Go_Prelude
begin

text \<open>
  The packet identifier generator \<open>idGenerator\<close> of \<open>src/util.go\<close>. The lock only makes each map
  access atomic and the counter is atomic, so a call is a function on the pair of the counter and the map. The extra data
  stored with an identifier (the packet that waits for an acknowledgement) has type \<open>'d\<close>.

  The lemmas give the exact result of \<open>next\<close> on every path: the counter's value when it is free,
  what the collision scan returns, and the zero that means "out of identifiers".
\<close>

section \<open>The generator\<close>

record 'd id_generator =
  nextID :: u32
  usedIDs :: "u16 \<rightharpoonup> 'd"

definition newIDGenerator :: "'d id_generator" where
  "newIDGenerator = \<lparr>nextID = 0, usedIDs = Map.empty\<rparr>"

definition gen_used :: "'d id_generator \<Rightarrow> u16 \<Rightarrow> bool" where
  "gen_used g pid = (usedIDs g pid \<noteq> None)"

definition setUsed :: "'d id_generator \<Rightarrow> u16 \<Rightarrow> 'd \<Rightarrow> 'd id_generator" where
  "setUsed g pid data = g\<lparr>usedIDs := (usedIDs g)(pid \<mapsto> data)\<rparr>"

definition gen_free :: "'d id_generator \<Rightarrow> u16 \<Rightarrow> 'd id_generator" where
  "gen_free g pid = g\<lparr>usedIDs := (usedIDs g)(pid := None)\<rparr>"

definition getExtra :: "'d id_generator \<Rightarrow> u16 \<Rightarrow> 'd option" where
  "getExtra g pid = usedIDs g pid"

text \<open>\<open>uint16(atomic.AddUint32(&g.nextID, 1))\<close>: the 32-bit counter wraps, its low half is the identifier.\<close>

definition bump :: "'d id_generator \<Rightarrow> u16 \<times> 'd id_generator" where
  "bump g = (let n = nextID g + 1 in (ucast n, g\<lparr>nextID := n\<rparr>))"

text \<open>
  The scan \<open>for i := 0; used; id = bump() { if i == MaxUint16 { return 0 }; used = g.used(id); i++ }\<close>.
  The first argument counts \<open>MaxUint16 - i\<close> down. The post statement runs after every round, so also
  after the round that found \<open>id\<close> free. \<open>None\<close> is the early \<open>return 0\<close>.
\<close>

fun next_scan :: "nat \<Rightarrow> bool \<Rightarrow> u16 \<Rightarrow> 'd id_generator \<Rightarrow> u16 option \<times> 'd id_generator" where
  "next_scan k False pid g = (Some pid, g)"
| "next_scan 0 True pid g = (None, g)"
| "next_scan (Suc k) True pid g =
     (let used = gen_used g pid; (pid', g') = bump g in next_scan k used pid' g')"

text \<open>The first identifier tried: the counter skips 0 by restarting at 1.\<close>

definition next_first :: "'d id_generator \<Rightarrow> u16 \<times> 'd id_generator" where
  "next_first g =
     (let (pid, g0) = bump g in if pid = 0 then (1, g0\<lparr>nextID := 1\<rparr>) else (pid, g0))"

definition gen_next :: "'d id_generator \<Rightarrow> 'd \<Rightarrow> u16 \<times> 'd id_generator" where
  "gen_next g extra =
     (case next_first g of (pid, g1) \<Rightarrow>
        (case (if gen_used g1 pid then next_scan 65535 True pid g1 else (Some pid, g1)) of
           (None, g2) \<Rightarrow> (0, g2)
         | (Some pid', g2) \<Rightarrow> (pid', if pid' > 0 then setUsed g2 pid' extra else g2)))"

section \<open>The scan against a reference\<close>

text \<open>The offset of the first identifier after \<open>c\<close> (inclusive) that is not in use, within \<open>k\<close>.\<close>

definition first_free :: "(u16 \<rightharpoonup> 'd) \<Rightarrow> u16 \<Rightarrow> nat \<Rightarrow> nat option" where
  "first_free m c k = find (\<lambda>j. m (c + of_nat j) = None) [0..<k]"

lemma first_free_0 [simp]: "first_free m c 0 = None"
  by (simp add: first_free_def)

lemma first_free_Suc:
  "first_free m c (Suc k) =
     (if m c = None then Some 0 else map_option Suc (first_free m (c + 1) k))"
proof -
  have upt: "[0..<Suc k] = 0 # map Suc [0..<k]"
    by (metis map_Suc_upt upt_conv_Cons zero_less_Suc)
  have "find P (map Suc xs) = map_option Suc (find (P \<circ> Suc) xs)" for P xs
    by (induction xs) auto
  moreover have "(\<lambda>j. m (c + of_nat j) = None) \<circ> Suc = (\<lambda>j. m (c + 1 + of_nat j) = None)"
    by (simp add: fun_eq_iff add.assoc)
  ultimately show ?thesis
    by (simp add: first_free_def upt del: upt_Suc)
qed

lemma first_free_Some_iff:
  "first_free m c k = Some j \<longleftrightarrow>
     j < k \<and> m (c + of_nat j) = None \<and> (\<forall>i<j. m (c + of_nat i) \<noteq> None)"
  unfolding first_free_def by (auto simp: find_Some_iff)

lemma first_free_None_iff:
  "first_free m c k = None \<longleftrightarrow> (\<forall>j<k. m (c + of_nat j) \<noteq> None)"
  unfolding first_free_def by (auto simp: find_None_iff)

lemma ucast_Suc: "(ucast (a + 1 :: u32) :: u16) = ucast a + 1"
proof -
  have "(x + 1) mod 4294967296 mod 65536 = (x mod 4294967296 + 1) mod 65536" for x :: int
  proof -
    have "(x + 1) mod 4294967296 mod 65536 = (x + 1) mod 65536"
      by (rule mod_mod_cancel) simp
    moreover have "x mod 4294967296 mod 65536 = x mod 65536"
      by (rule mod_mod_cancel) simp
    ultimately show ?thesis
      by (metis mod_add_left_eq)
  qed
  then show ?thesis
    by transfer (simp add: take_bit_eq_mod)
qed

lemma next_scan_eq:
  assumes "pid = ucast (nextID g)"
  shows "next_scan k True pid g =
     (case first_free (usedIDs g) pid k of
        None \<Rightarrow> (None, g\<lparr>nextID := nextID g + of_nat k\<rparr>)
      | Some j \<Rightarrow> (Some (pid + of_nat (Suc j)), g\<lparr>nextID := nextID g + of_nat (Suc j)\<rparr>))"
  using assms
proof (induction k arbitrary: pid g)
  case 0
  then show ?case
    by simp
next
  case (Suc k)
  let ?g' = "g\<lparr>nextID := nextID g + 1\<rparr>"
  have pid': "ucast (nextID g + 1) = pid + 1"
    by (simp add: Suc.prems ucast_Suc)
  show ?case
  proof (cases "usedIDs g pid")
    case None
    then show ?thesis
      using pid' by (simp add: bump_def Let_def gen_used_def first_free_Suc)
  next
    case (Some d)
    have "next_scan (Suc k) True pid g = next_scan k True (pid + 1) ?g'"
      using Some pid' by (simp add: bump_def Let_def gen_used_def)
    also have "\<dots> = (case first_free (usedIDs g) (pid + 1) k of
        None \<Rightarrow> (None, g\<lparr>nextID := nextID g + 1 + of_nat k\<rparr>)
      | Some j \<Rightarrow> (Some (pid + 1 + of_nat (Suc j)), g\<lparr>nextID := nextID g + 1 + of_nat (Suc j)\<rparr>))"
      using Suc.IH [of "pid + 1" ?g'] pid' by (simp split: option.split)
    finally show ?thesis
      using Some by (auto simp: first_free_Suc add_ac split: option.splits)
  qed
qed

section \<open>What next returns\<close>

text \<open>The first identifier \<open>next\<close> tries, and the counter's value when it does.\<close>

definition candidate :: "'d id_generator \<Rightarrow> u16" where
  "candidate g = (let c = ucast (nextID g + 1) in if c = 0 then 1 else c)"

definition counter_at :: "'d id_generator \<Rightarrow> u32" where
  "counter_at g = (if (ucast (nextID g + 1) :: u16) = 0 then 1 else nextID g + 1)"

lemma candidate_nonzero [simp]: "candidate g \<noteq> 0"
  by (simp add: candidate_def Let_def)

lemma ucast_counter_at: "ucast (counter_at g) = candidate g"
  by (simp add: counter_at_def candidate_def Let_def)

lemma gen_next_eq:
  "gen_next g x =
     (if usedIDs g (candidate g) = None
      then (candidate g,
            g\<lparr>nextID := counter_at g, usedIDs := (usedIDs g)(candidate g \<mapsto> x)\<rparr>)
      else case first_free (usedIDs g) (candidate g) 65535 of
             None \<Rightarrow> (0, g\<lparr>nextID := counter_at g + 65535\<rparr>)
           | Some j \<Rightarrow>
               (let pid = candidate g + of_nat (Suc j);
                    g' = g\<lparr>nextID := counter_at g + of_nat (Suc j)\<rparr>
                in (pid, if pid = 0 then g' else setUsed g' pid x)))"
proof -
  let ?c = "candidate g"
  let ?g1 = "g\<lparr>nextID := counter_at g\<rparr>"
  have start: "next_first g = (?c, ?g1)"
    by (simp add: next_first_def bump_def Let_def candidate_def counter_at_def)
  have scan: "next_scan 65535 True ?c ?g1 =
     (case first_free (usedIDs g) ?c 65535 of
        None \<Rightarrow> (None, g\<lparr>nextID := counter_at g + 65535\<rparr>)
      | Some j \<Rightarrow> (Some (?c + of_nat (Suc j)), g\<lparr>nextID := counter_at g + of_nat (Suc j)\<rparr>))"
    using next_scan_eq [of ?c ?g1 65535] by (simp add: ucast_counter_at split: option.split)
  have "gen_next g x =
     (case (if gen_used ?g1 ?c then next_scan 65535 True ?c ?g1 else (Some ?c, ?g1)) of
        (None, g2) \<Rightarrow> (0, g2)
      | (Some pid', g2) \<Rightarrow> (pid', if pid' > 0 then setUsed g2 pid' x else g2))"
    by (simp add: gen_next_def start)
  then show ?thesis
    unfolding scan
    by (auto simp: gen_used_def setUsed_def Let_def word_gt_0 split: option.split)
qed

lemma gen_next_fresh_eq:
  assumes "usedIDs g (candidate g) = None"
  shows "gen_next g x =
    (candidate g, g\<lparr>nextID := counter_at g, usedIDs := (usedIDs g)(candidate g \<mapsto> x)\<rparr>)"
  using assms by (simp add: gen_next_eq)

lemma getExtra_next:
  assumes "gen_next g x = (pid, g')"
  shows "getExtra g' j = (if j = pid \<and> pid \<noteq> 0 then Some x else getExtra g j)"
  using assms
  by (auto simp: gen_next_eq getExtra_def setUsed_def Let_def split: if_splits option.splits)

lemma getExtra_free: "getExtra (gen_free g pid) j = (if j = pid then None else getExtra g j)"
  by (simp add: getExtra_def gen_free_def)

section \<open>The table of pending packets\<close>

text \<open>
  What the client relies on: \<open>next\<close> stores the packet under the identifier it returns unless that is
  0, \<open>free\<close> removes one entry, and neither touches another entry.
\<close>

locale id_table =
  fixes alloc :: "'t \<Rightarrow> 'd \<Rightarrow> u16 \<times> 't"
    and lookup :: "'t \<Rightarrow> u16 \<Rightarrow> 'd option"
    and release :: "'t \<Rightarrow> u16 \<Rightarrow> 't"
  assumes lookup_alloc:
      "alloc t x = (pid, t') \<Longrightarrow> lookup t' j = (if j = pid \<and> pid \<noteq> 0 then Some x else lookup t j)"
    and lookup_release: "lookup (release t pid) j = (if j = pid then None else lookup t j)"
begin

definition pending :: "'t \<Rightarrow> u16 set" where
  "pending t = {pid. lookup t pid \<noteq> None}"

lemma pending_alloc: "alloc t x = (pid, t') \<Longrightarrow> pending t' = (if pid = 0 then pending t else insert pid (pending t))"
  by (auto simp: pending_def lookup_alloc)

lemma pending_release: "pending (release t pid) = pending t - {pid}"
  by (auto simp: pending_def lookup_release)

lemma alloc_release:
  assumes "alloc t x = (pid, t')" and "pid \<notin> pending t"
  shows "lookup (release t' pid) = lookup t"
  using assms by (auto simp: fun_eq_iff lookup_release lookup_alloc pending_def)

lemma zero_never_pending:
  assumes "alloc t x = (pid, t')" and "0 \<notin> pending t"
  shows "0 \<notin> pending t'"
  using assms by (simp add: pending_alloc)

end

interpretation gen: id_table gen_next getExtra gen_free
  by unfold_locales (auto simp: getExtra_next getExtra_free)

section \<open>Reachable generators\<close>

inductive gen_reach :: "'d id_generator \<Rightarrow> bool" where
  new: "gen_reach newIDGenerator"
| next_id: "gen_reach g \<Longrightarrow> gen_reach (snd (gen_next g x))"
| free_id: "gen_reach g \<Longrightarrow> gen_reach (gen_free g pid)"

lemma gen_reach_zero_unused:
  assumes "gen_reach g"
  shows "getExtra g 0 = None"
  using assms
proof (induction rule: gen_reach.induct)
  case new
  then show ?case
    by (simp add: newIDGenerator_def getExtra_def)
next
  case (next_id g x)
  then show ?case
    using getExtra_next [of g x "fst (gen_next g x)" "snd (gen_next g x)" 0] by simp
next
  case (free_id g pid)
  then show ?case
    by (simp add: getExtra_free)
qed

text \<open>\<open>n\<close> calls of \<open>next\<close> with the same data, on a generator from which nothing is freed.\<close>

fun next_times :: "nat \<Rightarrow> 'd \<Rightarrow> 'd id_generator \<Rightarrow> u16 list \<times> 'd id_generator" where
  "next_times 0 x g = ([], g)"
| "next_times (Suc n) x g =
     (let (ids, g1) = next_times n x g; (pid, g2) = gen_next g1 x in (ids @ [pid], g2))"

definition filled :: "nat \<Rightarrow> 'd \<Rightarrow> 'd id_generator" where
  "filled n x = \<lparr>nextID = of_nat n,
     usedIDs = (\<lambda>i. if 0 < unat i \<and> unat i \<le> n then Some x else None)\<rparr>"

lemma candidate_filled:
  assumes "n < 65535"
  shows "candidate (filled n x) = of_nat (Suc n)" and "counter_at (filled n x) = of_nat (Suc n)"
proof -
  have u: "(ucast (of_nat (Suc n) :: u32) :: u16) = of_nat (Suc n)"
    using assms by (simp add: word_unat_eq_iff unat_of_nat unsigned_ucast_eq take_bit_eq_mod del: of_nat_Suc)
  have nz: "(of_nat (Suc n) :: u16) \<noteq> 0"
    using assms by (simp add: word_unat_eq_iff unat_of_nat del: of_nat_Suc)
  have "nextID (filled n x) + 1 = of_nat (Suc n)"
    by (simp add: filled_def)
  then show "candidate (filled n x) = of_nat (Suc n)" and "counter_at (filled n x) = of_nat (Suc n)"
    using u nz by (simp_all add: candidate_def counter_at_def Let_def del: of_nat_Suc)
qed

lemma next_filled:
  assumes "n < 65535"
  shows "gen_next (filled n x) x = (of_nat (Suc n), filled (Suc n) x)"
proof -
  have un: "unat (of_nat (Suc n) :: u16) = Suc n"
    using assms by (simp add: unat_of_nat del: of_nat_Suc)
  have free: "usedIDs (filled n x) (candidate (filled n x)) = None"
    using un unfolding candidate_filled [OF assms] by (simp add: filled_def del: of_nat_Suc)
  have "(usedIDs (filled n x))(of_nat (Suc n) \<mapsto> x) = usedIDs (filled (Suc n) x)"
    using un by (auto simp: filled_def fun_eq_iff word_unat_eq_iff simp del: of_nat_Suc)
  moreover have "gen_next (filled n x) x = (of_nat (Suc n), (filled n x)
      \<lparr>nextID := of_nat (Suc n), usedIDs := (usedIDs (filled n x))(of_nat (Suc n) \<mapsto> x)\<rparr>)"
    using gen_next_fresh_eq [OF free, of x] unfolding candidate_filled [OF assms] .
  ultimately show ?thesis
    by (simp add: filled_def del: of_nat_Suc)
qed

lemma next_times_filled:
  "n \<le> 65535 \<Longrightarrow> next_times n x newIDGenerator = (map of_nat [1..<Suc n], filled n x)"
proof (induction n)
  case 0
  then show ?case
    by (auto simp: newIDGenerator_def filled_def)
next
  case (Suc n)
  then show ?case
    by (simp add: next_filled Let_def)
qed

lemma next_times_reach: "gen_reach (snd (next_times n x newIDGenerator))"
proof (induction n)
  case 0
  then show ?case
    by (simp add: gen_reach.new)
next
  case (Suc n)
  have "snd (next_times (Suc n) x newIDGenerator) =
      snd (gen_next (snd (next_times n x newIDGenerator)) x)"
    by (simp add: Let_def split_beta)
  then show ?case
    using Suc by (metis gen_reach.next_id)
qed

lemma filled_reach: "n \<le> 65535 \<Longrightarrow> gen_reach (filled n x)"
  using next_times_reach [of n x] by (simp add: next_times_filled)

lemma filled_all_used: "0 < i \<Longrightarrow> usedIDs (filled 65535 x) i = Some x"
  using unat_u16_less [of i] by (simp add: filled_def word_gt_0 unat_gt_0)

lemma candidate_full: "candidate (filled 65535 x) = 1" and counter_full: "counter_at (filled 65535 x) = 1"
  by (simp_all add: candidate_def counter_at_def filled_def)

lemma candidate_free [simp]: "candidate (gen_free g pid) = candidate g"
  by (simp add: candidate_def gen_free_def)

lemma low_word_nonzero: "j < 65535 \<Longrightarrow> (0 :: u16) < 1 + of_nat j"
  by (simp add: word_less_nat_alt unat_of_nat flip: of_nat_Suc)

section \<open>Properties\<close>



text \<open>
  On a collision \<open>next\<close> scans for the first free identifier after the counter and returns the one
  \<^emph>\<open>behind\<close> it, whether or not that one is pending (the loop's post statement runs once more after the
  free one was found); when the whole scan finds none it returns 0 and stores nothing.
\<close>
theorem next_collision:
  assumes "getExtra g (candidate g) \<noteq> None"
  shows "case first_free (usedIDs g) (candidate g) 65535 of
      None \<Rightarrow> fst (gen_next g x) = 0 \<and> usedIDs (snd (gen_next g x)) = usedIDs g
    | Some j \<Rightarrow> getExtra g (candidate g + of_nat j) = None \<and>
        fst (gen_next g x) = candidate g + of_nat j + 1 \<and>
        (\<forall>i. getExtra (snd (gen_next g x)) i =
          (if i = candidate g + of_nat j + 1 \<and> i \<noteq> 0 then Some x else getExtra g i))"
proof (cases "first_free (usedIDs g) (candidate g) 65535")
  case None
  then show ?thesis
    using assms by (simp add: gen_next_eq getExtra_def)
next
  case (Some j)
  then have "getExtra g (candidate g + of_nat j) = None"
    by (simp add: first_free_Some_iff getExtra_def)
  moreover have "gen_next g x =
      (let pid = candidate g + of_nat j + 1; g' = g\<lparr>nextID := counter_at g + of_nat (Suc j)\<rparr>
       in (pid, if pid = 0 then g' else setUsed g' pid x))"
    using assms Some by (auto simp: gen_next_eq getExtra_def add_ac)
  ultimately show ?thesis
    using Some by (simp add: getExtra_def setUsed_def Let_def)
qed

theorem next_collision_witness:
  "case first_free (usedIDs (filled 65535 (1 :: nat))) (candidate (filled 65535 (1 :: nat))) 65535 of
      None \<Rightarrow> fst (gen_next (filled 65535 (1 :: nat)) 2) = 0 \<and>
        usedIDs (snd (gen_next (filled 65535 (1 :: nat)) 2)) = usedIDs (filled 65535 (1 :: nat))
    | Some j \<Rightarrow> getExtra (filled 65535 (1 :: nat)) (candidate (filled 65535 (1 :: nat)) + of_nat j) = None \<and>
        fst (gen_next (filled 65535 (1 :: nat)) 2) = candidate (filled 65535 (1 :: nat)) + of_nat j + 1 \<and>
        (\<forall>i. getExtra (snd (gen_next (filled 65535 (1 :: nat)) 2)) i =
          (if i = candidate (filled 65535 (1 :: nat)) + of_nat j + 1 \<and> i \<noteq> 0 then Some 2
           else getExtra (filled 65535 (1 :: nat)) i))"
  by (rule next_collision) (simp add: candidate_full getExtra_def filled_all_used)

text \<open>
  A reachable generator on which \<open>next\<close> returns an identifier that is still pending and replaces
  the packet that waits under it: fill the table, free 7, allocate again, and 8 is handed out twice.
\<close>
theorem next_reissues_pending_id:
  "\<exists>g :: nat id_generator. gen_reach g \<and> getExtra g 8 = Some 1 \<and>
     fst (gen_next g 2) = 8 \<and> getExtra (snd (gen_next g 2)) 8 = Some 2 \<and>
     getExtra (snd (gen_next g 2)) 7 = None"
proof -
  let ?g = "gen_free (filled 65535 1) 7 :: nat id_generator"
  have reach: "gen_reach ?g"
    by (intro gen_reach.free_id filled_reach) simp
  have used: "0 < i \<Longrightarrow> i \<noteq> 7 \<Longrightarrow> getExtra ?g i = Some 1" for i
    by (simp add: getExtra_def gen_free_def filled_all_used)
  have free7: "getExtra ?g 7 = None"
    by (simp add: getExtra_def gen_free_def)
  have "getExtra ?g (1 + of_nat i) \<noteq> None" if "i < 6" for i
  proof -
    have "(0 :: u16) < 1 + of_nat i" and "(1 + of_nat i :: u16) \<noteq> 7"
      using that low_word_nonzero [of i]
      by (auto simp: word_unat_eq_iff unat_of_nat simp flip: of_nat_Suc)
    then show ?thesis
      using used by simp
  qed
  then have scan: "first_free (usedIDs ?g) (candidate ?g) 65535 = Some 6"
    using free7 by (simp add: first_free_Some_iff candidate_full getExtra_def)
  have "fst (gen_next ?g 2) = 8 \<and> getExtra (snd (gen_next ?g 2)) 8 = Some 2 \<and>
     getExtra (snd (gen_next ?g 2)) 7 = None"
    using scan used [of 1] free7
    by (simp add: gen_next_eq candidate_full getExtra_def setUsed_def Let_def)
  then show ?thesis
    using reach used [of 8] by (intro exI [of _ ?g]) simp
qed

text \<open>
  C17: from a new generator the first \<open>n \<le> 65535\<close> calls return 1, 2, ..., \<open>n\<close>, all pending; and once
  all 65535 are pending the next call returns 0 and changes no entry.
\<close>
theorem next_fills_table:
  fixes x y :: 'd
  assumes "n \<le> 65535"
  shows "fst (next_times n x newIDGenerator) = map of_nat [1..<Suc n] \<and>
    (\<forall>i. getExtra (snd (next_times n x newIDGenerator)) i =
       (if 0 < unat i \<and> unat i \<le> n then Some x else None)) \<and>
    fst (gen_next (snd (next_times 65535 x newIDGenerator)) y) = 0 \<and>
    usedIDs (snd (gen_next (snd (next_times 65535 x newIDGenerator)) y)) =
      usedIDs (snd (next_times 65535 x newIDGenerator))"
proof -
  have none: "first_free (usedIDs (filled 65535 x)) (candidate (filled 65535 x)) 65535 = None"
    unfolding first_free_None_iff candidate_full
    by (simp add: filled_all_used low_word_nonzero)
  have full: "fst (gen_next (filled 65535 x) y) = 0"
    "usedIDs (snd (gen_next (filled 65535 x) y)) = usedIDs (filled 65535 x)"
    using none by (simp_all add: gen_next_eq candidate_full filled_all_used)
  show ?thesis
    unfolding next_times_filled [OF assms] next_times_filled [OF order_refl]
    using full by (simp add: getExtra_def filled_def)
qed

theorem next_fills_table_witness:
  "fst (next_times 3 (1 :: nat) newIDGenerator) = map of_nat [1..<Suc 3] \<and>
    (\<forall>i. getExtra (snd (next_times 3 (1 :: nat) newIDGenerator)) i =
       (if 0 < unat i \<and> unat i \<le> 3 then Some 1 else None)) \<and>
    fst (gen_next (snd (next_times 65535 (1 :: nat) newIDGenerator)) 2) = 0 \<and>
    usedIDs (snd (gen_next (snd (next_times 65535 (1 :: nat) newIDGenerator)) 2)) =
      usedIDs (snd (next_times 65535 (1 :: nat) newIDGenerator))"
  by (rule next_fills_table) simp

end
