(* ===== verification/Property_Set.thy ===== *)
theory Property_Set
  imports Wire
begin

text \<open>
  MQTT 5 properties: the identifiers, \<open>UserProps\<close> and \<open>propertySet\<close> of \<open>src/libmqtt.go\<close> (encoding), and
  \<open>getRawProps\<close> and \<open>getUserProps\<close> of \<open>src/util.go\<close> (decoding).

  A Go map that the code ranges over is an association list: its order is the order in which
  \<open>range\<close> visits the keys, which Go leaves open, so a statement about every list covers every order.
  A Go map that is only read by key is a function to \<open>option\<close>. The outer \<open>option\<close> of \<open>user_props\<close> is
  the nil map.
\<close>

section \<open>Property identifiers\<close>

abbreviation (input) propKeyPayloadFormatIndicator :: byte where "propKeyPayloadFormatIndicator \<equiv> 1"
abbreviation (input) propKeyMessageExpiryInterval :: byte where "propKeyMessageExpiryInterval \<equiv> 2"
abbreviation (input) propKeyContentType :: byte where "propKeyContentType \<equiv> 3"
abbreviation (input) propKeyRespTopic :: byte where "propKeyRespTopic \<equiv> 8"
abbreviation (input) propKeyCorrelationData :: byte where "propKeyCorrelationData \<equiv> 9"
abbreviation (input) propKeySubID :: byte where "propKeySubID \<equiv> 11"
abbreviation (input) propKeySessionExpiryInterval :: byte where "propKeySessionExpiryInterval \<equiv> 17"
abbreviation (input) propKeyAssignedClientID :: byte where "propKeyAssignedClientID \<equiv> 18"
abbreviation (input) propKeyServerKeepalive :: byte where "propKeyServerKeepalive \<equiv> 19"
abbreviation (input) propKeyAuthMethod :: byte where "propKeyAuthMethod \<equiv> 21"
abbreviation (input) propKeyAuthData :: byte where "propKeyAuthData \<equiv> 22"
abbreviation (input) propKeyReqProblemInfo :: byte where "propKeyReqProblemInfo \<equiv> 23"
abbreviation (input) propKeyWillDelayInterval :: byte where "propKeyWillDelayInterval \<equiv> 24"
abbreviation (input) propKeyReqRespInfo :: byte where "propKeyReqRespInfo \<equiv> 25"
abbreviation (input) propKeyRespInfo :: byte where "propKeyRespInfo \<equiv> 26"
abbreviation (input) propKeyServerRef :: byte where "propKeyServerRef \<equiv> 28"
abbreviation (input) propKeyReasonString :: byte where "propKeyReasonString \<equiv> 31"
abbreviation (input) propKeyMaxRecv :: byte where "propKeyMaxRecv \<equiv> 33"
abbreviation (input) propKeyMaxTopicAlias :: byte where "propKeyMaxTopicAlias \<equiv> 34"
abbreviation (input) propKeyTopicAlias :: byte where "propKeyTopicAlias \<equiv> 35"
abbreviation (input) propKeyMaxQos :: byte where "propKeyMaxQos \<equiv> 36"
abbreviation (input) propKeyRetainAvail :: byte where "propKeyRetainAvail \<equiv> 37"
abbreviation (input) propKeyUserProps :: byte where "propKeyUserProps \<equiv> 38"
abbreviation (input) propKeyMaxPacketSize :: byte where "propKeyMaxPacketSize \<equiv> 39"
abbreviation (input) propKeyWildcardSubAvail :: byte where "propKeyWildcardSubAvail \<equiv> 40"
abbreviation (input) propKeySubIDAvail :: byte where "propKeySubIDAvail \<equiv> 41"
abbreviation (input) propKeySharedSubAvail :: byte where "propKeySharedSubAvail \<equiv> 42"

section \<open>UserProps\<close>

type_synonym user_map = "(gostring \<times> gostring list) list"
type_synonym user_props = "user_map option"

text \<open>Storing under a key of a Go map: the entry keeps its place, a new key goes anywhere (here: last).\<close>

fun map_put :: "'k \<Rightarrow> 'v \<Rightarrow> ('k \<times> 'v) list \<Rightarrow> ('k \<times> 'v) list" where
  "map_put k v [] = [(k, v)]"
| "map_put k v ((k', v') # m) = (if k' = k then (k, v) # m else (k', v') # map_put k v m)"

definition map_del :: "'k \<Rightarrow> ('k \<times> 'v) list \<Rightarrow> ('k \<times> 'v) list" where
  "map_del k m = filter (\<lambda>(k', v). k' \<noteq> k) m"

lemma map_of_map_put [simp]: "map_of (map_put k v m) = (map_of m)(k \<mapsto> v)"
  by (induction k v m rule: map_put.induct) (auto simp: fun_eq_iff)

lemma map_of_map_del [simp]: "map_of (map_del k m) = (map_of m)(k := None)"
  unfolding map_del_def by (induction m) (auto simp: fun_eq_iff)

lemma set_map_put_fst: "fst ` set (map_put k v m) = insert k (fst ` set m)"
  by (induction k v m rule: map_put.induct) auto

lemma distinct_map_put: "distinct (map fst m) \<Longrightarrow> distinct (map fst (map_put k v m))"
  by (induction k v m rule: map_put.induct) (auto simp: set_map_put_fst simp flip: image_set)

definition user_Add :: "user_props \<Rightarrow> gostring \<Rightarrow> gostring \<Rightarrow> user_props res" where
  "user_Add u key val =
     (let old = (case u of None \<Rightarrow> None | Some m \<Rightarrow> map_of m key);
          vs = (case old of None \<Rightarrow> [] | Some vs \<Rightarrow> vs)
      in case u of None \<Rightarrow> Inl Panic | Some m \<Rightarrow> Inr (Some (map_put key (vs @ [val]) m)))"

definition user_Get :: "user_props \<Rightarrow> gostring \<Rightarrow> gostring \<times> bool" where
  "user_Get u key =
     (case (case u of None \<Rightarrow> None | Some m \<Rightarrow> map_of m key) of
        Some (v # vs) \<Rightarrow> (v, True)
      | _ \<Rightarrow> ([], False))"

definition user_Set :: "user_props \<Rightarrow> gostring \<Rightarrow> gostring \<Rightarrow> user_props res" where
  "user_Set u key val =
     (case u of None \<Rightarrow> Inl Panic | Some m \<Rightarrow> Inr (Some (map_put key [val] m)))"

definition user_Del :: "user_props \<Rightarrow> gostring \<Rightarrow> user_props" where
  "user_Del u key = map_option (map_del key) u"

text \<open>The bytes \<open>encodeTo\<close> appends to \<open>*result\<close>.\<close>

definition user_encodeTo :: "user_props \<Rightarrow> bytes" where
  "user_encodeTo u =
     concat (map (\<lambda>(k, vs). concat (map (\<lambda>v. encodeStringWithLen k @ encodeStringWithLen v) vs))
       (case u of None \<Rightarrow> [] | Some m \<Rightarrow> m))"

section \<open>propertySet\<close>

type_synonym property_set = "(byte \<times> bytes list) list"

text \<open>The dynamic type of \<open>propValue\<close>. \<open>PvOther\<close> stands for every type the switch does not list.\<close>

datatype prop_value =
    PvString gostring
  | PvBytes bytes
  | PvBoolPtr "bool option"
  | PvBool bool
  | PvUint8 byte
  | PvUint16 u16
  | PvInt int
  | PvUint32 u32
  | PvUserProps user_props
  | PvNil
  | PvOther

text \<open>The switch of \<open>add\<close>: the value's bytes, \<open>None\<close> for the early return on a nil interface.\<close>

fun prop_value_bytes :: "prop_value \<Rightarrow> bytes option res" where
  "prop_value_bytes (PvString s) = Inr (Some (if s \<noteq> [] then encodeStringWithLen s else []))"
| "prop_value_bytes (PvBytes b) = Inr (Some (if length b > 0 then encodeBytesWithLen b else []))"
| "prop_value_bytes (PvBoolPtr None) = Inl Panic"
| "prop_value_bytes (PvBoolPtr (Some v)) = Inr (Some (if v then [1] else [0]))"
| "prop_value_bytes (PvBool v) = Inr (Some (if v then [1] else [0]))"
| "prop_value_bytes (PvUint8 v) = Inr (Some (if v \<noteq> 0 then [v] else []))"
| "prop_value_bytes (PvUint16 v) = Inr (Some (if v \<noteq> 0 then putUint16 v else []))"
| "prop_value_bytes (PvInt v) =
     Inr (Some (case varIntBytes v of Inl _ \<Rightarrow> [] | Inr bs \<Rightarrow> bs))"
| "prop_value_bytes (PvUint32 v) = Inr (Some (if v \<noteq> 0 then putUint32 v else []))"
| "prop_value_bytes (PvUserProps u) = Inr (Some (user_encodeTo u))"
| "prop_value_bytes PvNil = Inr None"
| "prop_value_bytes PvOther = Inl Panic"

definition prop_add :: "byte \<Rightarrow> prop_value \<Rightarrow> property_set \<Rightarrow> property_set res" where
  "prop_add propKey propValue p =
     rbind (prop_value_bytes propValue) (\<lambda>v.
       case v of None \<Rightarrow> Inr p
       | Some val \<Rightarrow>
           (case map_of p propKey of
              Some vs \<Rightarrow> Inr (map_put propKey (vs @ [val]) p)
            | None \<Rightarrow> Inr p))"

definition prop_del :: "byte \<Rightarrow> property_set \<Rightarrow> property_set" where
  "prop_del propKey p = map_del propKey p"

definition prop_set :: "byte \<Rightarrow> prop_value \<Rightarrow> property_set \<Rightarrow> property_set res" where
  "prop_set propKey propValue p = prop_add propKey propValue (prop_del propKey p)"

definition prop_bytes :: "property_set \<Rightarrow> bytes" where
  "prop_bytes p = concat (map (\<lambda>(k, vs). concat (map (\<lambda>v. k # v) vs)) p)"

text \<open>Setting a list of properties in order, as every \<open>props\<close> method does, then \<open>bytes\<close>.\<close>

fun prop_set_all :: "(byte \<times> prop_value) list \<Rightarrow> property_set \<Rightarrow> property_set res" where
  "prop_set_all [] p = Inr p"
| "prop_set_all ((k, v) # kvs) p = rbind (prop_set k v p) (prop_set_all kvs)"

definition valid_value :: "prop_value \<Rightarrow> bool" where
  "valid_value v \<longleftrightarrow> v \<noteq> PvBoolPtr None \<and> v \<noteq> PvOther"

lemma prop_value_bytes_cases:
  "prop_value_bytes v = Inl Panic \<and> \<not> valid_value v \<or> (\<exists>r. prop_value_bytes v = Inr r) \<and> valid_value v"
  by (cases v rule: prop_value_bytes.cases) (simp_all add: valid_value_def)

text \<open>\<open>add\<close> appends only to a key that is present, and \<open>set\<close> deletes the key first.\<close>

lemma prop_add_absent:
  "map_of p k = None \<Longrightarrow> prop_add k v p = (if valid_value v then Inr p else Inl Panic)"
  using prop_value_bytes_cases [of v] by (auto simp: prop_add_def split: option.split)

lemma prop_set_eq: "prop_set k v p = (if valid_value v then Inr (prop_del k p) else Inl Panic)"
  unfolding prop_set_def by (rule prop_add_absent) (simp add: prop_del_def)

lemma prop_del_Nil [simp]: "prop_del k [] = []"
  by (simp add: prop_del_def map_del_def)

lemma prop_bytes_Nil [simp]: "prop_bytes [] = []"
  by (simp add: prop_bytes_def)

lemma prop_set_all_Nil_eq:
  "prop_set_all kvs [] = (if \<forall>kv \<in> set kvs. valid_value (snd kv) then Inr [] else Inl Panic)"
  by (induction kvs) (force simp: prop_set_eq)+

lemma valid_value_simps [simp]:
  "valid_value (PvString s)" "valid_value (PvBytes b)" "valid_value (PvBool c)"
  "valid_value (PvUint8 v)" "valid_value (PvUint16 w)" "valid_value (PvInt i)"
  "valid_value (PvUint32 x)" "valid_value (PvUserProps u)" "valid_value PvNil"
  "valid_value (PvBoolPtr q) \<longleftrightarrow> q \<noteq> None" "\<not> valid_value PvOther"
  by (simp_all add: valid_value_def)

section \<open>getRawProps\<close>

type_synonym raw_props = "byte \<rightharpoonup> bytes"

text \<open>
  One round of the switch: the value \<open>p\<close> of the property at the front of \<open>propsBytes\<close>. Here \<open>n\<close> is
  \<open>len(propsBytes)\<close> and \<open>mem\<close> the bytes up to its capacity: \<open>data\<close> is a tail of the packet body, which
  \<open>make\<close> allocated with equal length and capacity, so \<open>propsBytes\<close> may be resliced up to the end of the
  body. The lengths are \<open>uint16\<close> sums and wrap.
\<close>

definition len_prefixed :: "bytes \<Rightarrow> bytes res" where
  "len_prefixed mem =
     rbind (go_slice mem 1 3) (\<lambda>l. rbind (getUint16 l) (\<lambda>v. go_slice mem 1 (unat (3 + v))))"

definition user_prop_value :: "bytes \<Rightarrow> bytes res" where
  "user_prop_value mem =
     rbind (go_slice mem 1 3) (\<lambda>l. rbind (getUint16 l) (\<lambda>kl.
       let keyEnd = 2 + kl in
       rbind (go_slice mem (unat (keyEnd + 1)) (unat (keyEnd + 3))) (\<lambda>l. rbind (getUint16 l) (\<lambda>vl.
         let valEnd = 2 + keyEnd + vl in
         go_slice mem 1 (unat (valEnd + 1))))))"

definition sub_id_value :: "bytes \<Rightarrow> nat \<Rightarrow> bytes res" where
  "sub_id_value mem n =
     (case getRemainLength (drop 1 (take n mem)) of (_, byteLen, _) \<Rightarrow> go_slice mem 1 (1 + byteLen))"

definition raw_prop_value :: "bytes \<Rightarrow> nat \<Rightarrow> bytes res" where
  "raw_prop_value mem n =
     (if n = 0 then Inl Panic
      else let k = mem ! 0 in
        if k = propKeyPayloadFormatIndicator then go_slice mem 1 2
        else if k = propKeyMessageExpiryInterval then go_slice mem 1 5
        else if k = propKeyContentType then len_prefixed mem
        else if k = propKeyRespTopic then len_prefixed mem
        else if k = propKeyCorrelationData then len_prefixed mem
        else if k = propKeySubID then sub_id_value mem n
        else if k = propKeySessionExpiryInterval then go_slice mem 1 5
        else if k = propKeyAssignedClientID then len_prefixed mem
        else if k = propKeyServerKeepalive then go_slice mem 1 3
        else if k = propKeyAuthMethod then len_prefixed mem
        else if k = propKeyAuthData then len_prefixed mem
        else if k = propKeyReqProblemInfo then go_slice mem 1 2
        else if k = propKeyWillDelayInterval then go_slice mem 1 5
        else if k = propKeyReqRespInfo then go_slice mem 1 2
        else if k = propKeyRespInfo then len_prefixed mem
        else if k = propKeyServerRef then len_prefixed mem
        else if k = propKeyReasonString then len_prefixed mem
        else if k = propKeyMaxRecv then go_slice mem 1 3
        else if k = propKeyMaxTopicAlias then go_slice mem 1 3
        else if k = propKeyTopicAlias then go_slice mem 1 3
        else if k = propKeyMaxQos then go_slice mem 1 2
        else if k = propKeyRetainAvail then go_slice mem 1 2
        else if k = propKeyUserProps then user_prop_value mem
        else if k = propKeyMaxPacketSize then go_slice mem 1 5
        else if k = propKeyWildcardSubAvail then go_slice mem 1 2
        else if k = propKeySubIDAvail then go_slice mem 1 2
        else if k = propKeySharedSubAvail then go_slice mem 1 2
        else Inl (GoErr ErrDecodeBadPacket))"

function raw_props_loop ::
  "nat \<Rightarrow> nat \<Rightarrow> bytes \<Rightarrow> nat \<Rightarrow> raw_props \<Rightarrow> raw_props res" where
  "raw_props_loop propsLen i mem n props =
     (if i < propsLen then
        (case raw_prop_value mem n of
           Inl f \<Rightarrow> Inl f
         | Inr p \<Rightarrow>
             (let k = mem ! 0;
                  old = (case props k of None \<Rightarrow> [] | Some v \<Rightarrow> v);
                  used = 1 + length p
              in if used \<le> n
                 then raw_props_loop propsLen (i + used) (drop used mem) (n - used)
                        (props(k \<mapsto> old @ p))
                 else Inl Panic))
      else Inr props)"
  by pat_completeness auto
termination
  by (relation "measure (\<lambda>(propsLen, i, _). propsLen - i)") auto

declare raw_props_loop.simps [simp del]

definition getRawProps :: "bytes \<Rightarrow> (raw_props \<times> bytes) res" where
  "getRawProps data =
     recover_with ErrDecodeBadPacket
       (case getRemainLength data of (propsLen, byteLen, _) \<Rightarrow>
          rbind (go_slice data byteLen (propsLen + byteLen)) (\<lambda>propsBytes.
          rbind (go_slice data (propsLen + byteLen) (length data)) (\<lambda>next.
          rbind (raw_props_loop propsLen 0 (drop byteLen data) (length propsBytes) Map.empty)
            (\<lambda>props. Inr (props, next)))))"

text \<open>
  \<open>getUserProps\<close>: pairs of strings until one cannot be read. \<open>next\<close> is nil exactly after a failed
  read; the value of the last pair is empty when it cannot be read.
\<close>

definition user_put :: "gostring \<Rightarrow> gostring \<Rightarrow> user_map \<Rightarrow> user_map" where
  "user_put k v m = map_put k ((case map_of m k of None \<Rightarrow> [] | Some vs \<Rightarrow> vs) @ [v]) m"

function user_props_loop :: "bytes \<Rightarrow> user_map \<Rightarrow> user_map" where
  "user_props_loop data m =
     (case getStringData data of
        Inl _ \<Rightarrow> m
      | Inr (strKey, next) \<Rightarrow>
          (case getStringData next of
             Inl _ \<Rightarrow> user_put strKey [] m
           | Inr (val, next') \<Rightarrow> user_props_loop next' (user_put strKey val m)))"
  by pat_completeness auto
termination
  by (relation "measure (\<lambda>(data, m). length data)") (auto dest!: getBinaryData_length)

declare user_props_loop.simps [simp del]

definition getUserProps :: "bytes \<Rightarrow> user_props" where
  "getUserProps data = Some (user_props_loop data [])"

section \<open>What getRawProps accepts\<close>

lemma go_slice_fault: "go_slice mem lo hi = Inl f \<Longrightarrow> f = Panic"
  by (auto simp: go_slice_def split: if_splits)

lemma getUint16_fault: "getUint16 d = Inl f \<Longrightarrow> f = Panic"
  by (auto simp: getUint16_def split: if_splits)

lemma raw_prop_value_no_hang: "raw_prop_value mem n \<noteq> Inl Hang"
proof -
  have g: "getUint16 d \<noteq> Inl Hang" for d
    by (auto dest: getUint16_fault)
  have l: "len_prefixed mem \<noteq> Inl Hang"
    by (auto simp: len_prefixed_def rbind_Inl_iff g)
  have u: "user_prop_value mem \<noteq> Inl Hang"
    by (auto simp: user_prop_value_def rbind_Inl_iff g Let_def)
  have s: "sub_id_value mem n \<noteq> Inl Hang"
    by (auto simp: sub_id_value_def split: prod.split)
  show ?thesis
    by (simp add: raw_prop_value_def Let_def l u s)
qed

lemma raw_props_loop_no_hang: "raw_props_loop propsLen i mem n props \<noteq> Inl Hang"
proof (induction propsLen i mem n props rule: raw_props_loop.induct)
  case (1 propsLen i mem n props)
  show ?case
  proof (cases "i < propsLen")
    case False
    then show ?thesis
      by (subst raw_props_loop.simps) simp
  next
    case True
    show ?thesis
    proof (cases "raw_prop_value mem n")
      case (Inl f)
      with raw_prop_value_no_hang [of mem n] True show ?thesis
        by (subst raw_props_loop.simps) auto
    next
      case (Inr p)
      with 1 [OF True Inr refl refl refl] True show ?thesis
        by (subst raw_props_loop.simps) (simp add: Let_def fun_upd_def)
    qed
  qed
qed

lemma getRawProps_safe [safe_intros, simp]: "safe (getRawProps data)"
  by (auto simp: getRawProps_def rbind_Inl_iff raw_props_loop_no_hang split: prod.split)

text \<open>An invariant of the loop's map: a predicate on the entries that appending a switch value keeps.\<close>

lemma raw_props_loop_inv:
  assumes "raw_props_loop propsLen i mem n props = Inr r"
    and "\<And>mem n p props. P props \<Longrightarrow> raw_prop_value mem n = Inr p \<Longrightarrow> 1 + length p \<le> n \<Longrightarrow>
       P (props(mem ! 0 \<mapsto> (case props (mem ! 0) of None \<Rightarrow> [] | Some v \<Rightarrow> v) @ p))"
    and "P props"
  shows "P r"
  using assms(1,3)
proof (induction propsLen i mem n props rule: raw_props_loop.induct)
  case (1 propsLen i mem n props)
  show ?case
  proof (cases "i < propsLen")
    case False
    with "1.prems" show ?thesis
      by (simp add: raw_props_loop.simps)
  next
    case True
    with "1.prems"(1) obtain p where p: "raw_prop_value mem n = Inr p" and le: "1 + length p \<le> n"
      and rec: "raw_props_loop propsLen (i + (1 + length p)) (drop (1 + length p) mem)
        (n - (1 + length p))
        (props(mem ! 0 \<mapsto> (case props (mem ! 0) of None \<Rightarrow> [] | Some v \<Rightarrow> v) @ p)) = Inr r"
      by (subst (asm) raw_props_loop.simps) (auto simp: Let_def split: sum.splits if_splits)
    show ?thesis
      using "1.IH" [OF True p refl refl refl le rec] assms(2) [OF "1.prems"(2) p le] by blast
  qed
qed

section \<open>The shape of accepted properties\<close>

text \<open>The width every accepted value of a fixed-width property has at least.\<close>

definition min_width :: "byte \<Rightarrow> nat" where
  "min_width k =
     (if k \<in> {propKeyMessageExpiryInterval, propKeySessionExpiryInterval,
               propKeyWillDelayInterval, propKeyMaxPacketSize} then 4
      else if k \<in> {propKeyServerKeepalive, propKeyMaxRecv, propKeyMaxTopicAlias,
               propKeyTopicAlias} then 2
      else 0)"

lemma raw_prop_value_width: "raw_prop_value mem n = Inr p \<Longrightarrow> min_width (mem ! 0) \<le> length p"
  by (auto simp: raw_prop_value_def min_width_def Let_def split: if_splits dest: go_slice_length)

text \<open>
  A chunk is a run of bytes from which \<open>getRemainLength\<close> takes exactly that run, whatever follows. The
  value of the subscription identifiers is a sequence of chunks.
\<close>

definition sub_id_chunk :: "bytes \<Rightarrow> bool" where
  "sub_id_chunk c \<longleftrightarrow> c \<noteq> [] \<and> (\<forall>rest. fst (snd (getRemainLength (c @ rest))) = length c)"

definition sub_id_chunks :: "bytes \<Rightarrow> bool" where
  "sub_id_chunks v \<longleftrightarrow> (\<exists>cs. v = concat cs \<and> (\<forall>c \<in> set cs. sub_id_chunk c))"

lemma sub_id_chunks_Nil [simp]: "sub_id_chunks []"
  unfolding sub_id_chunks_def by (rule exI [of _ "[]"]) simp

lemma sub_id_chunks_snoc:
  assumes "sub_id_chunks v" and "sub_id_chunk c"
  shows "sub_id_chunks (v @ c)"
proof -
  from assms(1) obtain cs where "v = concat cs" and "\<forall>c \<in> set cs. sub_id_chunk c"
    by (auto simp: sub_id_chunks_def)
  with assms(2) show ?thesis
    unfolding sub_id_chunks_def by (intro exI [of _ "cs @ [c]"]) auto
qed

lemma sub_id_chunks_cases:
  assumes "sub_id_chunks v" and "v \<noteq> []"
  obtains c v' where "v = c @ v'" "sub_id_chunk c" "sub_id_chunks v'"
proof -
  from assms obtain cs where v: "v = concat cs" and cs: "\<forall>c \<in> set cs. sub_id_chunk c"
    by (auto simp: sub_id_chunks_def)
  with assms(2) obtain c cs' where "cs = c # cs'"
    by (cases cs) auto
  with v cs that [of c "concat cs'"] show ?thesis
    by (auto simp: sub_id_chunks_def)
qed

lemma remain_length_loop_prefix:
  assumes "remain_length_loop m len r = (x, k, rest)" and "k \<noteq> 0"
    and "k - m div 7 \<le> length r"
  shows "m div 7 < k \<and>
    (\<exists>rest''. remain_length_loop m len (take (k - m div 7) r @ rest') = (x, k, rest''))"
  using assms
proof (induction m len r rule: remain_length_loop.induct)
  case (1 m len)
  then show ?case
    by (auto split: if_splits)
next
  case (2 m len b bs)
  show ?case
  proof (cases "m < 27 \<and> b AND 128 \<noteq> 0")
    case False
    with "2.prems" have k: "k = m div 7 + 1"
      by (auto simp: Let_def split: if_splits)
    with "2.prems"(1) False show ?thesis
      by (auto simp: Let_def split: if_splits)
  next
    case True
    let ?len = "len OR push_bit m (unat (b AND 127))"
    have d: "(m + 7) div 7 = Suc (m div 7)"
      by simp
    have rec: "remain_length_loop (m + 7) ?len bs = (x, k, rest)"
      using "2.prems"(1) True by (simp add: Let_def)
    have len: "k - (m + 7) div 7 \<le> length bs"
      using "2.prems"(3) by auto
    obtain rest'' where lt: "(m + 7) div 7 < k"
      and eq: "remain_length_loop (m + 7) ?len (take (k - (m + 7) div 7) bs @ rest') = (x, k, rest'')"
      using "2.IH" [of ?len] True rec "2.prems"(2) len by blast
    have "take (k - m div 7) (b # bs) = b # take (k - (m + 7) div 7) bs"
      using lt d by (simp add: take_Cons')
    with eq lt d True show ?thesis
      by (simp add: Let_def)
  qed
qed

lemma sub_id_value_chunk:
  assumes "sub_id_value mem n = Inr p" and "1 + length p \<le> n" and "p \<noteq> []"
  shows "sub_id_chunk p"
proof -
  let ?r = "drop 1 (take n mem)"
  obtain x k rest where r: "getRemainLength ?r = (x, k, rest)"
    by (metis prod_cases3)
  with assms(1) have sl: "go_slice mem 1 (1 + k) = Inr p"
    by (simp add: sub_id_value_def)
  then have k: "length p = k" and mem: "1 + k \<le> length mem" and p: "p = take k (drop 1 mem)"
    by (auto simp: go_slice_Inr_iff)
  have le: "k \<le> length ?r"
    using mem assms(2) k by auto
  have "take k ?r = p"
    using p assms(2) k by (simp add: drop_take min_def)
  then have "fst (snd (getRemainLength (p @ rest'))) = length p" for rest'
    using remain_length_loop_prefix [of 0 0 ?r x k rest rest'] r le k assms(3)
    by (auto simp: getRemainLength_def)
  then show ?thesis
    using assms(3) by (simp add: sub_id_chunk_def)
qed

text \<open>What every map that \<open>getRawProps\<close> returns satisfies.\<close>

definition raw_props_ok :: "raw_props \<Rightarrow> bool" where
  "raw_props_ok props \<longleftrightarrow>
     (\<forall>k v. props k = Some v \<longrightarrow> min_width k \<le> length v) \<and>
     (\<forall>v. props propKeySubID = Some v \<longrightarrow> sub_id_chunks v)"

lemma raw_props_ok_empty [simp]: "raw_props_ok Map.empty"
  by (simp add: raw_props_ok_def)

lemma raw_props_ok_step:
  assumes "raw_props_ok props" and "raw_prop_value mem n = Inr p" and "1 + length p \<le> n"
  shows "raw_props_ok (props(mem ! 0 \<mapsto> (case props (mem ! 0) of None \<Rightarrow> [] | Some v \<Rightarrow> v) @ p))"
proof -
  let ?old = "case props (mem ! 0) of None \<Rightarrow> [] | Some v \<Rightarrow> v"
  have "sub_id_chunks (?old @ p)" if k: "mem ! 0 = propKeySubID"
  proof -
    have old: "sub_id_chunks ?old"
      using assms(1) k by (auto simp: raw_props_ok_def split: option.split)
    have "sub_id_value mem n = Inr p"
      using assms(2) k by (simp add: raw_prop_value_def split: if_splits)
    then show ?thesis
      using sub_id_value_chunk [of mem n p] assms(3) old
      by (cases "p = []") (auto intro: sub_id_chunks_snoc)
  qed
  then show ?thesis
    using assms(1) raw_prop_value_width [OF assms(2)]
    by (auto simp: raw_props_ok_def)
qed

lemma getRawProps_ok: "getRawProps data = Inr (props, next) \<Longrightarrow> raw_props_ok props"
  by (auto simp: getRawProps_def rbind_Inr_iff split: prod.splits
      elim!: raw_props_loop_inv [where P = raw_props_ok] intro: raw_props_ok_step)

lemma raw_props_ok_width: "raw_props_ok props \<Longrightarrow> props k = Some v \<Longrightarrow> min_width k \<le> length v"
  by (auto simp: raw_props_ok_def)

section \<open>User properties survive the wire\<close>


definition user_pairs :: "user_map \<Rightarrow> (gostring \<times> gostring) list" where
  "user_pairs m = concat (map (\<lambda>(k, vs). map (Pair k) vs) m)"

lemma user_encodeTo_pairs:
  "user_encodeTo (Some m) =
     concat (map (\<lambda>(k, v). encodeBytesWithLen k @ encodeBytesWithLen v) (user_pairs m))"
  unfolding user_encodeTo_def user_pairs_def
  by (induction m) (auto simp: comp_def)

lemma user_props_loop_pairs:
  assumes "\<forall>(k, v) \<in> set kvs. length k < 65536 \<and> length v < 65536"
  shows "user_props_loop
      (concat (map (\<lambda>(k, v). encodeBytesWithLen k @ encodeBytesWithLen v) kvs)) m =
    foldl (\<lambda>m (k, v). user_put k v m) m kvs"
  using assms
proof (induction kvs arbitrary: m)
  case Nil
  then show ?case
    by (subst user_props_loop.simps) (simp add: getBinaryData_def)
next
  case (Cons kv kvs)
  obtain k v where "kv = (k, v)"
    by (cases kv)
  with Cons show ?case
    by (subst user_props_loop.simps) simp
qed

lemma map_put_new: "k \<notin> fst ` set m \<Longrightarrow> map_put k v m = m @ [(k, v)]"
  by (induction m) auto

lemma map_put_last: "k \<notin> fst ` set m \<Longrightarrow> map_put k v (m @ [(k, w)]) = m @ [(k, v)]"
  by (induction m) auto

lemma user_put_all:
  assumes "k \<notin> fst ` set m"
  shows "foldl (\<lambda>m (k, v). user_put k v m) (m @ [(k, ws)]) (map (Pair k) vs) = m @ [(k, ws @ vs)]"
proof (induction vs arbitrary: ws)
  case Nil
  then show ?case
    by simp
next
  case (Cons v vs)
  have "user_put k v (m @ [(k, ws)]) = m @ [(k, ws @ [v])]"
    using assms map_of_eq_None_iff [of m k]
    by (simp add: user_put_def map_put_last map_add_def)
  then show ?case
    using Cons by simp
qed

lemma user_put_entry:
  assumes "k \<notin> fst ` set m" and "vs \<noteq> []"
  shows "foldl (\<lambda>m (k, v). user_put k v m) m (map (Pair k) vs) = m @ [(k, vs)]"
proof -
  obtain v vs' where vs: "vs = v # vs'"
    using assms(2) by (cases vs) auto
  have "map_of m k = None"
    using assms(1) by (simp add: map_of_eq_None_iff)
  then have "user_put k v m = m @ [(k, [v])]"
    using assms(1) by (simp add: user_put_def map_put_new)
  then show ?thesis
    using user_put_all [OF assms(1), of "[v]" vs'] vs by simp
qed

lemma user_put_map:
  assumes "distinct (map fst (m @ m'))" and "\<forall>(k, vs) \<in> set m'. vs \<noteq> []"
  shows "foldl (\<lambda>m (k, v). user_put k v m) m (user_pairs m') = m @ m'"
  using assms
proof (induction m' arbitrary: m)
  case Nil
  then show ?case
    by (simp add: user_pairs_def)
next
  case (Cons kvs m')
  obtain k vs where kvs: "kvs = (k, vs)"
    by (cases kvs)
  have "foldl (\<lambda>m (k, v). user_put k v m) m (map (Pair k) vs) = m @ [(k, vs)]"
    using Cons.prems kvs by (intro user_put_entry) auto
  moreover have "foldl (\<lambda>m (k, v). user_put k v m) (m @ [(k, vs)]) (user_pairs m') = (m @ [(k, vs)]) @ m'"
    using Cons.prems kvs by (intro Cons.IH) auto
  ultimately show ?case
    using kvs by (simp add: user_pairs_def)
qed

text \<open>
  C26: user properties survive the wire: \<open>getUserProps\<close> of what \<open>UserProps.encodeTo\<close> writes is the map
  again, with every key, every value of a key and their order, if keys are distinct (as in any Go
  map), no key has an empty list of values and no string is longer than 65535 bytes.
\<close>
theorem user_props_round_trip:
  assumes "distinct (map fst m)" and "\<forall>(k, vs) \<in> set m. vs \<noteq> []"
    and "\<forall>(k, vs) \<in> set m. length k < 65536 \<and> (\<forall>v \<in> set vs. length v < 65536)"
  shows "getUserProps (user_encodeTo (Some m)) = Some m"
proof -
  have "\<forall>(k, v) \<in> set (user_pairs m). length k < 65536 \<and> length v < 65536"
    using assms(3) by (fastforce simp: user_pairs_def)
  then have "user_props_loop (user_encodeTo (Some m)) [] = foldl (\<lambda>m (k, v). user_put k v m) [] (user_pairs m)"
    by (simp only: user_encodeTo_pairs user_props_loop_pairs)
  then show ?thesis
    using user_put_map [of "[]" m] assms(1,2) by (simp add: getUserProps_def)
qed

lemma user_props_round_trip_witness:
  "getUserProps (user_encodeTo (Some [([0x61], [[0x62], []]), ([], [[0x63]])])) =
     Some [([0x61], [[0x62], []]), ([], [[0x63]])]"
  by (rule user_props_round_trip) simp_all
end
