(* ===== verification/Packet_Props.thy ===== *)
theory Packet_Props
  imports Property_Set Writer
begin

text \<open>
  The property structures of the packets (\<open>src/pkt_conn.go\<close>, \<open>src/pkt_pub.go\<close>, \<open>src/pkt_sub.go\<close>,
  \<open>src/pkt_auth.go\<close>): for each its record, \<open>props\<close> (its bytes on the wire) and \<open>setProps\<close> (its fields
  from the map that \<open>getRawProps\<close> returned).

  A pointer to a structure is an \<open>option\<close>: both methods test their receiver for nil. \<open>props\<close> can
  panic (a nil \<open>*bool\<close> is dereferenced), and \<open>setProps\<close> could panic on a value that is too short or
  loop on malformed subscription identifiers; the lemmas show that it does neither on a map that
  \<open>getRawProps\<close> returned, and that \<open>props\<close> writes nothing for the structures built on \<open>propertySet\<close>.
\<close>

section \<open>Reading fields\<close>

text \<open>\<open>if v, ok := props[k]; ok { ... }\<close>, one after the other.\<close>

type_synonym 'c field_reader = "byte \<times> (bytes \<Rightarrow> 'c \<Rightarrow> 'c res)"

fun read_fields :: "'c field_reader list \<Rightarrow> raw_props \<Rightarrow> 'c \<Rightarrow> 'c res" where
  "read_fields [] props c = Inr c"
| "read_fields ((k, f) # fs) props c =
     rbind (case props k of None \<Rightarrow> Inr c | Some v \<Rightarrow> f v c) (read_fields fs props)"

definition read_u32 :: "(u32 \<Rightarrow> 'c \<Rightarrow> 'c) \<Rightarrow> bytes \<Rightarrow> 'c \<Rightarrow> 'c res" where
  "read_u32 upd v c = rbind (getUint32 v) (\<lambda>x. Inr (upd x c))"

definition read_u16 :: "(u16 \<Rightarrow> 'c \<Rightarrow> 'c) \<Rightarrow> bytes \<Rightarrow> 'c \<Rightarrow> 'c res" where
  "read_u16 upd v c = rbind (getUint16 v) (\<lambda>x. Inr (upd x c))"

text \<open>\<open>ok && len(v) == 1\<close>: a byte, or a pointer to a fresh boolean.\<close>

definition read_byte :: "(byte \<Rightarrow> 'c \<Rightarrow> 'c) \<Rightarrow> bytes \<Rightarrow> 'c \<Rightarrow> 'c res" where
  "read_byte upd v c = (if length v = 1 then Inr (upd (v ! 0) c) else Inr c)"

definition read_flag :: "(bool option \<Rightarrow> 'c \<Rightarrow> 'c) \<Rightarrow> bytes \<Rightarrow> 'c \<Rightarrow> 'c res" where
  "read_flag upd v c = (if length v = 1 then Inr (upd (Some (v ! 0 = 1)) c) else Inr c)"

text \<open>\<open>x, _, _ = getStringData(v)\<close>: the error is dropped and the result is then empty.\<close>

definition read_string :: "(gostring \<Rightarrow> 'c \<Rightarrow> 'c) \<Rightarrow> bytes \<Rightarrow> 'c \<Rightarrow> 'c res" where
  "read_string upd v c =
     Inr (upd (case getStringData v of Inl _ \<Rightarrow> [] | Inr (s, _) \<Rightarrow> s) c)"

definition read_bytes :: "(bytes \<Rightarrow> 'c \<Rightarrow> 'c) \<Rightarrow> bytes \<Rightarrow> 'c \<Rightarrow> 'c res" where
  "read_bytes upd v c =
     Inr (upd (case getBinaryData v of Inl _ \<Rightarrow> [] | Inr (s, _) \<Rightarrow> s) c)"

definition read_user :: "(user_props \<Rightarrow> 'c \<Rightarrow> 'c) \<Rightarrow> bytes \<Rightarrow> 'c \<Rightarrow> 'c res" where
  "read_user upd v c = Inr (upd (getUserProps v) c)"

text \<open>Every reader of a list is safe on the values an accepted map can hold under its key.\<close>

definition reader_ok :: "'c field_reader \<Rightarrow> bool" where
  "reader_ok kf \<longleftrightarrow>
     (\<forall>v c. min_width (fst kf) \<le> length v \<longrightarrow> (fst kf = propKeySubID \<longrightarrow> sub_id_chunks v) \<longrightarrow>
        safe (snd kf v c))"

lemma read_fields_safe:
  assumes "raw_props_ok props" and "\<forall>kf \<in> set fs. reader_ok kf"
  shows "safe (read_fields fs props c)"
  using assms(2)
proof (induction fs arbitrary: c)
  case Nil
  then show ?case
    by simp
next
  case (Cons kf fs)
  obtain k f where kf: "kf = (k, f)"
    by (cases kf)
  have "safe (case props k of None \<Rightarrow> Inr c | Some v \<Rightarrow> f v c)"
  proof (cases "props k")
    case (Some v)
    then have "min_width k \<le> length v" and "k = propKeySubID \<longrightarrow> sub_id_chunks v"
      using assms(1) by (auto simp: raw_props_ok_def)
    with Cons.prems kf Some show ?thesis
      by (simp add: reader_ok_def)
  qed simp
  then show ?case
    using Cons kf by (auto intro!: safe_rbind)
qed

lemma read_fields_Nil_map: "read_fields fs Map.empty c = Inr c"
  by (induction fs) auto

lemma reader_ok_simps [simp]:
  "4 \<le> min_width k \<Longrightarrow> reader_ok (k, read_u32 u32)"
  "2 \<le> min_width k \<Longrightarrow> reader_ok (k, read_u16 u16)"
  "reader_ok (k, read_byte u8)" "reader_ok (k, read_flag fl)" "reader_ok (k, read_string st)"
  "reader_ok (k, read_bytes bs)" "reader_ok (k, read_user us)"
  by (auto simp: reader_ok_def read_u32_def read_u16_def read_byte_def read_flag_def
      read_string_def read_bytes_def read_user_def intro!: safe_intros)

text \<open>The bytes of a list of properties set one after the other in a new \<open>propertySet\<close>.\<close>

definition set_props_bytes :: "(byte \<times> prop_value) list \<Rightarrow> bytes res" where
  "set_props_bytes kvs = rbind (prop_set_all kvs []) (\<lambda>p. Inr (prop_bytes p))"

lemma set_props_bytes_eq:
  "set_props_bytes kvs = (if \<forall>kv \<in> set kvs. valid_value (snd kv) then Inr [] else Inl Panic)"
  by (simp add: set_props_bytes_def prop_set_all_Nil_eq)

section \<open>WillProps\<close>

record will_props =
  wp_WillDelayInterval :: "u32"
  wp_PayloadFormat :: "byte"
  wp_MessageExpiryInterval :: "u32"
  wp_ContentType :: "gostring"
  wp_ResponseTopic :: "gostring"
  wp_CorrelationData :: "bytes"
  wp_UserProps :: "user_props"

definition will_props_zero :: will_props where
  "will_props_zero = \<lparr>wp_WillDelayInterval = 0, wp_PayloadFormat = 0, wp_MessageExpiryInterval = 0, wp_ContentType = [], wp_ResponseTopic = [], wp_CorrelationData = [], wp_UserProps = None\<rparr>"

definition willProps_props :: "will_props option \<Rightarrow> bytes res" where
  "willProps_props p = (case p of None \<Rightarrow> Inr [] | Some p \<Rightarrow> set_props_bytes
     [(propKeyWillDelayInterval, PvUint32 (wp_WillDelayInterval p)),
      (propKeyPayloadFormatIndicator, PvUint8 (wp_PayloadFormat p)),
      (propKeyMessageExpiryInterval, PvUint32 (wp_MessageExpiryInterval p)),
      (propKeyContentType, PvString (wp_ContentType p)),
      (propKeyRespTopic, PvString (wp_ResponseTopic p)),
      (propKeyCorrelationData, PvBytes (wp_CorrelationData p)),
      (propKeyUserProps, PvUserProps (wp_UserProps p))])"

section \<open>ConnProps\<close>

record conn_props =
  cp_SessionExpiryInterval :: "u32"
  cp_MaxRecv :: "u16"
  cp_MaxPacketSize :: "u32"
  cp_MaxTopicAlias :: "u16"
  cp_ReqRespInfo :: "bool option"
  cp_ReqProblemInfo :: "bool option"
  cp_UserProps :: "user_props"
  cp_AuthMethod :: "gostring"
  cp_AuthData :: "bytes"

definition conn_props_zero :: conn_props where
  "conn_props_zero = \<lparr>cp_SessionExpiryInterval = 0, cp_MaxRecv = 0, cp_MaxPacketSize = 0, cp_MaxTopicAlias = 0, cp_ReqRespInfo = None, cp_ReqProblemInfo = None, cp_UserProps = None, cp_AuthMethod = [], cp_AuthData = []\<rparr>"

definition connProps_props :: "conn_props option \<Rightarrow> bytes res" where
  "connProps_props p = (case p of None \<Rightarrow> Inr [] | Some p \<Rightarrow> set_props_bytes
     [(propKeySessionExpiryInterval, PvUint32 (cp_SessionExpiryInterval p)),
      (propKeyMaxRecv, PvUint16 (cp_MaxRecv p)),
      (propKeyMaxPacketSize, PvUint32 (cp_MaxPacketSize p)),
      (propKeyMaxTopicAlias, PvUint16 (cp_MaxTopicAlias p)),
      (propKeyReqRespInfo, PvBoolPtr (cp_ReqRespInfo p)),
      (propKeyReqProblemInfo, PvBoolPtr (cp_ReqProblemInfo p)),
      (propKeyUserProps, PvUserProps (cp_UserProps p)),
      (propKeyAuthMethod, PvString (cp_AuthMethod p)),
      (propKeyAuthData, PvBytes (cp_AuthData p))])"

definition connProps_setProps_fields :: "conn_props field_reader list" where
  "connProps_setProps_fields =
     [(propKeySessionExpiryInterval, read_u32 (\<lambda>x c. c\<lparr>cp_SessionExpiryInterval := x\<rparr>)),
      (propKeyMaxRecv, read_u16 (\<lambda>x c. c\<lparr>cp_MaxRecv := x\<rparr>)),
      (propKeyMaxPacketSize, read_u32 (\<lambda>x c. c\<lparr>cp_MaxPacketSize := x\<rparr>)),
      (propKeyMaxTopicAlias, read_u16 (\<lambda>x c. c\<lparr>cp_MaxTopicAlias := x\<rparr>)),
      (propKeyReqRespInfo, read_flag (\<lambda>x c. c\<lparr>cp_ReqRespInfo := x\<rparr>)),
      (propKeyReqProblemInfo, read_flag (\<lambda>x c. c\<lparr>cp_ReqProblemInfo := x\<rparr>)),
      (propKeyUserProps, read_user (\<lambda>x c. c\<lparr>cp_UserProps := x\<rparr>)),
      (propKeyAuthMethod, read_string (\<lambda>x c. c\<lparr>cp_AuthMethod := x\<rparr>)),
      (propKeyAuthData, read_bytes (\<lambda>x c. c\<lparr>cp_AuthData := x\<rparr>))]"

definition connProps_setProps :: "conn_props option \<Rightarrow> raw_props \<Rightarrow> conn_props option res" where
  "connProps_setProps p props = (case p of None \<Rightarrow> Inr None
     | Some c \<Rightarrow> rbind (read_fields connProps_setProps_fields props c) (\<lambda>c. Inr (Some c)))"

lemma connProps_setProps_safe [safe_intros]: "raw_props_ok props \<Longrightarrow> safe (connProps_setProps p props)"
  by (cases p) (simp_all add: connProps_setProps_def connProps_setProps_fields_def min_width_def read_fields_safe
      del: read_fields.simps)

section \<open>ConnAckProps\<close>

record connack_props =
  ca_AuthData :: "bytes"
  ca_AssignedClientID :: "gostring"
  ca_Reason :: "gostring"
  ca_RespInfo :: "gostring"
  ca_ServerRef :: "gostring"
  ca_AuthMethod :: "gostring"
  ca_RetainAvail :: "bool option"
  ca_UserProps :: "user_props"
  ca_WildcardSubAvail :: "bool option"
  ca_SubIDAvail :: "bool option"
  ca_SharedSubAvail :: "bool option"
  ca_SessionExpiryInterval :: "u32"
  ca_MaxPacketSize :: "u32"
  ca_MaxRecv :: "u16"
  ca_MaxTopicAlias :: "u16"
  ca_ServerKeepalive :: "u16"
  ca_MaxQos :: "byte"

definition connack_props_zero :: connack_props where
  "connack_props_zero = \<lparr>ca_AuthData = [], ca_AssignedClientID = [], ca_Reason = [], ca_RespInfo = [], ca_ServerRef = [], ca_AuthMethod = [], ca_RetainAvail = None, ca_UserProps = None, ca_WildcardSubAvail = None, ca_SubIDAvail = None, ca_SharedSubAvail = None, ca_SessionExpiryInterval = 0, ca_MaxPacketSize = 0, ca_MaxRecv = 0, ca_MaxTopicAlias = 0, ca_ServerKeepalive = 0, ca_MaxQos = 0\<rparr>"

definition connAckProps_props :: "connack_props option \<Rightarrow> bytes res" where
  "connAckProps_props p = (case p of None \<Rightarrow> Inr [] | Some p \<Rightarrow> set_props_bytes
     [(propKeyRetainAvail, PvBoolPtr (ca_RetainAvail p)),
      (propKeyWildcardSubAvail, PvBoolPtr (ca_WildcardSubAvail p)),
      (propKeySubIDAvail, PvBoolPtr (ca_SubIDAvail p)),
      (propKeySharedSubAvail, PvBoolPtr (ca_SharedSubAvail p)),
      (propKeySessionExpiryInterval, PvUint32 (ca_SessionExpiryInterval p)),
      (propKeyMaxRecv, PvUint16 (ca_MaxRecv p)),
      (propKeyMaxQos, PvUint8 (ca_MaxQos p)),
      (propKeyMaxPacketSize, PvUint32 (ca_MaxPacketSize p)),
      (propKeyAssignedClientID, PvString (ca_AssignedClientID p)),
      (propKeyMaxTopicAlias, PvUint16 (ca_MaxTopicAlias p)),
      (propKeyReasonString, PvString (ca_Reason p)),
      (propKeyUserProps, PvUserProps (ca_UserProps p)),
      (propKeyServerKeepalive, PvUint16 (ca_ServerKeepalive p)),
      (propKeyRespInfo, PvString (ca_RespInfo p)),
      (propKeyServerRef, PvString (ca_ServerRef p)),
      (propKeyAuthMethod, PvString (ca_AuthMethod p)),
      (propKeyAuthData, PvBytes (ca_AuthData p))])"

definition connAckProps_setProps_fields :: "connack_props field_reader list" where
  "connAckProps_setProps_fields =
     [(propKeySessionExpiryInterval, read_u32 (\<lambda>x c. c\<lparr>ca_SessionExpiryInterval := x\<rparr>)),
      (propKeyMaxRecv, read_u16 (\<lambda>x c. c\<lparr>ca_MaxRecv := x\<rparr>)),
      (propKeyMaxQos, read_byte (\<lambda>x c. c\<lparr>ca_MaxQos := x\<rparr>)),
      (propKeyRetainAvail, read_flag (\<lambda>x c. c\<lparr>ca_RetainAvail := x\<rparr>)),
      (propKeyMaxPacketSize, read_u32 (\<lambda>x c. c\<lparr>ca_MaxPacketSize := x\<rparr>)),
      (propKeyAssignedClientID, read_string (\<lambda>x c. c\<lparr>ca_AssignedClientID := x\<rparr>)),
      (propKeyMaxTopicAlias, read_u16 (\<lambda>x c. c\<lparr>ca_MaxTopicAlias := x\<rparr>)),
      (propKeyReasonString, read_string (\<lambda>x c. c\<lparr>ca_Reason := x\<rparr>)),
      (propKeyUserProps, read_user (\<lambda>x c. c\<lparr>ca_UserProps := x\<rparr>)),
      (propKeyWildcardSubAvail, read_flag (\<lambda>x c. c\<lparr>ca_WildcardSubAvail := x\<rparr>)),
      (propKeyServerKeepalive, read_u16 (\<lambda>x c. c\<lparr>ca_ServerKeepalive := x\<rparr>)),
      (propKeyRespInfo, read_string (\<lambda>x c. c\<lparr>ca_RespInfo := x\<rparr>)),
      (propKeyServerRef, read_string (\<lambda>x c. c\<lparr>ca_ServerRef := x\<rparr>)),
      (propKeyAuthMethod, read_string (\<lambda>x c. c\<lparr>ca_AuthMethod := x\<rparr>)),
      (propKeyAuthData, read_bytes (\<lambda>x c. c\<lparr>ca_AuthData := x\<rparr>))]"

definition connAckProps_setProps :: "connack_props option \<Rightarrow> raw_props \<Rightarrow> connack_props option res" where
  "connAckProps_setProps p props = (case p of None \<Rightarrow> Inr None
     | Some c \<Rightarrow> rbind (read_fields connAckProps_setProps_fields props c) (\<lambda>c. Inr (Some c)))"

lemma connAckProps_setProps_safe [safe_intros]: "raw_props_ok props \<Longrightarrow> safe (connAckProps_setProps p props)"
  by (cases p) (simp_all add: connAckProps_setProps_def connAckProps_setProps_fields_def min_width_def read_fields_safe
      del: read_fields.simps)

section \<open>DisconnProps\<close>

record disconn_props =
  dp_SessionExpiryInterval :: "u32"
  dp_Reason :: "gostring"
  dp_UserProps :: "user_props"
  dp_ServerRef :: "gostring"

definition disconn_props_zero :: disconn_props where
  "disconn_props_zero = \<lparr>dp_SessionExpiryInterval = 0, dp_Reason = [], dp_UserProps = None, dp_ServerRef = []\<rparr>"

definition disconnProps_props :: "disconn_props option \<Rightarrow> bytes res" where
  "disconnProps_props p = (case p of None \<Rightarrow> Inr [] | Some p \<Rightarrow> set_props_bytes
     [(propKeySessionExpiryInterval, PvUint32 (dp_SessionExpiryInterval p)),
      (propKeyReasonString, PvString (dp_Reason p)),
      (propKeyUserProps, PvUserProps (dp_UserProps p)),
      (propKeyServerRef, PvString (dp_ServerRef p))])"

definition disconnProps_setProps_fields :: "disconn_props field_reader list" where
  "disconnProps_setProps_fields =
     [(propKeySessionExpiryInterval, read_u32 (\<lambda>x c. c\<lparr>dp_SessionExpiryInterval := x\<rparr>)),
      (propKeyReasonString, read_string (\<lambda>x c. c\<lparr>dp_Reason := x\<rparr>)),
      (propKeyUserProps, read_user (\<lambda>x c. c\<lparr>dp_UserProps := x\<rparr>)),
      (propKeyServerRef, read_string (\<lambda>x c. c\<lparr>dp_ServerRef := x\<rparr>))]"

definition disconnProps_setProps :: "disconn_props option \<Rightarrow> raw_props \<Rightarrow> disconn_props option res" where
  "disconnProps_setProps p props = (case p of None \<Rightarrow> Inr None
     | Some c \<Rightarrow> rbind (read_fields disconnProps_setProps_fields props c) (\<lambda>c. Inr (Some c)))"

lemma disconnProps_setProps_safe [safe_intros]: "raw_props_ok props \<Longrightarrow> safe (disconnProps_setProps p props)"
  by (cases p) (simp_all add: disconnProps_setProps_def disconnProps_setProps_fields_def min_width_def read_fields_safe
      del: read_fields.simps)

section \<open>PublishProps\<close>

record publish_props =
  pp_CorrelationData :: "bytes"
  pp_SubIDs :: "int list"
  pp_RespTopic :: "gostring"
  pp_ContentType :: "gostring"
  pp_UserProps :: "user_props"
  pp_MessageExpiryInterval :: "u32"
  pp_TopicAlias :: "u16"
  pp_PayloadFormat :: "byte"

definition publish_props_zero :: publish_props where
  "publish_props_zero = \<lparr>pp_CorrelationData = [], pp_SubIDs = [], pp_RespTopic = [], pp_ContentType = [], pp_UserProps = None, pp_MessageExpiryInterval = 0, pp_TopicAlias = 0, pp_PayloadFormat = 0\<rparr>"

fun prop_add_all :: "byte \<Rightarrow> prop_value list \<Rightarrow> property_set \<Rightarrow> property_set res" where
  "prop_add_all k [] p = Inr p"
| "prop_add_all k (v # vs) p = rbind (prop_add k v p) (prop_add_all k vs)"

definition publishProps_props :: "publish_props option \<Rightarrow> bytes res" where
  "publishProps_props p = (case p of None \<Rightarrow> Inr [] | Some p \<Rightarrow>
     rbind (prop_set_all
       [(propKeyPayloadFormatIndicator, PvUint8 (pp_PayloadFormat p)),
        (propKeyMessageExpiryInterval, PvUint32 (pp_MessageExpiryInterval p)),
        (propKeyTopicAlias, PvUint16 (pp_TopicAlias p)),
        (propKeyRespTopic, PvString (pp_RespTopic p)),
        (propKeyCorrelationData, PvBytes (pp_CorrelationData p)),
        (propKeyUserProps, PvUserProps (pp_UserProps p))] []) (\<lambda>propSet.
     rbind (prop_add_all propKeySubID (map PvInt (pp_SubIDs p)) propSet) (\<lambda>propSet.
     rbind (prop_set propKeyContentType (PvString (pp_ContentType p)) propSet) (\<lambda>propSet.
     Inr (prop_bytes propSet)))))"

text \<open>
  The loop over the subscription identifiers. It does not end when \<open>getRemainLength\<close> reports no
  byte, so it is a partial function: \<open>None\<close> is "does not return".
\<close>

partial_function (option) sub_ids_loop :: "bytes \<Rightarrow> nat \<Rightarrow> int list \<Rightarrow> int list option" where
  "sub_ids_loop v i ids =
     (if i < length v then
        (case getRemainLength (drop i v) of (d, n, _) \<Rightarrow> sub_ids_loop v (i + n) (ids @ [int d]))
      else Some ids)"

declare sub_ids_loop.simps [code]

definition read_sub_ids :: "bytes \<Rightarrow> publish_props \<Rightarrow> publish_props res" where
  "read_sub_ids v c =
     (case sub_ids_loop v 0 [] of None \<Rightarrow> Inl Hang | Some ids \<Rightarrow> Inr (c\<lparr>pp_SubIDs := ids\<rparr>))"

lemma sub_ids_loop_returns:
  assumes "sub_id_chunks (drop i v)"
  shows "\<exists>r. sub_ids_loop v i ids = Some r"
  using assms
proof (induction "length v - i" arbitrary: i ids rule: less_induct)
  case less
  show ?case
  proof (cases "i < length v")
    case False
    then show ?thesis
      by (simp add: sub_ids_loop.simps)
  next
    case True
    then have "drop i v \<noteq> []"
      by simp
    with less.prems obtain c v' where v: "drop i v = c @ v'" and c: "sub_id_chunk c"
      and v': "sub_id_chunks v'"
      by (rule sub_id_chunks_cases)
    obtain d n rest where r: "getRemainLength (drop i v) = (d, n, rest)"
      by (metis prod_cases3)
    from c have pos: "0 < length c" and len: "fst (snd (getRemainLength (c @ v'))) = length c"
      by (simp_all add: sub_id_chunk_def)
    from len r v have n: "n = length c"
      by simp
    have "drop (i + n) v = drop n (drop i v)"
      by (simp add: add.commute)
    then have "drop (i + n) v = v'"
      using v n by simp
    moreover have "length v - (i + n) < length v - i"
      using n pos True by arith
    ultimately show ?thesis
      using less.hyps [of "i + n" "ids @ [int d]"] v' r True
      by (subst sub_ids_loop.simps) simp
  qed
qed

text \<open>On a value with an unfinished identifier at its end the loop never returns.\<close>

lemma sub_ids_loop_stuck: "sub_ids_loop [128] 0 ids = None"
proof -
  have "\<not> (v = [128] \<and> i = 0)" if "sub_ids_loop v i ids = Some r" for v i ids r
  proof (rule sub_ids_loop.raw_induct [where P = "\<lambda>v i ids r. \<not> (v = [128] \<and> i = 0)", OF _ that])
    fix f :: "bytes \<Rightarrow> nat \<Rightarrow> int list \<Rightarrow> int list option" and v i ids r
    assume IH: "\<And>v i ids r. f v i ids = Some r \<Longrightarrow> \<not> (v = [128] \<and> i = 0)"
      and eq: "(if i < length v then
        (case getRemainLength (drop i v) of (d, n, _) \<Rightarrow> f v (i + n) (ids @ [int d]))
      else Some ids) = Some r"
    have "getRemainLength [128] = (0, 0, [])"
      by (simp add: getRemainLength_def)
    then have "v = [128] \<and> i = 0 \<Longrightarrow> f [128] 0 (ids @ [0]) = Some r"
      using eq by simp
    then show "\<not> (v = [128] \<and> i = 0)"
      using IH by blast
  qed
  then show ?thesis
    by (metis not_None_eq)
qed

lemma read_sub_ids_ok: "reader_ok (propKeySubID, read_sub_ids)"
  using sub_ids_loop_returns [of 0]
  by (auto simp: reader_ok_def read_sub_ids_def split: option.split)

definition publishProps_setProps_fields :: "publish_props field_reader list" where
  "publishProps_setProps_fields =
     [(propKeyPayloadFormatIndicator, read_byte (\<lambda>x c. c\<lparr>pp_PayloadFormat := x\<rparr>)),
      (propKeyMessageExpiryInterval, read_u32 (\<lambda>x c. c\<lparr>pp_MessageExpiryInterval := x\<rparr>)),
      (propKeyTopicAlias, read_u16 (\<lambda>x c. c\<lparr>pp_TopicAlias := x\<rparr>)),
      (propKeyRespTopic, read_string (\<lambda>x c. c\<lparr>pp_RespTopic := x\<rparr>)),
      (propKeyCorrelationData, read_bytes (\<lambda>x c. c\<lparr>pp_CorrelationData := x\<rparr>)),
      (propKeyUserProps, read_user (\<lambda>x c. c\<lparr>pp_UserProps := x\<rparr>)),
      (propKeySubID, read_sub_ids),
      (propKeyContentType, read_string (\<lambda>x c. c\<lparr>pp_ContentType := x\<rparr>))]"

definition publishProps_setProps ::
  "publish_props option \<Rightarrow> raw_props \<Rightarrow> publish_props option res" where
  "publishProps_setProps p props = (case p of None \<Rightarrow> Inr None
     | Some c \<Rightarrow> rbind (read_fields publishProps_setProps_fields props c) (\<lambda>c. Inr (Some c)))"

lemma publishProps_setProps_safe [safe_intros]:
  "raw_props_ok props \<Longrightarrow> safe (publishProps_setProps p props)"
  by (cases p) (simp_all add: publishProps_setProps_def publishProps_setProps_fields_def
      min_width_def read_sub_ids_ok read_fields_safe del: read_fields.simps)

section \<open>The acknowledgement properties\<close>

text \<open>
  \<open>PubAckProps\<close>, \<open>PubRecvProps\<close>, \<open>PubRelProps\<close>, \<open>PubCompProps\<close>, \<open>SubAckProps\<close> and \<open>UnsubAckProps\<close> have
  the same two fields; they share a record and keep their own methods.
\<close>

record reason_props =
  rp_Reason :: gostring
  rp_UserProps :: user_props

definition reason_props_zero :: reason_props where
  "reason_props_zero = \<lparr>rp_Reason = [], rp_UserProps = None\<rparr>"

type_synonym puback_props = reason_props
type_synonym pubrecv_props = reason_props
type_synonym pubrel_props = reason_props
type_synonym pubcomp_props = reason_props
type_synonym suback_props = reason_props
type_synonym unsuback_props = reason_props

definition pubAckProps_props :: "puback_props option \<Rightarrow> bytes res" where
  "pubAckProps_props p = (case p of None \<Rightarrow> Inr [] | Some p \<Rightarrow> set_props_bytes
     [(propKeyReasonString, PvString (rp_Reason p)),
      (propKeyUserProps, PvUserProps (rp_UserProps p))])"

definition pubAckProps_setProps_fields :: "puback_props field_reader list" where
  "pubAckProps_setProps_fields =
     [(propKeyReasonString, read_string (\<lambda>x c. c\<lparr>rp_Reason := x\<rparr>)),
      (propKeyUserProps, read_user (\<lambda>x c. c\<lparr>rp_UserProps := x\<rparr>))]"

definition pubAckProps_setProps :: "puback_props option \<Rightarrow> raw_props \<Rightarrow> puback_props option res" where
  "pubAckProps_setProps p props = (case p of None \<Rightarrow> Inr None
     | Some c \<Rightarrow> rbind (read_fields pubAckProps_setProps_fields props c) (\<lambda>c. Inr (Some c)))"

lemma pubAckProps_setProps_safe [safe_intros]: "raw_props_ok props \<Longrightarrow> safe (pubAckProps_setProps p props)"
  by (cases p) (simp_all add: pubAckProps_setProps_def pubAckProps_setProps_fields_def min_width_def read_fields_safe
      del: read_fields.simps)

definition pubRecvProps_props :: "pubrecv_props option \<Rightarrow> bytes res" where
  "pubRecvProps_props p = (case p of None \<Rightarrow> Inr [] | Some p \<Rightarrow> set_props_bytes
     [(propKeyReasonString, PvString (rp_Reason p)),
      (propKeyUserProps, PvUserProps (rp_UserProps p))])"

definition pubRecvProps_setProps_fields :: "pubrecv_props field_reader list" where
  "pubRecvProps_setProps_fields =
     [(propKeyReasonString, read_string (\<lambda>x c. c\<lparr>rp_Reason := x\<rparr>)),
      (propKeyUserProps, read_user (\<lambda>x c. c\<lparr>rp_UserProps := x\<rparr>))]"

definition pubRecvProps_setProps :: "pubrecv_props option \<Rightarrow> raw_props \<Rightarrow> pubrecv_props option res" where
  "pubRecvProps_setProps p props = (case p of None \<Rightarrow> Inr None
     | Some c \<Rightarrow> rbind (read_fields pubRecvProps_setProps_fields props c) (\<lambda>c. Inr (Some c)))"

lemma pubRecvProps_setProps_safe [safe_intros]: "raw_props_ok props \<Longrightarrow> safe (pubRecvProps_setProps p props)"
  by (cases p) (simp_all add: pubRecvProps_setProps_def pubRecvProps_setProps_fields_def min_width_def read_fields_safe
      del: read_fields.simps)

definition pubRelProps_props :: "pubrel_props option \<Rightarrow> bytes res" where
  "pubRelProps_props p = (case p of None \<Rightarrow> Inr [] | Some p \<Rightarrow> set_props_bytes
     [(propKeyReasonString, PvString (rp_Reason p)),
      (propKeyUserProps, PvUserProps (rp_UserProps p))])"

definition pubRelProps_setProps_fields :: "pubrel_props field_reader list" where
  "pubRelProps_setProps_fields =
     [(propKeyReasonString, read_string (\<lambda>x c. c\<lparr>rp_Reason := x\<rparr>)),
      (propKeyUserProps, read_user (\<lambda>x c. c\<lparr>rp_UserProps := x\<rparr>))]"

definition pubRelProps_setProps :: "pubrel_props option \<Rightarrow> raw_props \<Rightarrow> pubrel_props option res" where
  "pubRelProps_setProps p props = (case p of None \<Rightarrow> Inr None
     | Some c \<Rightarrow> rbind (read_fields pubRelProps_setProps_fields props c) (\<lambda>c. Inr (Some c)))"

lemma pubRelProps_setProps_safe [safe_intros]: "raw_props_ok props \<Longrightarrow> safe (pubRelProps_setProps p props)"
  by (cases p) (simp_all add: pubRelProps_setProps_def pubRelProps_setProps_fields_def min_width_def read_fields_safe
      del: read_fields.simps)

definition pubCompProps_props :: "pubcomp_props option \<Rightarrow> bytes res" where
  "pubCompProps_props p = (case p of None \<Rightarrow> Inr [] | Some p \<Rightarrow> set_props_bytes
     [(propKeyReasonString, PvString (rp_Reason p)),
      (propKeyUserProps, PvUserProps (rp_UserProps p))])"

definition pubCompProps_setProps_fields :: "pubcomp_props field_reader list" where
  "pubCompProps_setProps_fields =
     [(propKeyReasonString, read_string (\<lambda>x c. c\<lparr>rp_Reason := x\<rparr>)),
      (propKeyUserProps, read_user (\<lambda>x c. c\<lparr>rp_UserProps := x\<rparr>))]"

definition pubCompProps_setProps :: "pubcomp_props option \<Rightarrow> raw_props \<Rightarrow> pubcomp_props option res" where
  "pubCompProps_setProps p props = (case p of None \<Rightarrow> Inr None
     | Some c \<Rightarrow> rbind (read_fields pubCompProps_setProps_fields props c) (\<lambda>c. Inr (Some c)))"

lemma pubCompProps_setProps_safe [safe_intros]: "raw_props_ok props \<Longrightarrow> safe (pubCompProps_setProps p props)"
  by (cases p) (simp_all add: pubCompProps_setProps_def pubCompProps_setProps_fields_def min_width_def read_fields_safe
      del: read_fields.simps)

definition subAckProps_props :: "suback_props option \<Rightarrow> bytes res" where
  "subAckProps_props p = (case p of None \<Rightarrow> Inr [] | Some p \<Rightarrow>
     rbind (if rp_Reason p \<noteq> [] then prop_set propKeyReasonString (PvString (rp_Reason p)) []
            else Inr []) (\<lambda>propSet.
     rbind (if rp_UserProps p \<noteq> None
            then prop_set propKeyUserProps (PvUserProps (rp_UserProps p)) propSet
            else Inr propSet) (\<lambda>propSet.
     Inr (prop_bytes propSet))))"

definition subAckProps_setProps_fields :: "suback_props field_reader list" where
  "subAckProps_setProps_fields =
     [(propKeyReasonString, read_string (\<lambda>x c. c\<lparr>rp_Reason := x\<rparr>)),
      (propKeyUserProps, read_user (\<lambda>x c. c\<lparr>rp_UserProps := x\<rparr>))]"

definition subAckProps_setProps :: "suback_props option \<Rightarrow> raw_props \<Rightarrow> suback_props option res" where
  "subAckProps_setProps p props = (case p of None \<Rightarrow> Inr None
     | Some c \<Rightarrow> rbind (read_fields subAckProps_setProps_fields props c) (\<lambda>c. Inr (Some c)))"

lemma subAckProps_setProps_safe [safe_intros]: "raw_props_ok props \<Longrightarrow> safe (subAckProps_setProps p props)"
  by (cases p) (simp_all add: subAckProps_setProps_def subAckProps_setProps_fields_def min_width_def read_fields_safe
      del: read_fields.simps)

definition unsubAckProps_props :: "unsuback_props option \<Rightarrow> bytes res" where
  "unsubAckProps_props p = (case p of None \<Rightarrow> Inr [] | Some p \<Rightarrow>
     rbind (if rp_Reason p \<noteq> [] then prop_set propKeyReasonString (PvString (rp_Reason p)) []
            else Inr []) (\<lambda>propSet.
     rbind (if rp_UserProps p \<noteq> None
            then prop_set propKeyUserProps (PvUserProps (rp_UserProps p)) propSet
            else Inr propSet) (\<lambda>propSet.
     Inr (prop_bytes propSet))))"

definition unsubAckProps_setProps_fields :: "unsuback_props field_reader list" where
  "unsubAckProps_setProps_fields =
     [(propKeyReasonString, read_string (\<lambda>x c. c\<lparr>rp_Reason := x\<rparr>)),
      (propKeyUserProps, read_user (\<lambda>x c. c\<lparr>rp_UserProps := x\<rparr>))]"

definition unsubAckProps_setProps :: "unsuback_props option \<Rightarrow> raw_props \<Rightarrow> unsuback_props option res" where
  "unsubAckProps_setProps p props = (case p of None \<Rightarrow> Inr None
     | Some c \<Rightarrow> rbind (read_fields unsubAckProps_setProps_fields props c) (\<lambda>c. Inr (Some c)))"

lemma unsubAckProps_setProps_safe [safe_intros]: "raw_props_ok props \<Longrightarrow> safe (unsubAckProps_setProps p props)"
  by (cases p) (simp_all add: unsubAckProps_setProps_def unsubAckProps_setProps_fields_def min_width_def read_fields_safe
      del: read_fields.simps)

section \<open>SubscribeProps\<close>

record subscribe_props =
  sp_SubID :: int
  sp_UserProps :: user_props

definition subscribe_props_zero :: subscribe_props where
  "subscribe_props_zero = \<lparr>sp_SubID = 0, sp_UserProps = None\<rparr>"

text \<open>
  This \<open>props\<close> does not use \<open>propertySet\<close>. \<open>len(s.UserProps) != 0\<close> tests the map: one property
  identifier is written, then all pairs.
\<close>

definition subscribeProps_props :: "subscribe_props option \<Rightarrow> bytes res" where
  "subscribeProps_props s = (case s of None \<Rightarrow> Inr [] | Some s \<Rightarrow>
     let result = (if sp_SubID s \<noteq> 0
           then propKeySubID # (case varIntBytes (sp_SubID s) of Inl _ \<Rightarrow> [] | Inr bs \<Rightarrow> bs)
           else []) in
     Inr (if (case sp_UserProps s of None \<Rightarrow> 0 | Some m \<Rightarrow> length m) \<noteq> 0
          then result @ propKeyUserProps # user_encodeTo (sp_UserProps s)
          else result))"

definition read_sub_id :: "bytes \<Rightarrow> subscribe_props \<Rightarrow> subscribe_props res" where
  "read_sub_id v c = (case getRemainLength v of (d, _, _) \<Rightarrow> Inr (c\<lparr>sp_SubID := int d\<rparr>))"

lemma read_sub_id_ok [simp]: "reader_ok (k, read_sub_id)"
  by (auto simp: reader_ok_def read_sub_id_def split: prod.split)

definition subscribeProps_setProps_fields :: "subscribe_props field_reader list" where
  "subscribeProps_setProps_fields =
     [(propKeySubID, read_sub_id),
      (propKeyUserProps, read_user (\<lambda>x c. c\<lparr>sp_UserProps := x\<rparr>))]"

definition subscribeProps_setProps ::
  "subscribe_props option \<Rightarrow> raw_props \<Rightarrow> subscribe_props option res" where
  "subscribeProps_setProps p props = (case p of None \<Rightarrow> Inr None
     | Some c \<Rightarrow> rbind (read_fields subscribeProps_setProps_fields props c) (\<lambda>c. Inr (Some c)))"

lemma subscribeProps_setProps_safe [safe_intros]: "raw_props_ok props \<Longrightarrow> safe (subscribeProps_setProps p props)"
  by (cases p) (simp_all add: subscribeProps_setProps_def subscribeProps_setProps_fields_def min_width_def read_fields_safe
      del: read_fields.simps)

section \<open>UnsubProps\<close>

record unsub_props =
  up_UserProps :: user_props

definition unsub_props_zero :: unsub_props where
  "unsub_props_zero = \<lparr>up_UserProps = None\<rparr>"

definition unsubProps_props :: "unsub_props option \<Rightarrow> bytes res" where
  "unsubProps_props p = (case p of None \<Rightarrow> Inr [] | Some p \<Rightarrow>
     rbind (if up_UserProps p \<noteq> None
            then prop_set propKeyUserProps (PvUserProps (up_UserProps p)) []
            else Inr []) (\<lambda>propSet.
     Inr (prop_bytes propSet)))"

definition unsubProps_setProps_fields :: "unsub_props field_reader list" where
  "unsubProps_setProps_fields =
     [(propKeyUserProps, read_user (\<lambda>x c. c\<lparr>up_UserProps := x\<rparr>))]"

definition unsubProps_setProps :: "unsub_props option \<Rightarrow> raw_props \<Rightarrow> unsub_props option res" where
  "unsubProps_setProps p props = (case p of None \<Rightarrow> Inr None
     | Some c \<Rightarrow> rbind (read_fields unsubProps_setProps_fields props c) (\<lambda>c. Inr (Some c)))"

lemma unsubProps_setProps_safe [safe_intros]: "raw_props_ok props \<Longrightarrow> safe (unsubProps_setProps p props)"
  by (cases p) (simp_all add: unsubProps_setProps_def unsubProps_setProps_fields_def min_width_def read_fields_safe
      del: read_fields.simps)

section \<open>AuthProps\<close>

record auth_props =
  ap_AuthMethod :: "gostring"
  ap_AuthData :: "bytes"
  ap_Reason :: "gostring"
  ap_UserProps :: "user_props"

definition auth_props_zero :: auth_props where
  "auth_props_zero = \<lparr>ap_AuthMethod = [], ap_AuthData = [], ap_Reason = [], ap_UserProps = None\<rparr>"

definition authProps_props :: "auth_props option \<Rightarrow> bytes res" where
  "authProps_props p = (case p of None \<Rightarrow> Inr [] | Some p \<Rightarrow> set_props_bytes
     [(propKeyAuthMethod, PvString (ap_AuthMethod p)),
      (propKeyAuthData, PvBytes (ap_AuthData p)),
      (propKeyReasonString, PvString (ap_Reason p)),
      (propKeyUserProps, PvUserProps (ap_UserProps p))])"

definition authProps_setProps_fields :: "auth_props field_reader list" where
  "authProps_setProps_fields =
     [(propKeyAuthMethod, read_string (\<lambda>x c. c\<lparr>ap_AuthMethod := x\<rparr>)),
      (propKeyAuthData, read_bytes (\<lambda>x c. c\<lparr>ap_AuthData := x\<rparr>)),
      (propKeyReasonString, read_string (\<lambda>x c. c\<lparr>ap_Reason := x\<rparr>)),
      (propKeyUserProps, read_user (\<lambda>x c. c\<lparr>ap_UserProps := x\<rparr>))]"

definition authProps_setProps :: "auth_props option \<Rightarrow> raw_props \<Rightarrow> auth_props option res" where
  "authProps_setProps p props = (case p of None \<Rightarrow> Inr None
     | Some c \<Rightarrow> rbind (read_fields authProps_setProps_fields props c) (\<lambda>c. Inr (Some c)))"

lemma authProps_setProps_safe [safe_intros]: "raw_props_ok props \<Longrightarrow> safe (authProps_setProps p props)"
  by (cases p) (simp_all add: authProps_setProps_def authProps_setProps_fields_def min_width_def read_fields_safe
      del: read_fields.simps)

section \<open>What props writes\<close>

text \<open>Every structure built on \<open>propertySet\<close> encodes to no bytes, or panics on a nil \<open>*bool\<close>.\<close>

lemma prop_add_all_Nil: "prop_add_all k (map PvInt is) [] = Inr []"
  by (induction "is") (simp_all add: prop_add_absent)

lemma props_empty:
  "willProps_props wp = Inr []" "disconnProps_props dp = Inr []"
  "publishProps_props pp = Inr []" "pubAckProps_props p1 = Inr []"
  "pubRecvProps_props p2 = Inr []" "pubRelProps_props p3 = Inr []"
  "pubCompProps_props p4 = Inr []" "subAckProps_props p5 = Inr []"
  "unsubAckProps_props p6 = Inr []" "unsubProps_props p7 = Inr []" "authProps_props p8 = Inr []"
  by (auto simp: willProps_props_def disconnProps_props_def publishProps_props_def
      pubAckProps_props_def pubRecvProps_props_def pubRelProps_props_def pubCompProps_props_def
      subAckProps_props_def unsubAckProps_props_def unsubProps_props_def authProps_props_def
      set_props_bytes_eq prop_set_all_Nil_eq prop_set_eq prop_add_all_Nil
      split: option.split)

lemma connProps_props_eq:
  "connProps_props (Some c) =
     (if cp_ReqRespInfo c = None \<or> cp_ReqProblemInfo c = None then Inl Panic else Inr [])"
  by (auto simp: connProps_props_def set_props_bytes_eq)

lemma connAckProps_props_eq:
  "connAckProps_props (Some c) =
     (if ca_RetainAvail c = None \<or> ca_WildcardSubAvail c = None \<or> ca_SubIDAvail c = None \<or>
         ca_SharedSubAvail c = None then Inl Panic else Inr [])"
  by (auto simp: connAckProps_props_def set_props_bytes_eq)

lemma props_nil [simp]:
  "connProps_props None = Inr []" "connAckProps_props None = Inr []"
  "subscribeProps_props None = Inr []"
  by (simp_all add: connProps_props_def connAckProps_props_def subscribeProps_props_def)

end
