(* ===== verification/Packets.thy ===== *)
theory Packets
  imports Packet_Props
begin

text \<open>
  The control packets of \<open>src/libmqtt.go\<close> and \<open>src/pkt_*.go\<close>: one record per packet structure, its
  \<open>payload\<close>, \<open>flags\<close> and \<open>WriteTo\<close> through any \<open>BufferedWriter\<close>, and \<open>Bytes\<close> through a
  \<open>bytes.Buffer\<close>; then the \<open>Packet\<close> interface as a datatype over the structures.

  The receiver of a method is a pointer, so it is an \<open>option\<close>. \<open>ConnPacket.WriteTo\<close> also changes
  its receiver (\<open>flags\<close> sets the clean-session flag of a client without an identifier), so it
  returns the packet. The lemmas give the bytes of every packet kind at both protocol versions.
\<close>

unbundle bit_operations_syntax

section \<open>Versions and packet types\<close>

abbreviation (input) V311 :: byte where "V311 \<equiv> 4"
abbreviation (input) V5 :: byte where "V5 \<equiv> 5"
abbreviation (input) CtrlConn :: byte where "CtrlConn \<equiv> 1"
abbreviation (input) CtrlConnAck :: byte where "CtrlConnAck \<equiv> 2"
abbreviation (input) CtrlPublish :: byte where "CtrlPublish \<equiv> 3"
abbreviation (input) CtrlPubAck :: byte where "CtrlPubAck \<equiv> 4"
abbreviation (input) CtrlPubRecv :: byte where "CtrlPubRecv \<equiv> 5"
abbreviation (input) CtrlPubRel :: byte where "CtrlPubRel \<equiv> 6"
abbreviation (input) CtrlPubComp :: byte where "CtrlPubComp \<equiv> 7"
abbreviation (input) CtrlSubscribe :: byte where "CtrlSubscribe \<equiv> 8"
abbreviation (input) CtrlSubAck :: byte where "CtrlSubAck \<equiv> 9"
abbreviation (input) CtrlUnSub :: byte where "CtrlUnSub \<equiv> 10"
abbreviation (input) CtrlUnSubAck :: byte where "CtrlUnSubAck \<equiv> 11"
abbreviation (input) CtrlPingReq :: byte where "CtrlPingReq \<equiv> 12"
abbreviation (input) CtrlPingResp :: byte where "CtrlPingResp \<equiv> 13"
abbreviation (input) CtrlDisConn :: byte where "CtrlDisConn \<equiv> 14"
abbreviation (input) CtrlAuth :: byte where "CtrlAuth \<equiv> 15"
abbreviation (input) Qos0 :: byte where "Qos0 \<equiv> 0"
abbreviation (input) Qos1 :: byte where "Qos1 \<equiv> 1"
abbreviation (input) Qos2 :: byte where "Qos2 \<equiv> 2"

text \<open>The codes of a \<open>SUBACK\<close>, those of a 3.1.1 \<open>CONNACK\<close>, and the reason codes of MQTT 5.\<close>

abbreviation (input) SubOkMaxQos0 :: byte where "SubOkMaxQos0 \<equiv> 0"
abbreviation (input) SubOkMaxQos1 :: byte where "SubOkMaxQos1 \<equiv> 1"
abbreviation (input) SubOkMaxQos2 :: byte where "SubOkMaxQos2 \<equiv> 2"
abbreviation (input) SubFail :: byte where "SubFail \<equiv> 128"
abbreviation (input) CodeUnacceptableVersion :: byte where "CodeUnacceptableVersion \<equiv> 1"
abbreviation (input) CodeIdentifierRejected :: byte where "CodeIdentifierRejected \<equiv> 2"
abbreviation (input) CodeServerUnavailable :: byte where "CodeServerUnavailable \<equiv> 3"
abbreviation (input) CodeBadUsernameOrPassword :: byte where "CodeBadUsernameOrPassword \<equiv> 4"
abbreviation (input) CodeUnauthorized :: byte where "CodeUnauthorized \<equiv> 5"
abbreviation (input) CodeSuccess :: byte where "CodeSuccess \<equiv> 0"
abbreviation (input) CodeNormalDisconn :: byte where "CodeNormalDisconn \<equiv> 0"
abbreviation (input) CodeGrantedQos0 :: byte where "CodeGrantedQos0 \<equiv> 0"
abbreviation (input) CodeGrantedQos1 :: byte where "CodeGrantedQos1 \<equiv> 1"
abbreviation (input) CodeGrantedQos2 :: byte where "CodeGrantedQos2 \<equiv> 2"
abbreviation (input) CodeDisconnWithWill :: byte where "CodeDisconnWithWill \<equiv> 4"
abbreviation (input) CodeNoMatchingSubscribers :: byte where "CodeNoMatchingSubscribers \<equiv> 16"
abbreviation (input) CodeNoSubscriptionExisted :: byte where "CodeNoSubscriptionExisted \<equiv> 17"
abbreviation (input) CodeContinueAuth :: byte where "CodeContinueAuth \<equiv> 24"
abbreviation (input) CodeReAuth :: byte where "CodeReAuth \<equiv> 25"
abbreviation (input) CodeUnspecifiedError :: byte where "CodeUnspecifiedError \<equiv> 128"
abbreviation (input) CodeMalformedPacket :: byte where "CodeMalformedPacket \<equiv> 129"
abbreviation (input) CodeProtoError :: byte where "CodeProtoError \<equiv> 130"
abbreviation (input) CodeImplementationSpecificError :: byte where "CodeImplementationSpecificError \<equiv> 131"
abbreviation (input) CodeUnsupportedProtoVersion :: byte where "CodeUnsupportedProtoVersion \<equiv> 132"
abbreviation (input) CodeClientIDNotValid :: byte where "CodeClientIDNotValid \<equiv> 133"
abbreviation (input) CodeBadUserPass :: byte where "CodeBadUserPass \<equiv> 134"
abbreviation (input) CodeNotAuthorized :: byte where "CodeNotAuthorized \<equiv> 135"
abbreviation (input) CodeServerUnavail :: byte where "CodeServerUnavail \<equiv> 136"
abbreviation (input) CodeServerBusy :: byte where "CodeServerBusy \<equiv> 137"
abbreviation (input) CodeBanned :: byte where "CodeBanned \<equiv> 138"
abbreviation (input) CodeServerShuttingDown :: byte where "CodeServerShuttingDown \<equiv> 139"
abbreviation (input) CodeBadAuthenticationMethod :: byte where "CodeBadAuthenticationMethod \<equiv> 140"
abbreviation (input) CodeKeepaliveTimeout :: byte where "CodeKeepaliveTimeout \<equiv> 141"
abbreviation (input) CodeSessionTakenOver :: byte where "CodeSessionTakenOver \<equiv> 142"
abbreviation (input) CodeTopicFilterInvalid :: byte where "CodeTopicFilterInvalid \<equiv> 143"
abbreviation (input) CodeTopicNameInvalid :: byte where "CodeTopicNameInvalid \<equiv> 144"
abbreviation (input) CodePacketIdentifierInUse :: byte where "CodePacketIdentifierInUse \<equiv> 145"
abbreviation (input) CodePacketIdentifierNotFound :: byte where "CodePacketIdentifierNotFound \<equiv> 146"
abbreviation (input) CodeReceiveMaxExceeded :: byte where "CodeReceiveMaxExceeded \<equiv> 147"
abbreviation (input) CodeTopicAliasInvalid :: byte where "CodeTopicAliasInvalid \<equiv> 148"
abbreviation (input) CodePacketTooLarge :: byte where "CodePacketTooLarge \<equiv> 149"
abbreviation (input) CodeMessageRateTooHigh :: byte where "CodeMessageRateTooHigh \<equiv> 150"
abbreviation (input) CodeQuotaExceeded :: byte where "CodeQuotaExceeded \<equiv> 151"
abbreviation (input) CodeAdministrativeAction :: byte where "CodeAdministrativeAction \<equiv> 152"
abbreviation (input) CodePayloadFormatInvalid :: byte where "CodePayloadFormatInvalid \<equiv> 153"
abbreviation (input) CodeRetainNotSupported :: byte where "CodeRetainNotSupported \<equiv> 154"
abbreviation (input) CodeQosNoSupported :: byte where "CodeQosNoSupported \<equiv> 155"
abbreviation (input) CodeUseAnotherServer :: byte where "CodeUseAnotherServer \<equiv> 156"
abbreviation (input) CodeServerMoved :: byte where "CodeServerMoved \<equiv> 157"
abbreviation (input) CodeSharedSubscriptionNotSupported :: byte where "CodeSharedSubscriptionNotSupported \<equiv> 158"
abbreviation (input) CodeConnectionRateExceeded :: byte where "CodeConnectionRateExceeded \<equiv> 159"
abbreviation (input) CodeMaxConnectTime :: byte where "CodeMaxConnectTime \<equiv> 160"
abbreviation (input) CodeSubscriptionIdentifiersNotSupported :: byte where "CodeSubscriptionIdentifiersNotSupported \<equiv> 161"
abbreviation (input) CodeWildcardSubscriptionNotSupported :: byte where "CodeWildcardSubscriptionNotSupported \<equiv> 162"

text \<open>\<open>BasePacket.Version\<close>: an unset version is MQTT 3.1.1.\<close>

definition base_Version :: "byte \<Rightarrow> byte" where
  "base_Version v = (if v \<noteq> 0 then v else V311)"

text \<open>The version switch of every \<open>WriteTo\<close>.\<close>

definition by_version :: "byte \<Rightarrow> 'w \<Rightarrow> 'w wres \<Rightarrow> 'w wres \<Rightarrow> 'w wres" where
  "by_version v w v311 v5 =
     (if base_Version v = V311 then v311
      else if base_Version v = V5 then v5
      else (w, Some (GoErr ErrUnsupportedVersion)))"

text \<open>The argument \<open>Props.props()\<close> is evaluated before anything is written, and may panic.\<close>

definition with_props :: "bytes res \<Rightarrow> 'w \<Rightarrow> (bytes \<Rightarrow> 'w wres) \<Rightarrow> 'w wres" where
  "with_props r w k = (case r of Inl f \<Rightarrow> (w, Some f) | Inr props \<Rightarrow> k props)"

lemma with_props_simps [simp]:
  "with_props (Inr b) w k = k b" "with_props (Inl f) w k = (w, Some f)"
  by (simp_all add: with_props_def)

lemma by_version_simps [simp]:
  "by_version 0 w a b = a" "by_version 4 w a b = a" "by_version 5 w a b = b"
  by (simp_all add: by_version_def base_Version_def)

definition lift_write :: "'w \<times> goerr option \<Rightarrow> 'w wres" where
  "lift_write r = wbind r (\<lambda>w. (w, None))"

section \<open>Connect\<close>

record conn_packet =
  conn_ProtoVersion :: byte
  conn_ProtoName :: gostring
  conn_CleanSession :: bool
  conn_IsWill :: bool
  conn_WillQos :: byte
  conn_WillRetain :: bool
  conn_WillProps :: "will_props option"
  conn_Props :: "conn_props option"
  conn_Username :: gostring
  conn_Password :: gostring
  conn_ClientID :: gostring
  conn_Keepalive :: u16
  conn_WillTopic :: gostring
  conn_WillMessage :: bytes

definition conn_packet_zero :: conn_packet where
  "conn_packet_zero = \<lparr>conn_ProtoVersion = 0, conn_ProtoName = [], conn_CleanSession = False,
     conn_IsWill = False, conn_WillQos = 0, conn_WillRetain = False, conn_WillProps = None,
     conn_Props = None, conn_Username = [], conn_Password = [], conn_ClientID = [],
     conn_Keepalive = 0, conn_WillTopic = [], conn_WillMessage = []\<rparr>"

definition conn_flags :: "conn_packet \<Rightarrow> byte \<times> conn_packet" where
  "conn_flags c =
     (let c = (if conn_ClientID c = [] then c\<lparr>conn_CleanSession := True\<rparr> else c);
          flag = (0 :: byte);
          flag = (if conn_CleanSession c then flag OR 0x02 else flag);
          flag = (if conn_IsWill c then
                    (let flag = flag OR 0x04; flag = flag OR push_bit 3 (conn_WillQos c)
                     in if conn_WillRetain c then flag OR 0x20 else flag)
                  else flag);
          flag = (if conn_Password c \<noteq> [] then flag OR 0x40 else flag);
          flag = (if conn_Username c \<noteq> [] then flag OR 0x80 else flag)
      in (flag, c))"

definition conn_payload :: "conn_packet \<Rightarrow> bytes res" where
  "conn_payload c =
     (let result = encodeStringWithLen (conn_ClientID c) in
      rbind (if conn_IsWill c then
          rbind (if conn_ProtoVersion c = V5 then
              (case conn_WillProps c of
                 None \<Rightarrow> Inr (result @ [0])
               | Some wp \<Rightarrow>
                   rbind (willProps_props (Some wp)) (\<lambda>willProps.
                     let (buf, _) = writeVarInt (int (length willProps)) bytes_Buffer []
                     in Inr (result @ buf @ willProps)))
            else Inr result) (\<lambda>result.
          Inr (result @ encodeStringWithLen (conn_WillTopic c) @
               encodeBytesWithLen (conn_WillMessage c)))
        else Inr result) (\<lambda>result.
      let result = (if conn_Username c \<noteq> [] then result @ encodeStringWithLen (conn_Username c)
                    else result);
          result = (if conn_Password c \<noteq> [] then result @ encodeStringWithLen (conn_Password c)
                    else result)
      in Inr result))"

definition conn_WriteTo ::
  "'w buffered_writer \<Rightarrow> 'w \<Rightarrow> conn_packet option \<Rightarrow> 'w wres \<times> conn_packet option" where
  "conn_WriteTo W w c = (case c of
       None \<Rightarrow> ((w, Some (GoErr ErrEncodeBadPacket)), None)
     | Some c \<Rightarrow>
         (let first = push_bit 4 CtrlConn;
              (flag, c) = conn_flags c;
              varHeader = [0x0, 0x4, 0x4D, 0x51, 0x54, 0x54, V311, flag,
                ucast (drop_bit 8 (conn_Keepalive c)), ucast (conn_Keepalive c)]
          in (by_version (conn_ProtoVersion c) w
                (with_props (conn_payload c) w (base_write W w first varHeader))
                (with_props (connProps_props (conn_Props c)) w (\<lambda>props.
                 with_props (conn_payload c) w
                   (base_writeV5 W w first (varHeader[6 := V5]) props))),
              Some c)))"

text \<open>
  \<open>ConnProps.clone\<close> starts with \<open>c.mu.RUnlock()\<close> on a mutex nobody locked, which ends the program;
  \<open>clone\<close> of a packet drops \<open>WillProps\<close>. The copies share no memory with the original that is
  written later, so they are values.
\<close>

definition connProps_clone :: "conn_props option \<Rightarrow> conn_props option res" where
  "connProps_clone c = (case c of None \<Rightarrow> Inr None | Some c \<Rightarrow> Inl Panic)"

definition conn_clone :: "conn_packet \<Rightarrow> conn_packet res" where
  "conn_clone c =
     rbind (connProps_clone (conn_Props c)) (\<lambda>props.
       Inr \<lparr>conn_ProtoVersion = conn_ProtoVersion c, conn_ProtoName = conn_ProtoName c,
            conn_CleanSession = conn_CleanSession c, conn_IsWill = conn_IsWill c,
            conn_WillQos = conn_WillQos c, conn_WillRetain = conn_WillRetain c,
            conn_WillProps = None, conn_Props = props,
            conn_Username = conn_Username c, conn_Password = conn_Password c,
            conn_ClientID = conn_ClientID c, conn_Keepalive = conn_Keepalive c,
            conn_WillTopic = conn_WillTopic c, conn_WillMessage = conn_WillMessage c\<rparr>)"

section \<open>Connect acknowledge and disconnect\<close>

record connack_packet =
  connack_ProtoVersion :: byte
  connack_Present :: bool
  connack_Code :: byte
  connack_Props :: "connack_props option"

definition connack_WriteTo ::
  "'w buffered_writer \<Rightarrow> 'w \<Rightarrow> connack_packet option \<Rightarrow> 'w wres" where
  "connack_WriteTo W w c = (case c of
       None \<Rightarrow> (w, Some (GoErr ErrEncodeBadPacket))
     | Some c \<Rightarrow>
         by_version (connack_ProtoVersion c) w
           (lift_write (bw_Write W w
              [push_bit 4 CtrlConnAck, 2, boolToByte (connack_Present c), connack_Code c]))
           (with_props (connAckProps_props (connack_Props c)) w (\<lambda>props.
              base_writeV5 W w (push_bit 4 CtrlConnAck)
                [boolToByte (connack_Present c), connack_Code c] props [])))"

record disconn_packet =
  disconn_ProtoVersion :: byte
  disconn_Code :: byte
  disconn_Props :: "disconn_props option"

definition disconn_WriteTo ::
  "'w buffered_writer \<Rightarrow> 'w \<Rightarrow> disconn_packet option \<Rightarrow> 'w wres" where
  "disconn_WriteTo W w d = (case d of
       None \<Rightarrow> (w, Some (GoErr ErrEncodeBadPacket))
     | Some d \<Rightarrow>
         by_version (disconn_ProtoVersion d) w
           (lift_write (bw_Write W w [push_bit 4 CtrlDisConn, 0]))
           (with_props (disconnProps_props (disconn_Props d)) w (\<lambda>props.
              base_writeV5 W w (push_bit 4 CtrlDisConn) [] props [])))"

section \<open>Publish\<close>

record publish_packet =
  pub_Payload :: bytes
  pub_TopicName :: gostring
  pub_Props :: "publish_props option"
  pub_PacketID :: u16
  pub_ProtoVersion :: byte
  pub_IsDup :: bool
  pub_Qos :: byte
  pub_IsRetain :: bool

definition publish_packet_zero :: publish_packet where
  "publish_packet_zero = \<lparr>pub_Payload = [], pub_TopicName = [], pub_Props = None,
     pub_PacketID = 0, pub_ProtoVersion = 0, pub_IsDup = False, pub_Qos = 0, pub_IsRetain = False\<rparr>"

definition publish_payload :: "publish_packet \<Rightarrow> bytes" where
  "publish_payload p =
     (let data = encodeStringWithLen (pub_TopicName p);
          data = (if pub_Qos p > Qos0
                  then data @ [ucast (drop_bit 8 (pub_PacketID p)), ucast (pub_PacketID p)]
                  else data)
      in data @ pub_Payload p)"

definition publish_first :: "publish_packet \<Rightarrow> byte" where
  "publish_first p = push_bit 4 CtrlPublish OR push_bit 3 (boolToByte (pub_IsDup p)) OR
     boolToByte (pub_IsRetain p) OR push_bit 1 (pub_Qos p)"

definition publish_WriteTo ::
  "'w buffered_writer \<Rightarrow> 'w \<Rightarrow> publish_packet option \<Rightarrow> 'w wres" where
  "publish_WriteTo W w p = (case p of
       None \<Rightarrow> (w, Some (GoErr ErrEncodeBadPacket))
     | Some p \<Rightarrow>
         by_version (pub_ProtoVersion p) w
           (base_write W w (publish_first p) [] (publish_payload p))
           (with_props (publishProps_props (pub_Props p)) w (\<lambda>props.
              base_writeV5 W w (publish_first p) [] props (publish_payload p))))"

section \<open>Publish acknowledgements\<close>

record puback_packet =
  puback_ProtoVersion :: byte
  puback_PacketID :: u16
  puback_Code :: byte
  puback_Props :: "puback_props option"

definition puback_WriteTo ::
  "'w buffered_writer \<Rightarrow> 'w \<Rightarrow> puback_packet option \<Rightarrow> 'w wres" where
  "puback_WriteTo W w p = (case p of
       None \<Rightarrow> (w, Some (GoErr ErrEncodeBadPacket))
     | Some p \<Rightarrow>
         (let varHeader = [ucast (drop_bit 8 (puback_PacketID p)), ucast (puback_PacketID p)] in
          by_version (puback_ProtoVersion p) w
            (base_write W w (push_bit 4 CtrlPubAck) varHeader [])
            (with_props (pubAckProps_props (puback_Props p)) w (\<lambda>props.
               base_writeV5 W w (push_bit 4 CtrlPubAck) varHeader props []))))"

record pubrecv_packet =
  pubrecv_ProtoVersion :: byte
  pubrecv_PacketID :: u16
  pubrecv_Code :: byte
  pubrecv_Props :: "pubrecv_props option"

definition pubrecv_WriteTo ::
  "'w buffered_writer \<Rightarrow> 'w \<Rightarrow> pubrecv_packet option \<Rightarrow> 'w wres" where
  "pubrecv_WriteTo W w p = (case p of
       None \<Rightarrow> (w, Some (GoErr ErrEncodeBadPacket))
     | Some p \<Rightarrow>
         (let varHeader = [ucast (drop_bit 8 (pubrecv_PacketID p)), ucast (pubrecv_PacketID p)] in
          by_version (pubrecv_ProtoVersion p) w
            (base_write W w (push_bit 4 CtrlPubRecv) varHeader [])
            (with_props (pubRecvProps_props (pubrecv_Props p)) w (\<lambda>props.
               base_writeV5 W w (push_bit 4 CtrlPubRecv) varHeader props []))))"

record pubrel_packet =
  pubrel_ProtoVersion :: byte
  pubrel_PacketID :: u16
  pubrel_Code :: byte
  pubrel_Props :: "pubrel_props option"

definition pubrel_WriteTo ::
  "'w buffered_writer \<Rightarrow> 'w \<Rightarrow> pubrel_packet option \<Rightarrow> 'w wres" where
  "pubrel_WriteTo W w p = (case p of
       None \<Rightarrow> (w, Some (GoErr ErrEncodeBadPacket))
     | Some p \<Rightarrow>
         (let varHeader = [ucast (drop_bit 8 (pubrel_PacketID p)), ucast (pubrel_PacketID p)] in
          by_version (pubrel_ProtoVersion p) w
            (base_write W w (push_bit 4 CtrlPubRel OR 0x02) varHeader [])
            (with_props (pubRelProps_props (pubrel_Props p)) w (\<lambda>props.
               base_writeV5 W w (push_bit 4 CtrlPubRel OR 0x02) varHeader props []))))"

record pubcomp_packet =
  pubcomp_ProtoVersion :: byte
  pubcomp_PacketID :: u16
  pubcomp_Code :: byte
  pubcomp_Props :: "pubcomp_props option"

definition pubcomp_WriteTo ::
  "'w buffered_writer \<Rightarrow> 'w \<Rightarrow> pubcomp_packet option \<Rightarrow> 'w wres" where
  "pubcomp_WriteTo W w p = (case p of
       None \<Rightarrow> (w, Some (GoErr ErrEncodeBadPacket))
     | Some p \<Rightarrow>
         (let varHeader = [ucast (drop_bit 8 (pubcomp_PacketID p)), ucast (pubcomp_PacketID p)] in
          by_version (pubcomp_ProtoVersion p) w
            (base_write W w (push_bit 4 CtrlPubComp) varHeader [])
            (with_props (pubCompProps_props (pubcomp_Props p)) w (\<lambda>props.
               base_writeV5 W w (push_bit 4 CtrlPubComp) varHeader props []))))"

section \<open>Subscribe and unsubscribe\<close>

record topic =
  topic_Name :: gostring
  topic_Qos :: byte

record subscribe_packet =
  sub_ProtoVersion :: byte
  sub_PacketID :: u16
  sub_Topics :: "topic list"
  sub_Props :: "subscribe_props option"

definition subscribe_payload :: "subscribe_packet \<Rightarrow> bytes" where
  "subscribe_payload s = concat (map (\<lambda>t. encodeStringWithLen (topic_Name t) @ [topic_Qos t]) (sub_Topics s))"

definition subscribe_WriteTo ::
  "'w buffered_writer \<Rightarrow> 'w \<Rightarrow> subscribe_packet option \<Rightarrow> 'w wres" where
  "subscribe_WriteTo W w s = (case s of
       None \<Rightarrow> (w, Some (GoErr ErrEncodeBadPacket))
     | Some s \<Rightarrow>
         (let varHeader = [ucast (drop_bit 8 (sub_PacketID s)), ucast (sub_PacketID s)] in
          by_version (sub_ProtoVersion s) w
            (base_write W w (push_bit 4 CtrlSubscribe OR 0x02) varHeader (subscribe_payload s))
            (with_props (subscribeProps_props (sub_Props s)) w (\<lambda>props.
               base_writeV5 W w (push_bit 4 CtrlSubscribe OR 0x02) varHeader props (subscribe_payload s)))))"

record suback_packet =
  suback_ProtoVersion :: byte
  suback_PacketID :: u16
  suback_Codes :: bytes
  suback_Props :: "suback_props option"

definition suback_payload :: "suback_packet \<Rightarrow> bytes" where
  "suback_payload s = suback_Codes s"

definition suback_WriteTo ::
  "'w buffered_writer \<Rightarrow> 'w \<Rightarrow> suback_packet option \<Rightarrow> 'w wres" where
  "suback_WriteTo W w s = (case s of
       None \<Rightarrow> (w, Some (GoErr ErrEncodeBadPacket))
     | Some s \<Rightarrow>
         (let varHeader = [ucast (drop_bit 8 (suback_PacketID s)), ucast (suback_PacketID s)] in
          by_version (suback_ProtoVersion s) w
            (base_write W w (push_bit 4 CtrlSubAck) varHeader (suback_payload s))
            (with_props (subAckProps_props (suback_Props s)) w (\<lambda>props.
               base_writeV5 W w (push_bit 4 CtrlSubAck) varHeader props (suback_payload s)))))"

record unsub_packet =
  unsub_ProtoVersion :: byte
  unsub_PacketID :: u16
  unsub_TopicNames :: "gostring list"
  unsub_Props :: "unsub_props option"

definition unsub_payload :: "unsub_packet \<Rightarrow> bytes" where
  "unsub_payload s = concat (map encodeStringWithLen (unsub_TopicNames s))"

definition unsub_WriteTo ::
  "'w buffered_writer \<Rightarrow> 'w \<Rightarrow> unsub_packet option \<Rightarrow> 'w wres" where
  "unsub_WriteTo W w s = (case s of
       None \<Rightarrow> (w, Some (GoErr ErrEncodeBadPacket))
     | Some s \<Rightarrow>
         (let varHeader = [ucast (drop_bit 8 (unsub_PacketID s)), ucast (unsub_PacketID s)] in
          by_version (unsub_ProtoVersion s) w
            (base_write W w (push_bit 4 CtrlUnSub OR 0x02) varHeader (unsub_payload s))
            (with_props (unsubProps_props (unsub_Props s)) w (\<lambda>props.
               base_writeV5 W w (push_bit 4 CtrlUnSub OR 0x02) varHeader props (unsub_payload s)))))"

record unsuback_packet =
  unsuback_ProtoVersion :: byte
  unsuback_PacketID :: u16
  unsuback_Props :: "unsuback_props option"

definition unsuback_WriteTo ::
  "'w buffered_writer \<Rightarrow> 'w \<Rightarrow> unsuback_packet option \<Rightarrow> 'w wres" where
  "unsuback_WriteTo W w s = (case s of
       None \<Rightarrow> (w, Some (GoErr ErrEncodeBadPacket))
     | Some s \<Rightarrow>
         (let varHeader = [ucast (drop_bit 8 (unsuback_PacketID s)), ucast (unsuback_PacketID s)] in
          by_version (unsuback_ProtoVersion s) w
            (base_write W w (push_bit 4 CtrlUnSubAck) varHeader [])
            (with_props (unsubAckProps_props (unsuback_Props s)) w (\<lambda>props.
               base_writeV5 W w (push_bit 4 CtrlUnSubAck) varHeader props []))))"

section \<open>Ping and auth\<close>

text \<open>
  The two ping structures hold only a version. \<open>_ = w.WriteByte(...)\<close> drops the first error.
\<close>

definition ping_write :: "byte \<Rightarrow> 'w buffered_writer \<Rightarrow> 'w \<Rightarrow> byte option \<Rightarrow> 'w wres" where
  "ping_write ctrl W w p = (case p of
       None \<Rightarrow> (w, Some (GoErr ErrEncodeBadPacket))
     | Some v \<Rightarrow>
         (let go = (let (w1, _) = bw_WriteByte W w (push_bit 4 ctrl)
                    in lift_write (bw_WriteByte W w1 0))
          in by_version v w go go))"

definition pingreq_WriteTo :: "'w buffered_writer \<Rightarrow> 'w \<Rightarrow> byte option \<Rightarrow> 'w wres" where
  "pingreq_WriteTo = ping_write CtrlPingReq"

definition pingresp_WriteTo :: "'w buffered_writer \<Rightarrow> 'w \<Rightarrow> byte option \<Rightarrow> 'w wres" where
  "pingresp_WriteTo = ping_write CtrlPingResp"

record auth_packet =
  auth_ProtoVersion :: byte
  auth_Code :: byte
  auth_Props :: "auth_props option"

definition auth_WriteTo ::
  "'w buffered_writer \<Rightarrow> 'w \<Rightarrow> auth_packet option \<Rightarrow> 'w wres" where
  "auth_WriteTo W w a = (case a of
       None \<Rightarrow> (w, Some (GoErr ErrEncodeBadPacket))
     | Some a \<Rightarrow>
         with_props (authProps_props (auth_Props a)) w (\<lambda>props.
           base_writeV5 W w (push_bit 4 CtrlAuth) [auth_Code a] props []))"

section \<open>The Packet interface\<close>

datatype packet =
    ConnPkt conn_packet
  | ConnAckPkt connack_packet
  | PublishPkt publish_packet
  | PubAckPkt puback_packet
  | PubRecvPkt pubrecv_packet
  | PubRelPkt pubrel_packet
  | PubCompPkt pubcomp_packet
  | SubscribePkt subscribe_packet
  | SubAckPkt suback_packet
  | UnsubPkt unsub_packet
  | UnsubAckPkt unsuback_packet
  | PingReqPkt byte
  | PingRespPkt byte
  | DisconnPkt disconn_packet
  | AuthPkt auth_packet

fun packet_Type :: "packet \<Rightarrow> byte" where
  "packet_Type (ConnPkt _) = CtrlConn"
| "packet_Type (ConnAckPkt _) = CtrlConnAck"
| "packet_Type (PublishPkt _) = CtrlPublish"
| "packet_Type (PubAckPkt _) = CtrlPubAck"
| "packet_Type (PubRecvPkt _) = CtrlPubRecv"
| "packet_Type (PubRelPkt _) = CtrlPubRel"
| "packet_Type (PubCompPkt _) = CtrlPubComp"
| "packet_Type (SubscribePkt _) = CtrlSubscribe"
| "packet_Type (SubAckPkt _) = CtrlSubAck"
| "packet_Type (UnsubPkt _) = CtrlUnSub"
| "packet_Type (UnsubAckPkt _) = CtrlUnSubAck"
| "packet_Type (PingReqPkt _) = CtrlPingReq"
| "packet_Type (PingRespPkt _) = CtrlPingResp"
| "packet_Type (DisconnPkt _) = CtrlDisConn"
| "packet_Type (AuthPkt _) = CtrlAuth"

fun packet_proto :: "packet \<Rightarrow> byte" where
  "packet_proto (ConnPkt p) = conn_ProtoVersion p"
| "packet_proto (ConnAckPkt p) = connack_ProtoVersion p"
| "packet_proto (PublishPkt p) = pub_ProtoVersion p"
| "packet_proto (PubAckPkt p) = puback_ProtoVersion p"
| "packet_proto (PubRecvPkt p) = pubrecv_ProtoVersion p"
| "packet_proto (PubRelPkt p) = pubrel_ProtoVersion p"
| "packet_proto (PubCompPkt p) = pubcomp_ProtoVersion p"
| "packet_proto (SubscribePkt p) = sub_ProtoVersion p"
| "packet_proto (SubAckPkt p) = suback_ProtoVersion p"
| "packet_proto (UnsubPkt p) = unsub_ProtoVersion p"
| "packet_proto (UnsubAckPkt p) = unsuback_ProtoVersion p"
| "packet_proto (PingReqPkt v) = v"
| "packet_proto (PingRespPkt v) = v"
| "packet_proto (DisconnPkt p) = disconn_ProtoVersion p"
| "packet_proto (AuthPkt p) = auth_ProtoVersion p"

definition packet_Version :: "packet \<Rightarrow> byte" where
  "packet_Version p = base_Version (packet_proto p)"

fun packet_SetVersion :: "packet \<Rightarrow> byte \<Rightarrow> packet" where
  "packet_SetVersion (ConnPkt p) v = ConnPkt (p\<lparr>conn_ProtoVersion := v\<rparr>)"
| "packet_SetVersion (ConnAckPkt p) v = ConnAckPkt (p\<lparr>connack_ProtoVersion := v\<rparr>)"
| "packet_SetVersion (PublishPkt p) v = PublishPkt (p\<lparr>pub_ProtoVersion := v\<rparr>)"
| "packet_SetVersion (PubAckPkt p) v = PubAckPkt (p\<lparr>puback_ProtoVersion := v\<rparr>)"
| "packet_SetVersion (PubRecvPkt p) v = PubRecvPkt (p\<lparr>pubrecv_ProtoVersion := v\<rparr>)"
| "packet_SetVersion (PubRelPkt p) v = PubRelPkt (p\<lparr>pubrel_ProtoVersion := v\<rparr>)"
| "packet_SetVersion (PubCompPkt p) v = PubCompPkt (p\<lparr>pubcomp_ProtoVersion := v\<rparr>)"
| "packet_SetVersion (SubscribePkt p) v = SubscribePkt (p\<lparr>sub_ProtoVersion := v\<rparr>)"
| "packet_SetVersion (SubAckPkt p) v = SubAckPkt (p\<lparr>suback_ProtoVersion := v\<rparr>)"
| "packet_SetVersion (UnsubPkt p) v = UnsubPkt (p\<lparr>unsub_ProtoVersion := v\<rparr>)"
| "packet_SetVersion (UnsubAckPkt p) v = UnsubAckPkt (p\<lparr>unsuback_ProtoVersion := v\<rparr>)"
| "packet_SetVersion (PingReqPkt _) v = PingReqPkt v"
| "packet_SetVersion (PingRespPkt _) v = PingRespPkt v"
| "packet_SetVersion (DisconnPkt p) v = DisconnPkt (p\<lparr>disconn_ProtoVersion := v\<rparr>)"
| "packet_SetVersion (AuthPkt p) v = AuthPkt (p\<lparr>auth_ProtoVersion := v\<rparr>)"

fun packet_WriteTo :: "'w buffered_writer \<Rightarrow> 'w \<Rightarrow> packet \<Rightarrow> 'w wres \<times> packet" where
  "packet_WriteTo W w (ConnPkt p) =
     (case conn_WriteTo W w (Some p) of (r, p') \<Rightarrow> (r, case p' of None \<Rightarrow> ConnPkt p | Some q \<Rightarrow> ConnPkt q))"
| "packet_WriteTo W w (ConnAckPkt p) = (connack_WriteTo W w (Some p), ConnAckPkt p)"
| "packet_WriteTo W w (PublishPkt p) = (publish_WriteTo W w (Some p), PublishPkt p)"
| "packet_WriteTo W w (PubAckPkt p) = (puback_WriteTo W w (Some p), PubAckPkt p)"
| "packet_WriteTo W w (PubRecvPkt p) = (pubrecv_WriteTo W w (Some p), PubRecvPkt p)"
| "packet_WriteTo W w (PubRelPkt p) = (pubrel_WriteTo W w (Some p), PubRelPkt p)"
| "packet_WriteTo W w (PubCompPkt p) = (pubcomp_WriteTo W w (Some p), PubCompPkt p)"
| "packet_WriteTo W w (SubscribePkt p) = (subscribe_WriteTo W w (Some p), SubscribePkt p)"
| "packet_WriteTo W w (SubAckPkt p) = (suback_WriteTo W w (Some p), SubAckPkt p)"
| "packet_WriteTo W w (UnsubPkt p) = (unsub_WriteTo W w (Some p), UnsubPkt p)"
| "packet_WriteTo W w (UnsubAckPkt p) = (unsuback_WriteTo W w (Some p), UnsubAckPkt p)"
| "packet_WriteTo W w (PingReqPkt v) = (pingreq_WriteTo W w (Some v), PingReqPkt v)"
| "packet_WriteTo W w (PingRespPkt v) = (pingresp_WriteTo W w (Some v), PingRespPkt v)"
| "packet_WriteTo W w (DisconnPkt p) = (disconn_WriteTo W w (Some p), DisconnPkt p)"
| "packet_WriteTo W w (AuthPkt p) = (auth_WriteTo W w (Some p), AuthPkt p)"

text \<open>\<open>Encode\<close> and \<open>Bytes\<close>. \<open>Bytes\<close> drops the error of \<open>WriteTo\<close>; a panic passes through.\<close>

definition Encode :: "'w buffered_writer \<Rightarrow> 'w \<Rightarrow> packet \<Rightarrow> 'w wres \<times> packet" where
  "Encode W w p = packet_WriteTo W w p"

definition packet_Bytes :: "packet \<Rightarrow> bytes res" where
  "packet_Bytes p =
     (case packet_WriteTo bytes_Buffer [] p of
        ((w, Some Panic), _) \<Rightarrow> Inl Panic
      | ((w, Some Hang), _) \<Rightarrow> Inl Hang
      | ((w, _), _) \<Rightarrow> Inr w)"

end
