(* ===== verification/Decoder.thy ===== *)
theory Decoder
  imports Packets
begin

text \<open>
  \<open>src/decoder.go\<close>: \<open>Decode\<close> reads one packet from a buffered reader, and \<open>decodeV311Packet\<close> and
  \<open>decodeV5Packet\<close> parse its body, one definition per branch of their switches.

  A reader is the list of bytes it will still deliver before it reports the end of the stream.
  Every index and reslice of the code is bounds-checked in the model (\<open>Panic\<close>), unless a test just
  before it gives the bound. The last section proves that no input makes \<open>Decode\<close> panic or loop.
\<close>

unbundle bit_operations_syntax

section \<open>Parts shared by the two versions\<close>

definition bad :: "'a res" where
  "bad = Inl (GoErr ErrDecodeBadPacket)"

lemma safe_bad [simp]: "safe bad"
  by (simp add: bad_def)

text \<open>\<open>body[n:]\<close>.\<close>

definition slice_from :: "bytes \<Rightarrow> nat \<Rightarrow> bytes res" where
  "slice_from body n = go_slice body n (length body)"

lemma slice_from_eq: "slice_from body n = (if n \<le> length body then Inr (drop n body) else Inl Panic)"
  by (simp add: slice_from_def go_slice_def)

text \<open>The will, user name and password at the end of a connect packet.\<close>

definition decode_will :: "conn_packet \<Rightarrow> bytes \<Rightarrow> (conn_packet \<times> bytes) res" where
  "decode_will pkt body =
     (if conn_IsWill pkt then
        rbind (getStringData body) (\<lambda>(topic, body).
        rbind (getBinaryData body) (\<lambda>(msg, body).
        Inr (pkt\<lparr>conn_WillTopic := topic, conn_WillMessage := msg\<rparr>, body)))
      else Inr (pkt, body))"

definition decode_credentials :: "bool \<Rightarrow> bool \<Rightarrow> conn_packet \<Rightarrow> bytes \<Rightarrow> conn_packet res" where
  "decode_credentials hasUsername hasPassword pkt body =
     rbind (if hasUsername then
              rbind (getStringData body) (\<lambda>(name, body). Inr (pkt\<lparr>conn_Username := name\<rparr>, body))
            else Inr (pkt, body)) (\<lambda>(pkt, body).
     if hasPassword then
       rbind (getStringData body) (\<lambda>(word, _). Inr (pkt\<lparr>conn_Password := word\<rparr>))
     else Inr pkt)"

text \<open>The packet's flags as both versions read them, from the byte after the protocol level.\<close>

definition conn_of_flags :: "gostring \<Rightarrow> byte \<Rightarrow> u16 \<Rightarrow> conn_packet" where
  "conn_of_flags protocol flag keepalive = conn_packet_zero
     \<lparr>conn_ProtoName := protocol,
      conn_CleanSession := flag AND 0x02 = 0x02,
      conn_IsWill := flag AND 0x04 = 0x04,
      conn_WillQos := drop_bit 3 (flag AND 0x18),
      conn_WillRetain := flag AND 0x20 = 0x20,
      conn_Keepalive := keepalive\<rparr>"

text \<open>The loops over the topics of subscribe and unsubscribe packets.\<close>

function topics_loop :: "bytes \<Rightarrow> topic list res" where
  "topics_loop body =
     (if length body > 0 then
        rbind (getStringData body) (\<lambda>(name, body).
          if length body < 1 then bad
          else rbind (topics_loop (drop 1 body)) (\<lambda>ts.
                 Inr (\<lparr>topic_Name = name, topic_Qos = body ! 0\<rparr> # ts)))
      else Inr [])"
  by pat_completeness auto
termination
  by (relation "measure length") (auto dest!: getBinaryData_length)

function names_loop :: "bytes \<Rightarrow> gostring list res" where
  "names_loop body =
     (if length body > 0 then
        rbind (getStringData body) (\<lambda>(name, body).
          rbind (names_loop body) (\<lambda>ns. Inr (name # ns)))
      else Inr [])"
  by pat_completeness auto
termination
  by (relation "measure length") (auto dest!: getBinaryData_length)

declare topics_loop.simps [simp del] names_loop.simps [simp del]

section \<open>MQTT 3.1.1\<close>

definition decodeV311_conn :: "bytes \<Rightarrow> packet res" where
  "decodeV311_conn body =
     rbind (getStringData body) (\<lambda>(protocol, body).
     if length body < 4 then bad
     else if body ! 0 \<noteq> V311 then Inl (GoErr ErrDecodeNoneV311Packet)
     else
       rbind (go_slice body 2 4) (\<lambda>k. rbind (getUint16 k) (\<lambda>keepalive.
       let hasUsername = (body ! 1 AND 0x80 = 0x80);
           hasPassword = (body ! 1 AND 0x40 = 0x40);
           pkt = (conn_of_flags protocol (body ! 1) keepalive)\<lparr>conn_ProtoVersion := body ! 0\<rparr> in
       rbind (getStringData (drop 4 body)) (\<lambda>(clientID, body).
       rbind (decode_will (pkt\<lparr>conn_ClientID := clientID\<rparr>) body) (\<lambda>(pkt, body).
       rbind (decode_credentials hasUsername hasPassword pkt body) (\<lambda>pkt.
       Inr (ConnPkt pkt)))))))"

definition decodeV311_connack :: "bytes \<Rightarrow> packet res" where
  "decodeV311_connack body =
     rbind (go_index body 0) (\<lambda>b0. rbind (go_index body 1) (\<lambda>b1.
     Inr (ConnAckPkt \<lparr>connack_ProtoVersion = 0, connack_Present = (b0 AND 0x01 = 0x01),
                      connack_Code = b1, connack_Props = None\<rparr>)))"

definition decodeV311_publish :: "byte \<Rightarrow> bytes \<Rightarrow> packet res" where
  "decodeV311_publish header body =
     rbind (getStringData body) (\<lambda>(topicName, body).
     let pub = publish_packet_zero
       \<lparr>pub_IsDup := header AND 0x08 = 0x08, pub_Qos := drop_bit 1 (header AND 0x06),
        pub_IsRetain := header AND 0x01 = 1, pub_TopicName := topicName\<rparr> in
     rbind (if pub_Qos pub > Qos0 then
              if length body < 2 then bad
              else rbind (getUint16 body) (\<lambda>pid. Inr (pub\<lparr>pub_PacketID := pid\<rparr>, drop 2 body))
            else Inr (pub, body)) (\<lambda>(pub, body).
     Inr (PublishPkt (pub\<lparr>pub_Payload := body\<rparr>))))"

definition decodeV311_subscribe :: "bytes \<Rightarrow> packet res" where
  "decodeV311_subscribe body =
     rbind (getUint16 body) (\<lambda>pid. rbind (slice_from body 2) (\<lambda>body.
     rbind (topics_loop body) (\<lambda>topics.
     Inr (SubscribePkt \<lparr>sub_ProtoVersion = 0, sub_PacketID = pid, sub_Topics = topics,
                        sub_Props = None\<rparr>))))"

definition decodeV311_suback :: "bytes \<Rightarrow> packet res" where
  "decodeV311_suback body =
     rbind (getUint16 body) (\<lambda>pid. rbind (slice_from body 2) (\<lambda>body.
     Inr (SubAckPkt \<lparr>suback_ProtoVersion = 0, suback_PacketID = pid, suback_Codes = body,
                     suback_Props = None\<rparr>)))"

definition decodeV311_unsub :: "bytes \<Rightarrow> packet res" where
  "decodeV311_unsub body =
     rbind (getUint16 body) (\<lambda>pid. rbind (slice_from body 2) (\<lambda>body.
     rbind (names_loop body) (\<lambda>names.
     Inr (UnsubPkt \<lparr>unsub_ProtoVersion = 0, unsub_PacketID = pid, unsub_TopicNames = names,
                    unsub_Props = None\<rparr>))))"

definition decodeV311Packet :: "byte \<Rightarrow> bytes \<Rightarrow> packet res" where
  "decodeV311Packet header body =
     (let t = drop_bit 4 header in
      if t = CtrlConn then decodeV311_conn body
      else if t = CtrlConnAck then decodeV311_connack body
      else if t = CtrlPublish then decodeV311_publish header body
      else if t = CtrlPubAck then rbind (getUint16 body) (\<lambda>pid. Inr (PubAckPkt
        \<lparr>puback_ProtoVersion = 0, puback_PacketID = pid, puback_Code = 0, puback_Props = None\<rparr>))
      else if t = CtrlPubRecv then rbind (getUint16 body) (\<lambda>pid. Inr (PubRecvPkt
        \<lparr>pubrecv_ProtoVersion = 0, pubrecv_PacketID = pid, pubrecv_Code = 0, pubrecv_Props = None\<rparr>))
      else if t = CtrlPubRel then rbind (getUint16 body) (\<lambda>pid. Inr (PubRelPkt
        \<lparr>pubrel_ProtoVersion = 0, pubrel_PacketID = pid, pubrel_Code = 0, pubrel_Props = None\<rparr>))
      else if t = CtrlPubComp then rbind (getUint16 body) (\<lambda>pid. Inr (PubCompPkt
        \<lparr>pubcomp_ProtoVersion = 0, pubcomp_PacketID = pid, pubcomp_Code = 0, pubcomp_Props = None\<rparr>))
      else if t = CtrlSubscribe then decodeV311_subscribe body
      else if t = CtrlSubAck then decodeV311_suback body
      else if t = CtrlUnSub then decodeV311_unsub body
      else if t = CtrlUnSubAck then rbind (getUint16 body) (\<lambda>pid. Inr (UnsubAckPkt
        \<lparr>unsuback_ProtoVersion = 0, unsuback_PacketID = pid, unsuback_Props = None\<rparr>))
      else bad)"

section \<open>MQTT 5\<close>

definition decodeV5_conn :: "bytes \<Rightarrow> packet res" where
  "decodeV5_conn body =
     rbind (getStringData body) (\<lambda>(protocol, next).
     if length next < 5 then bad
     else if next ! 0 \<noteq> V5 then Inl (GoErr ErrDecodeNoneV5Packet)
     else
       rbind (go_slice next 2 4) (\<lambda>k. rbind (getUint16 k) (\<lambda>keepalive.
       let hasUsername = (next ! 1 AND 0x80 = 0x80);
           hasPassword = (next ! 1 AND 0x40 = 0x40) in
       rbind (go_index body 0) (\<lambda>b0.
       let pkt = (conn_of_flags protocol (next ! 1) keepalive)\<lparr>conn_ProtoVersion := b0\<rparr> in
       rbind (getRawProps (drop 4 next)) (\<lambda>(props, next).
       rbind (connProps_setProps (Some conn_props_zero) props) (\<lambda>cprops.
       rbind (getStringData next) (\<lambda>(clientID, next).
       rbind (decode_will (pkt\<lparr>conn_Props := cprops, conn_ClientID := clientID\<rparr>) next) (\<lambda>(pkt, next).
       rbind (decode_credentials hasUsername hasPassword pkt next) (\<lambda>pkt.
       Inr (ConnPkt (pkt\<lparr>conn_ProtoVersion := V5\<rparr>)))))))))))"

definition decodeV5_connack :: "bytes \<Rightarrow> packet res" where
  "decodeV5_connack body =
     rbind (go_index body 0) (\<lambda>b0. rbind (go_index body 1) (\<lambda>b1.
     rbind (slice_from body 2) (\<lambda>tail. rbind (getRawProps tail) (\<lambda>(props, _).
     rbind (connAckProps_setProps (Some connack_props_zero) props) (\<lambda>cprops.
     Inr (ConnAckPkt \<lparr>connack_ProtoVersion = V5, connack_Present = (b0 AND 0x01 = 0x01),
                      connack_Code = b1, connack_Props = cprops\<rparr>))))))"

definition decodeV5_publish :: "byte \<Rightarrow> bytes \<Rightarrow> packet res" where
  "decodeV5_publish header body =
     rbind (getStringData body) (\<lambda>(topicName, body).
     let pub = publish_packet_zero
       \<lparr>pub_IsDup := header AND 0x08 = 0x08, pub_Qos := drop_bit 1 (header AND 0x06),
        pub_IsRetain := header AND 0x01 = 1, pub_TopicName := topicName\<rparr> in
     rbind (if pub_Qos pub > Qos0 then
              if length body < 2 then bad
              else rbind (getUint16 body) (\<lambda>pid. Inr (pub\<lparr>pub_PacketID := pid\<rparr>, drop 2 body))
            else Inr (pub, body)) (\<lambda>(pub, body).
     rbind (getRawProps body) (\<lambda>(props, body).
     rbind (publishProps_setProps (Some publish_props_zero) props) (\<lambda>pprops.
     Inr (PublishPkt (pub\<lparr>pub_Props := pprops, pub_Payload := body, pub_ProtoVersion := V5\<rparr>))))))"

text \<open>The four publish acknowledgements have the same layout: identifier, code, properties.\<close>

definition decodeV5_ack ::
  "(reason_props option \<Rightarrow> raw_props \<Rightarrow> reason_props option res) \<Rightarrow>
   (u16 \<Rightarrow> byte \<Rightarrow> reason_props option \<Rightarrow> packet) \<Rightarrow> bytes \<Rightarrow> packet res" where
  "decodeV5_ack setProps mk body =
     (if length body < 3 then bad
      else rbind (getUint16 body) (\<lambda>pid.
           rbind (getRawProps (drop 3 body)) (\<lambda>(props, _).
           rbind (setProps (Some reason_props_zero) props) (\<lambda>ps.
           Inr (mk pid (body ! 2) ps)))))"

definition decodeV5_puback :: "bytes \<Rightarrow> packet res" where
  [simp]: "decodeV5_puback body = decodeV5_ack pubAckProps_setProps (\<lambda>pid code ps. PubAckPkt
     \<lparr>puback_ProtoVersion = V5, puback_PacketID = pid, puback_Code = code, puback_Props = ps\<rparr>) body"

definition decodeV5_pubrecv :: "bytes \<Rightarrow> packet res" where
  [simp]: "decodeV5_pubrecv body = decodeV5_ack pubRecvProps_setProps (\<lambda>pid code ps. PubRecvPkt
     \<lparr>pubrecv_ProtoVersion = V5, pubrecv_PacketID = pid, pubrecv_Code = code, pubrecv_Props = ps\<rparr>) body"

definition decodeV5_pubrel :: "bytes \<Rightarrow> packet res" where
  [simp]: "decodeV5_pubrel body = decodeV5_ack pubRelProps_setProps (\<lambda>pid code ps. PubRelPkt
     \<lparr>pubrel_ProtoVersion = V5, pubrel_PacketID = pid, pubrel_Code = code, pubrel_Props = ps\<rparr>) body"

definition decodeV5_pubcomp :: "bytes \<Rightarrow> packet res" where
  [simp]: "decodeV5_pubcomp body = decodeV5_ack pubCompProps_setProps (\<lambda>pid code ps. PubCompPkt
     \<lparr>pubcomp_ProtoVersion = V5, pubcomp_PacketID = pid, pubcomp_Code = code, pubcomp_Props = ps\<rparr>) body"

definition decodeV5_subscribe :: "bytes \<Rightarrow> packet res" where
  "decodeV5_subscribe body =
     rbind (getUint16 body) (\<lambda>pid. rbind (slice_from body 2) (\<lambda>tail.
     rbind (getRawProps tail) (\<lambda>(props, next).
     rbind (subscribeProps_setProps (Some subscribe_props_zero) props) (\<lambda>ps.
     rbind (topics_loop next) (\<lambda>topics.
     Inr (SubscribePkt \<lparr>sub_ProtoVersion = V5, sub_PacketID = pid, sub_Topics = topics,
                        sub_Props = ps\<rparr>))))))"

definition decodeV5_suback :: "bytes \<Rightarrow> packet res" where
  "decodeV5_suback body =
     rbind (getUint16 body) (\<lambda>pid. rbind (slice_from body 2) (\<lambda>tail.
     rbind (getRawProps tail) (\<lambda>(props, next).
     rbind (subAckProps_setProps (Some reason_props_zero) props) (\<lambda>ps.
     Inr (SubAckPkt \<lparr>suback_ProtoVersion = V5, suback_PacketID = pid, suback_Codes = next,
                     suback_Props = ps\<rparr>)))))"

definition decodeV5_unsub :: "bytes \<Rightarrow> packet res" where
  "decodeV5_unsub body =
     rbind (getUint16 body) (\<lambda>pid. rbind (slice_from body 2) (\<lambda>tail.
     rbind (getRawProps tail) (\<lambda>(props, next).
     rbind (unsubProps_setProps (Some unsub_props_zero) props) (\<lambda>ps.
     rbind (names_loop next) (\<lambda>names.
     Inr (UnsubPkt \<lparr>unsub_ProtoVersion = V5, unsub_PacketID = pid, unsub_TopicNames = names,
                    unsub_Props = ps\<rparr>))))))"

definition decodeV5_unsuback :: "bytes \<Rightarrow> packet res" where
  "decodeV5_unsuback body =
     rbind (getUint16 body) (\<lambda>pid. rbind (slice_from body 2) (\<lambda>tail.
     rbind (getRawProps tail) (\<lambda>(props, _).
     rbind (unsubAckProps_setProps (Some reason_props_zero) props) (\<lambda>ps.
     Inr (UnsubAckPkt \<lparr>unsuback_ProtoVersion = V5, unsuback_PacketID = pid,
                       unsuback_Props = ps\<rparr>)))))"

definition decodeV5_disconn :: "bytes \<Rightarrow> packet res" where
  "decodeV5_disconn body =
     rbind (go_index body 0) (\<lambda>code. rbind (slice_from body 1) (\<lambda>tail.
     rbind (getRawProps tail) (\<lambda>(props, _).
     rbind (disconnProps_setProps (Some disconn_props_zero) props) (\<lambda>ps.
     Inr (DisconnPkt \<lparr>disconn_ProtoVersion = V5, disconn_Code = code, disconn_Props = ps\<rparr>)))))"

definition decodeV5_auth :: "bytes \<Rightarrow> packet res" where
  "decodeV5_auth body =
     rbind (go_index body 0) (\<lambda>code. rbind (slice_from body 1) (\<lambda>tail.
     rbind (getRawProps tail) (\<lambda>(props, _).
     rbind (authProps_setProps (Some auth_props_zero) props) (\<lambda>ps.
     Inr (AuthPkt \<lparr>auth_ProtoVersion = V5, auth_Code = code, auth_Props = ps\<rparr>)))))"

definition decodeV5Packet :: "byte \<Rightarrow> bytes \<Rightarrow> packet res" where
  "decodeV5Packet header body =
     (let t = drop_bit 4 header in
      if t = CtrlConn then decodeV5_conn body
      else if t = CtrlConnAck then decodeV5_connack body
      else if t = CtrlPublish then decodeV5_publish header body
      else if t = CtrlPubAck then decodeV5_puback body
      else if t = CtrlPubRecv then decodeV5_pubrecv body
      else if t = CtrlPubRel then decodeV5_pubrel body
      else if t = CtrlPubComp then decodeV5_pubcomp body
      else if t = CtrlSubscribe then decodeV5_subscribe body
      else if t = CtrlSubAck then decodeV5_suback body
      else if t = CtrlUnSub then decodeV5_unsub body
      else if t = CtrlUnSubAck then decodeV5_unsuback body
      else if t = CtrlDisConn then decodeV5_disconn body
      else if t = CtrlAuth then decodeV5_auth body
      else bad)"

section \<open>Decode\<close>

text \<open>
  \<open>PingReqPacket\<close> and \<open>PingRespPacket\<close> are package variables that \<open>Decode\<close> returns themselves, with
  whatever version was last set on them: \<open>ping_vars\<close> holds the two versions (0 at the start).
\<close>

record ping_vars =
  PingReqPacket_version :: byte
  PingRespPacket_version :: byte

definition ping_vars_init :: ping_vars where
  "ping_vars_init = \<lparr>PingReqPacket_version = 0, PingRespPacket_version = 0\<rparr>"

text \<open>\<open>io.ReadFull\<close>: the bytes, or the error and an emptied reader.\<close>

definition read_full :: "bytes \<Rightarrow> nat \<Rightarrow> bytes res \<times> bytes" where
  "read_full r n =
     (if n \<le> length r then (Inr (take n r), drop n r)
      else (Inl (GoErr (if r = [] then ErrEOF else ErrUnexpectedEOF)), []))"

definition Decode :: "ping_vars \<Rightarrow> byte \<Rightarrow> bytes \<Rightarrow> packet res \<times> bytes" where
  "Decode g version r =
     (case r of
        [] \<Rightarrow> (Inl (GoErr ErrEOF), [])
      | header # r \<Rightarrow>
          (case getRemainLength r of (bytesToRead, _, r) \<Rightarrow>
             (if bytesToRead = 0 then
                (if drop_bit 4 header = CtrlPingReq then Inr (PingReqPkt (PingReqPacket_version g))
                 else if drop_bit 4 header = CtrlPingResp
                 then Inr (PingRespPkt (PingRespPacket_version g))
                 else if drop_bit 4 header = CtrlDisConn \<and> version = V311
                 then Inr (DisconnPkt \<lparr>disconn_ProtoVersion = 0, disconn_Code = 0,
                                       disconn_Props = None\<rparr>)
                 else bad, r)
              else if bytesToRead < 2 then (bad, r)
              else (case read_full r bytesToRead of
                      (Inl f, r) \<Rightarrow> (Inl f, r)
                    | (Inr body, r) \<Rightarrow>
                        (if version = V311 then decodeV311Packet header body
                         else if version = V5 then decodeV5Packet header body
                         else Inl (GoErr ErrUnsupportedVersion), r)))))"

section \<open>No input makes Decode panic or loop\<close>

lemma safe_rbind_pair [safe_intros]:
  assumes "safe m" and "\<And>a b. m = Inr (a, b) \<Longrightarrow> safe (f a b)"
  shows "safe (rbind m (\<lambda>(a, b). f a b))"
  using assms by (cases m) (auto simp: safe_def)

lemma safe_if: "(P \<Longrightarrow> safe a) \<Longrightarrow> (\<not> P \<Longrightarrow> safe b) \<Longrightarrow> safe (if P then a else b)"
  by simp

lemma go_index_safe [safe_intros]: "i < length body \<Longrightarrow> safe (go_index body i)"
  by (simp add: go_index_def)

lemma slice_from_safe [safe_intros]: "n \<le> length body \<Longrightarrow> safe (slice_from body n)"
  by (simp add: slice_from_eq)

lemma topics_loop_safe [safe_intros, simp]: "safe (topics_loop body)"
proof (induction body rule: topics_loop.induct)
  case (1 body)
  then show ?case
    by (subst topics_loop.simps) (auto intro!: safe_intros safe_if)
qed

lemma names_loop_safe [safe_intros, simp]: "safe (names_loop body)"
proof (induction body rule: names_loop.induct)
  case (1 body)
  then show ?case
    by (subst names_loop.simps) (auto intro!: safe_intros safe_if)
qed

lemma decode_will_safe [safe_intros, simp]: "safe (decode_will pkt body)"
  by (auto simp: decode_will_def intro!: safe_intros)

lemma decode_credentials_safe [safe_intros, simp]: "safe (decode_credentials u p pkt body)"
  by (auto simp: decode_credentials_def intro!: safe_intros)

lemma decodeV311_conn_safe: "safe (decodeV311_conn body)"
  by (auto simp: decodeV311_conn_def Let_def go_slice_def intro!: safe_intros safe_if)

lemma decodeV311_publish_safe: "safe (decodeV311_publish header body)"
  by (auto simp: decodeV311_publish_def Let_def intro!: safe_intros)

lemma decodeV311Packet_safe:
  assumes "2 \<le> length body"
  shows "safe (decodeV311Packet header body)"
  using assms decodeV311_conn_safe decodeV311_publish_safe
  by (auto simp: decodeV311Packet_def decodeV311_connack_def decodeV311_subscribe_def
      decodeV311_suback_def decodeV311_unsub_def Let_def intro!: safe_intros safe_if)

lemma getBinaryData_nonempty: "getBinaryData body = Inr x \<Longrightarrow> 0 < length body"
  by (cases body) (auto simp: getBinaryData_def)

lemma decodeV5_conn_safe: "safe (decodeV5_conn body)"
  by (auto simp: decodeV5_conn_def Let_def go_slice_def
      dest: getRawProps_ok getBinaryData_nonempty intro!: safe_intros safe_if)

lemma decodeV5_publish_safe: "safe (decodeV5_publish header body)"
  by (auto simp: decodeV5_publish_def Let_def dest: getRawProps_ok intro!: safe_intros)

lemma decodeV5_ack_safe:
  assumes "\<And>p props. raw_props_ok props \<Longrightarrow> safe (setProps p props)"
  shows "safe (decodeV5_ack setProps mk body)"
  using assms by (auto simp: decodeV5_ack_def dest: getRawProps_ok intro!: safe_intros safe_if)

lemma decodeV5_rest_safe:
  assumes "2 \<le> length body"
  shows "safe (decodeV5_connack body)" "safe (decodeV5_subscribe body)" "safe (decodeV5_suback body)"
    "safe (decodeV5_unsub body)" "safe (decodeV5_unsuback body)" "safe (decodeV5_disconn body)"
    "safe (decodeV5_auth body)"
  using assms
  by (auto simp: decodeV5_connack_def decodeV5_subscribe_def decodeV5_suback_def
      decodeV5_unsub_def decodeV5_unsuback_def decodeV5_disconn_def decodeV5_auth_def
      dest: getRawProps_ok intro!: safe_intros)

lemma decodeV5Packet_safe:
  assumes "2 \<le> length body"
  shows "safe (decodeV5Packet header body)"
  using decodeV5_rest_safe [OF assms] decodeV5_conn_safe decodeV5_publish_safe
  by (auto simp: decodeV5Packet_def Let_def
      intro!: safe_if decodeV5_ack_safe pubAckProps_setProps_safe pubRecvProps_setProps_safe
        pubRelProps_setProps_safe pubCompProps_setProps_safe)

lemma Decode_safe: "safe (fst (Decode g version r))"
proof -
  have body: "safe (fst (case read_full r' n of
        (Inl f, r) \<Rightarrow> (Inl f, r)
      | (Inr body, r) \<Rightarrow>
          (if version = V311 then decodeV311Packet header body
           else if version = V5 then decodeV5Packet header body
           else Inl (GoErr ErrUnsupportedVersion), r)))" if "2 \<le> n" for r' n header
    using that by (auto simp: read_full_def decodeV311Packet_safe decodeV5Packet_safe)
  show ?thesis
    using body by (auto simp: Decode_def split: list.split prod.split)
qed

text \<open>
  C2: for every version byte and every byte stream, \<open>Decode\<close> returns a packet or an error value: no
  index or slice is out of range, no value is too short for its integer, and no loop runs forever.
\<close>
theorem decode_never_panics_or_hangs:
  "safe (fst (Decode g version r))"
  by (rule Decode_safe)

section \<open>The fuzz target\<close>

text \<open>
  \<open>src/fuzz.go\<close>: the data is decoded at both versions. Every error return of \<open>Decode\<close> has a nil packet, which
  the sum type of the model says, so the explicit panics of the target have no case here; a panic of
  \<open>Decode\<close> itself would be its result.
\<close>

definition Fuzz :: "ping_vars \<Rightarrow> bytes \<Rightarrow> int res" where
  "Fuzz g data = (case fst (Decode g V311 data) of
       Inl (GoErr err) \<Rightarrow> Inr 0
     | Inl f \<Rightarrow> Inl f
     | Inr pkt \<Rightarrow> (case fst (Decode g V5 data) of
           Inl (GoErr err) \<Rightarrow> Inr 0
         | Inl f \<Rightarrow> Inl f
         | Inr pkt \<Rightarrow> Inr 1))"

lemma Fuzz_finds_nothing: "Fuzz g data = Inr 0 \<or> Fuzz g data = Inr 1"
  using Decode_safe [of g V311 data] Decode_safe [of g V5 data]
  by (auto simp: Fuzz_def safe_def split: sum.split fault.split)

end
