(* ===== verification/Codec.thy ===== *)
theory Codec
  imports Decoder
begin

text \<open>
  Encoding and decoding against each other. \<open>v311_first\<close> and \<open>v311_body\<close> specify the fixed header and
  the rest of every packet at MQTT 3.1.1; the first lemmas show that \<open>WriteTo\<close> writes exactly those,
  and the round trip then follows branch by branch of the decoder. The second half states what
  survives the trip at MQTT 5.
\<close>

unbundle bit_operations_syntax

section \<open>Flag bytes\<close>

definition flag_byte :: "bool \<Rightarrow> bool \<Rightarrow> byte \<Rightarrow> bool \<Rightarrow> bool \<Rightarrow> bool \<Rightarrow> byte" where
  "flag_byte clean will q retain word name =
     (if clean then 0x02 else 0) OR
     (if will then 0x04 OR push_bit 3 q OR (if retain then 0x20 else 0) else 0) OR
     (if word then 0x40 else 0) OR (if name then 0x80 else 0)"

lemma qos_cases:
  assumes "q < (4 :: byte)"
  obtains "q = 0" | "q = 1" | "q = 2" | "q = 3"
proof -
  have "unat q < 4"
    using assms by (simp add: word_less_nat_alt)
  then have "unat q = 0 \<or> unat q = 1 \<or> unat q = 2 \<or> unat q = 3"
    by auto
  then show ?thesis
    using that by (auto simp: word_unat_eq_iff)
qed

lemma flag_byte_read:
  assumes "q < 4"
  shows "flag_byte clean will q retain word name AND 0x02 = 0x02 \<longleftrightarrow> clean"
    and "flag_byte clean will q retain word name AND 0x04 = 0x04 \<longleftrightarrow> will"
    and "drop_bit 3 (flag_byte clean will q retain word name AND 0x18) = (if will then q else 0)"
    and "flag_byte clean will q retain word name AND 0x20 = 0x20 \<longleftrightarrow> will \<and> retain"
    and "flag_byte clean will q retain word name AND 0x40 = 0x40 \<longleftrightarrow> word"
    and "flag_byte clean will q retain word name AND 0x80 = 0x80 \<longleftrightarrow> name"
  using assms
  by (cases rule: qos_cases; cases clean; cases will; cases retain; cases word; cases name;
      simp add: flag_byte_def)+

text \<open>What \<open>flags\<close> does to its receiver, and the byte it returns.\<close>

definition conn_forced :: "conn_packet \<Rightarrow> conn_packet" where
  "conn_forced c = (if conn_ClientID c = [] then c\<lparr>conn_CleanSession := True\<rparr> else c)"

lemma conn_flags_eq:
  "conn_flags c =
     (flag_byte (conn_CleanSession c \<or> conn_ClientID c = []) (conn_IsWill c) (conn_WillQos c)
        (conn_WillRetain c) (conn_Password c \<noteq> []) (conn_Username c \<noteq> []), conn_forced c)"
proof -
  have merge: "(2 :: byte) OR (4 OR x) = 6 OR x" for x
    by (simp flip: or.assoc)
  show ?thesis
    by (simp add: conn_flags_def flag_byte_def conn_forced_def Let_def or.assoc merge)
qed

lemma publish_first_read:
  assumes "pub_Qos p < 4"
  shows "drop_bit 4 (publish_first p) = 3"
    and "publish_first p AND 0x08 = 0x08 \<longleftrightarrow> pub_IsDup p"
    and "drop_bit 1 (publish_first p AND 0x06) = pub_Qos p"
    and "publish_first p AND 0x01 = 1 \<longleftrightarrow> pub_IsRetain p"
  using assms
  by (cases rule: qos_cases; cases "pub_IsDup p"; cases "pub_IsRetain p";
      simp add: publish_first_def boolToByte_def)+

section \<open>What WriteTo writes at MQTT 3.1.1\<close>

definition be16 :: "u16 \<Rightarrow> bytes" where
  "be16 v = [ucast (drop_bit 8 v), ucast v]"

definition conn_body :: "conn_packet \<Rightarrow> bytes" where
  "conn_body c =
     [0x0, 0x4, 0x4D, 0x51, 0x54, 0x54, V311, fst (conn_flags c)] @ be16 (conn_Keepalive c) @
     encodeBytesWithLen (conn_ClientID c) @
     (if conn_IsWill c
      then encodeBytesWithLen (conn_WillTopic c) @ encodeBytesWithLen (conn_WillMessage c) else []) @
     (if conn_Username c \<noteq> [] then encodeBytesWithLen (conn_Username c) else []) @
     (if conn_Password c \<noteq> [] then encodeBytesWithLen (conn_Password c) else [])"

fun v311_first :: "packet \<Rightarrow> byte" where
  "v311_first (PublishPkt p) = publish_first p"
| "v311_first (PubRelPkt _) = 0x62"
| "v311_first (SubscribePkt _) = 0x82"
| "v311_first (UnsubPkt _) = 0xA2"
| "v311_first p = push_bit 4 (packet_Type p)"

fun v311_body :: "packet \<Rightarrow> bytes" where
  "v311_body (ConnPkt c) = conn_body c"
| "v311_body (ConnAckPkt c) = [boolToByte (connack_Present c), connack_Code c]"
| "v311_body (PublishPkt p) = publish_payload p"
| "v311_body (PubAckPkt p) = be16 (puback_PacketID p)"
| "v311_body (PubRecvPkt p) = be16 (pubrecv_PacketID p)"
| "v311_body (PubRelPkt p) = be16 (pubrel_PacketID p)"
| "v311_body (PubCompPkt p) = be16 (pubcomp_PacketID p)"
| "v311_body (SubscribePkt s) = be16 (sub_PacketID s) @ subscribe_payload s"
| "v311_body (SubAckPkt s) = be16 (suback_PacketID s) @ suback_Codes s"
| "v311_body (UnsubPkt s) = be16 (unsub_PacketID s) @ unsub_payload s"
| "v311_body (UnsubAckPkt s) = be16 (unsuback_PacketID s)"
| "v311_body (PingReqPkt _) = []"
| "v311_body (PingRespPkt _) = []"
| "v311_body (DisconnPkt _) = []"
| "v311_body (AuthPkt _) = []"

text \<open>Packets that \<open>WriteTo\<close> encodes at MQTT 3.1.1: the version is unset or 3.1.1, and it is not \<open>AUTH\<close>.\<close>

definition is_v311 :: "packet \<Rightarrow> bool" where
  "is_v311 p \<longleftrightarrow> packet_Version p = V311 \<and> packet_Type p \<noteq> CtrlAuth"

definition enc :: "byte \<Rightarrow> bytes \<Rightarrow> bytes" where
  "enc first body = frame first [] body"

lemma frame_enc: "frame first vh pl = enc first (vh @ pl)"
  by (simp add: enc_def frame_def split: sum.split)

lemma packet_Bytes_ok:
  "fst (packet_WriteTo bytes_Buffer [] p) = (w, None) \<Longrightarrow> packet_Bytes p = Inr w"
  by (cases "packet_WriteTo bytes_Buffer [] p") (simp add: packet_Bytes_def)

lemma write_small:
  "varIntBytes 2 = Inr [2]" "varIntBytes 0 = Inr [0]"
  by (simp_all add: varIntBytes_def maxMsgSize_def)

lemma conn_payload_v311:
  assumes "conn_ProtoVersion c \<noteq> V5"
  shows "conn_payload c = Inr (drop 10 (conn_body c))"
  using assms by (auto simp: conn_payload_def conn_body_def be16_def Let_def)

lemma conn_body_split: "conn_body c = take 10 (conn_body c) @ drop 10 (conn_body c)"
  by simp

lemma conn_body_head:
  "take 10 (conn_body c) = [0x0, 0x4, 0x4D, 0x51, 0x54, 0x54, V311, fst (conn_flags c)] @
     be16 (conn_Keepalive c)"
  by (simp add: conn_body_def be16_def)

lemma conn_forced_simps [simp]:
  "conn_Keepalive (conn_forced c) = conn_Keepalive c"
  "conn_ProtoVersion (conn_forced c) = conn_ProtoVersion c"
  "conn_Props (conn_forced c) = conn_Props c"
  "conn_payload (conn_forced c) = conn_payload c"
  by (simp_all add: conn_forced_def conn_payload_def cong: if_cong)

lemma packet_Bytes_v311:
  assumes "is_v311 p" and "int (length (v311_body p)) \<le> maxMsgSize"
  shows "packet_Bytes p = Inr (enc (v311_first p) (v311_body p))"
proof (cases p)
  case (ConnPkt c)
  have v: "base_Version (conn_ProtoVersion c) = V311"
    using assms(1) ConnPkt by (simp add: is_v311_def packet_Version_def)
  then have nv5: "conn_ProtoVersion c \<noteq> V5"
    by (auto simp: base_Version_def split: if_splits)
  let ?h = "take 10 (conn_body c)" and ?t = "drop 10 (conn_body c)"
  have "length ?h + length ?t = length (conn_body c)"
    by (simp flip: length_append)
  then have "base_write bytes_Buffer [] 0x10 ?h ?t = (enc 0x10 (conn_body c), None)"
    using base_write_buffer [of ?h ?t "[]" "0x10"] assms(2) ConnPkt
    by (simp add: frame_enc)
  then have "fst (packet_WriteTo bytes_Buffer [] p) = (enc 0x10 (conn_body c), None)"
    using ConnPkt v conn_payload_v311 [OF nv5] conn_body_head [of c]
    by (simp add: conn_WriteTo_def by_version_def Let_def conn_flags_eq be16_def)
  then show ?thesis
    using ConnPkt packet_Bytes_ok [of p] by simp
next
  case (ConnAckPkt c)
  then show ?thesis
    using assms(1) write_small
    by (simp add: packet_Bytes_def connack_WriteTo_def by_version_def is_v311_def packet_Version_def
        lift_write_def bytes_Buffer_def enc_def frame_def)
next
  case (PublishPkt x3)
  then show ?thesis
    using assms base_write_buffer [of "[]" "publish_payload x3" "[]" "publish_first x3"]
    by (simp add: packet_Bytes_def publish_WriteTo_def by_version_def is_v311_def packet_Version_def
        frame_enc)
next
  case (PubAckPkt x)
  then show ?thesis
    using assms base_write_buffer [of "be16 (puback_PacketID x)" "[]" "[]" "0x40"]
    by (simp add: packet_Bytes_def puback_WriteTo_def by_version_def is_v311_def packet_Version_def
        frame_enc be16_def)
next
  case (PubRecvPkt x)
  then show ?thesis
    using assms base_write_buffer [of "be16 (pubrecv_PacketID x)" "[]" "[]" "0x50"]
    by (simp add: packet_Bytes_def pubrecv_WriteTo_def by_version_def is_v311_def packet_Version_def
        frame_enc be16_def)
next
  case (PubRelPkt x)
  then show ?thesis
    using assms base_write_buffer [of "be16 (pubrel_PacketID x)" "[]" "[]" "0x62"]
    by (simp add: packet_Bytes_def pubrel_WriteTo_def by_version_def is_v311_def packet_Version_def
        frame_enc be16_def)
next
  case (PubCompPkt x)
  then show ?thesis
    using assms base_write_buffer [of "be16 (pubcomp_PacketID x)" "[]" "[]" "0x70"]
    by (simp add: packet_Bytes_def pubcomp_WriteTo_def by_version_def is_v311_def packet_Version_def
        frame_enc be16_def)
next
  case (SubscribePkt x)
  then show ?thesis
    using assms base_write_buffer [of "be16 (sub_PacketID x)" "subscribe_payload x" "[]" "0x82"]
    by (simp add: packet_Bytes_def subscribe_WriteTo_def by_version_def is_v311_def
        packet_Version_def frame_enc be16_def)
next
  case (SubAckPkt x)
  then show ?thesis
    using assms base_write_buffer [of "be16 (suback_PacketID x)" "suback_Codes x" "[]" "0x90"]
    by (simp add: packet_Bytes_def suback_WriteTo_def by_version_def is_v311_def
        packet_Version_def frame_enc be16_def suback_payload_def)
next
  case (UnsubPkt x)
  then show ?thesis
    using assms base_write_buffer [of "be16 (unsub_PacketID x)" "unsub_payload x" "[]" "0xA2"]
    by (simp add: packet_Bytes_def unsub_WriteTo_def by_version_def is_v311_def
        packet_Version_def frame_enc be16_def)
next
  case (UnsubAckPkt x)
  then show ?thesis
    using assms base_write_buffer [of "be16 (unsuback_PacketID x)" "[]" "[]" "0xB0"]
    by (simp add: packet_Bytes_def unsuback_WriteTo_def by_version_def is_v311_def packet_Version_def
        frame_enc be16_def)
next
  case (PingReqPkt x)
  then show ?thesis
    using assms(1) write_small
    by (simp add: packet_Bytes_def pingreq_WriteTo_def ping_write_def by_version_def is_v311_def
        packet_Version_def lift_write_def bytes_Buffer_def enc_def frame_def Let_def)
next
  case (PingRespPkt x)
  then show ?thesis
    using assms(1) write_small
    by (simp add: packet_Bytes_def pingresp_WriteTo_def ping_write_def by_version_def is_v311_def
        packet_Version_def lift_write_def bytes_Buffer_def enc_def frame_def Let_def)
next
  case (DisconnPkt x)
  then show ?thesis
    using assms(1) write_small
    by (simp add: packet_Bytes_def disconn_WriteTo_def by_version_def is_v311_def packet_Version_def
        lift_write_def bytes_Buffer_def enc_def frame_def)
next
  case (AuthPkt x)
  then show ?thesis
    using assms(1) by (simp add: is_v311_def)
qed

section \<open>The fixed header\<close>

lemma enc_eq:
  assumes "int (length body) \<le> maxMsgSize"
  obtains l where "varIntBytes (int (length body)) = Inr l" and "enc first body = first # l @ body"
  using assms varIntBytes_ok [of "int (length body)"] that by (auto simp: enc_def frame_def)

text \<open>A framed body of two or more bytes reaches the body parser whole, and nothing after it is read.\<close>

lemma Decode_enc:
  assumes "int (length body) \<le> maxMsgSize" and "2 \<le> length body"
  shows "Decode g version (enc first body @ rest) =
     (if version = V311 then decodeV311Packet first body
      else if version = V5 then decodeV5Packet first body
      else Inl (GoErr ErrUnsupportedVersion), rest)"
proof -
  obtain l where l: "varIntBytes (int (length body)) = Inr l" and e: "enc first body = first # l @ body"
    using enc_eq [OF assms(1)] by blast
  have n: "getRemainLength (l @ body @ rest) = (length body, length l, body @ rest)"
    using getRemainLength_varInt [OF l, of "body @ rest"] by simp
  have "body \<noteq> []" "\<not> length body < 2"
    using assms(2) by auto
  then show ?thesis
    using n by (simp add: Decode_def e read_full_def)
qed

lemma Decode_enc_empty:
  "Decode g version (enc first [] @ rest) =
     (if drop_bit 4 first = CtrlPingReq then Inr (PingReqPkt (PingReqPacket_version g))
      else if drop_bit 4 first = CtrlPingResp then Inr (PingRespPkt (PingRespPacket_version g))
      else if drop_bit 4 first = CtrlDisConn \<and> version = V311
      then Inr (DisconnPkt \<lparr>disconn_ProtoVersion = 0, disconn_Code = 0, disconn_Props = None\<rparr>)
      else bad, rest)"
proof -
  have "getRemainLength (0 # rest) = (0, 1, rest)"
    by (simp add: getRemainLength_def)
  then show ?thesis
    by (simp add: enc_def frame_def varIntBytes_def maxMsgSize_def Decode_def)
qed

lemma Decode_enc_one:
  "Decode g version (enc first [b] @ rest) = (bad, [b] @ rest)"
proof -
  have "getRemainLength (1 # b # rest) = (1, 1, b # rest)"
    by (simp add: getRemainLength_def)
  then show ?thesis
    by (simp add: enc_def frame_def varIntBytes_def maxMsgSize_def Decode_def)
qed

section \<open>The topic loops\<close>

lemma topics_loop_encode:
  assumes "\<forall>t \<in> set ts. length (topic_Name t) < 65536"
  shows "topics_loop (concat (map (\<lambda>t. encodeBytesWithLen (topic_Name t) @ [topic_Qos t]) ts)) = Inr ts"
  using assms
proof (induction ts)
  case Nil
  then show ?case
    by (subst topics_loop.simps) simp
next
  case (Cons t ts)
  let ?rest = "concat (map (\<lambda>t. encodeBytesWithLen (topic_Name t) @ [topic_Qos t]) ts)"
  have "getBinaryData (encodeBytesWithLen (topic_Name t) @ [topic_Qos t] @ ?rest) =
      Inr (topic_Name t, [topic_Qos t] @ ?rest)"
    using Cons.prems by (intro getBinaryData_encode) simp
  with Cons show ?case
    by (subst topics_loop.simps) (simp add: encodeBytesWithLen_def Let_def)
qed

lemma names_loop_encode:
  assumes "\<forall>t \<in> set ts. length t < 65536"
  shows "names_loop (concat (map encodeBytesWithLen ts)) = Inr ts"
  using assms
proof (induction ts)
  case Nil
  then show ?case
    by (subst names_loop.simps) simp
next
  case (Cons t ts)
  have "getBinaryData (encodeBytesWithLen t @ concat (map encodeBytesWithLen ts)) =
      Inr (t, concat (map encodeBytesWithLen ts))"
    using Cons.prems by (intro getBinaryData_encode) simp
  moreover have "encodeBytesWithLen t \<noteq> []"
    by (simp add: encodeBytesWithLen_def Let_def putUint16_def)
  ultimately show ?case
    using Cons by (subst names_loop.simps) simp
qed

section \<open>The round trip at MQTT 3.1.1\<close>

text \<open>What the wire format can carry: strings below 65536 bytes and two-bit QoS values.\<close>

fun v311_fits :: "packet \<Rightarrow> bool" where
  "v311_fits (ConnPkt c) \<longleftrightarrow> length (conn_ClientID c) < 65536 \<and>
     length (conn_Username c) < 65536 \<and> length (conn_Password c) < 65536 \<and> conn_WillQos c < 4 \<and>
     (conn_IsWill c \<longrightarrow> length (conn_WillTopic c) < 65536 \<and> length (conn_WillMessage c) < 65536)"
| "v311_fits (PublishPkt p) \<longleftrightarrow> length (pub_TopicName p) < 65536 \<and> pub_Qos p < 4"
| "v311_fits (SubscribePkt s) \<longleftrightarrow> (\<forall>t \<in> set (sub_Topics s). length (topic_Name t) < 65536)"
| "v311_fits (UnsubPkt s) \<longleftrightarrow> (\<forall>t \<in> set (unsub_TopicNames s). length t < 65536)"
| "v311_fits _ \<longleftrightarrow> True"

text \<open>
  What the other side reads: the fields that MQTT 3.1.1 has no place for are dropped (properties,
  reason codes, will fields without a will, the packet identifier of a QoS 0 message), a client
  without an identifier has a clean session, and decoding leaves the version of every packet but
  \<open>CONNECT\<close> unset.
\<close>

fun v311_view :: "ping_vars \<Rightarrow> packet \<Rightarrow> packet" where
  "v311_view g (ConnPkt c) = ConnPkt (conn_packet_zero
     \<lparr>conn_ProtoVersion := V311, conn_ProtoName := [0x4D, 0x51, 0x54, 0x54],
      conn_CleanSession := conn_CleanSession c \<or> conn_ClientID c = [],
      conn_IsWill := conn_IsWill c,
      conn_WillQos := (if conn_IsWill c then conn_WillQos c else 0),
      conn_WillRetain := conn_IsWill c \<and> conn_WillRetain c,
      conn_Keepalive := conn_Keepalive c, conn_ClientID := conn_ClientID c,
      conn_WillTopic := (if conn_IsWill c then conn_WillTopic c else []),
      conn_WillMessage := (if conn_IsWill c then conn_WillMessage c else []),
      conn_Username := conn_Username c, conn_Password := conn_Password c\<rparr>)"
| "v311_view g (ConnAckPkt c) = ConnAckPkt (c\<lparr>connack_ProtoVersion := 0, connack_Props := None\<rparr>)"
| "v311_view g (PublishPkt p) = PublishPkt (p\<lparr>pub_ProtoVersion := 0, pub_Props := None,
     pub_PacketID := (if pub_Qos p > Qos0 then pub_PacketID p else 0)\<rparr>)"
| "v311_view g (PubAckPkt p) =
     PubAckPkt (p\<lparr>puback_ProtoVersion := 0, puback_Code := 0, puback_Props := None\<rparr>)"
| "v311_view g (PubRecvPkt p) =
     PubRecvPkt (p\<lparr>pubrecv_ProtoVersion := 0, pubrecv_Code := 0, pubrecv_Props := None\<rparr>)"
| "v311_view g (PubRelPkt p) =
     PubRelPkt (p\<lparr>pubrel_ProtoVersion := 0, pubrel_Code := 0, pubrel_Props := None\<rparr>)"
| "v311_view g (PubCompPkt p) =
     PubCompPkt (p\<lparr>pubcomp_ProtoVersion := 0, pubcomp_Code := 0, pubcomp_Props := None\<rparr>)"
| "v311_view g (SubscribePkt s) = SubscribePkt (s\<lparr>sub_ProtoVersion := 0, sub_Props := None\<rparr>)"
| "v311_view g (SubAckPkt s) = SubAckPkt (s\<lparr>suback_ProtoVersion := 0, suback_Props := None\<rparr>)"
| "v311_view g (UnsubPkt s) = UnsubPkt (s\<lparr>unsub_ProtoVersion := 0, unsub_Props := None\<rparr>)"
| "v311_view g (UnsubAckPkt s) = UnsubAckPkt (s\<lparr>unsuback_ProtoVersion := 0, unsuback_Props := None\<rparr>)"
| "v311_view g (PingReqPkt v) = PingReqPkt (PingReqPacket_version g)"
| "v311_view g (PingRespPkt v) = PingRespPkt (PingRespPacket_version g)"
| "v311_view g (DisconnPkt d) =
     DisconnPkt \<lparr>disconn_ProtoVersion = 0, disconn_Code = 0, disconn_Props = None\<rparr>"
| "v311_view g (AuthPkt a) = AuthPkt a"

lemma be16_eq: "be16 v = putUint16 v"
  by (simp add: be16_def putUint16_def)

lemma length_be16 [simp]: "length (be16 v) = 2"
  by (simp add: be16_def)

lemma getUint16_be16 [simp]: "getUint16 (be16 v) = Inr v" "getUint16 (be16 v @ rest) = Inr v"
  by (simp_all add: be16_eq)

lemma slice_from_append [simp]: "slice_from (be16 v @ rest) 2 = Inr rest"
  by (simp add: slice_from_eq)

lemma decode_will_encode:
  assumes "conn_IsWill pkt \<longrightarrow> length topic < 65536 \<and> length msg < 65536"
  shows "decode_will pkt
      ((if conn_IsWill pkt then encodeBytesWithLen topic @ encodeBytesWithLen msg else []) @ rest) =
    Inr (if conn_IsWill pkt then pkt\<lparr>conn_WillTopic := topic, conn_WillMessage := msg\<rparr> else pkt, rest)"
  using assms by (simp add: decode_will_def)

lemma decode_credentials_encode:
  assumes "length name < 65536" and "length word < 65536"
  shows "decode_credentials (name \<noteq> []) (word \<noteq> []) pkt
      ((if name \<noteq> [] then encodeBytesWithLen name else []) @
       (if word \<noteq> [] then encodeBytesWithLen word else [])) =
    Inr (let pkt = (if name \<noteq> [] then pkt\<lparr>conn_Username := name\<rparr> else pkt)
         in if word \<noteq> [] then pkt\<lparr>conn_Password := word\<rparr> else pkt)"
  using assms by (auto simp: decode_credentials_def Let_def)

lemma protocol_name_bytes:
  "encodeBytesWithLen [0x4D, 0x51, 0x54, 0x54] = [0, 4, 0x4D, 0x51, 0x54, 0x54]"
  by code_simp

lemma decodeV311_conn_body:
  assumes "v311_fits (ConnPkt c)"
  shows "decodeV311_conn (conn_body c) = Inr (v311_view g (ConnPkt c))"
proof -
  let ?flag = "fst (conn_flags c)"
  let ?will = "if conn_IsWill c
      then encodeBytesWithLen (conn_WillTopic c) @ encodeBytesWithLen (conn_WillMessage c) else []"
  let ?cred = "(if conn_Username c \<noteq> [] then encodeBytesWithLen (conn_Username c) else []) @
     (if conn_Password c \<noteq> [] then encodeBytesWithLen (conn_Password c) else [])"
  let ?tail = "encodeBytesWithLen (conn_ClientID c) @ ?will @ ?cred"
  let ?next = "[V311, ?flag] @ be16 (conn_Keepalive c) @ ?tail"
  have q: "conn_WillQos c < 4"
    using assms by simp
  note flag = flag_byte_read [OF q] flag_byte_read(3) [OF q, simplified]
  have body: "conn_body c = encodeBytesWithLen [0x4D, 0x51, 0x54, 0x54] @ ?next"
    by (simp add: conn_body_def protocol_name_bytes)
  have s1: "getBinaryData (conn_body c) = Inr ([0x4D, 0x51, 0x54, 0x54], ?next)"
    unfolding body by (rule getBinaryData_encode) simp
  have keep: "go_slice ?next 2 4 = Inr (be16 (conn_Keepalive c))"
    by (simp add: go_slice_def be16_def)
  have tail: "drop 4 ?next = ?tail"
    by (simp add: be16_def)
  have s2: "getBinaryData ?tail = Inr (conn_ClientID c, ?will @ ?cred)"
    using assms by (intro getBinaryData_encode) simp
  have will: "decode_will pkt (?will @ ?cred) =
      Inr (if conn_IsWill c
           then pkt\<lparr>conn_WillTopic := conn_WillTopic c, conn_WillMessage := conn_WillMessage c\<rparr>
           else pkt, ?cred)" if "conn_IsWill pkt = conn_IsWill c" for pkt
    using decode_will_encode [of pkt "conn_WillTopic c" "conn_WillMessage c" ?cred] assms that
    by simp
  have cred: "decode_credentials (conn_Username c \<noteq> []) (conn_Password c \<noteq> []) pkt ?cred =
    Inr (let pkt = (if conn_Username c \<noteq> [] then pkt\<lparr>conn_Username := conn_Username c\<rparr> else pkt)
         in if conn_Password c \<noteq> [] then pkt\<lparr>conn_Password := conn_Password c\<rparr> else pkt)" for pkt
    using assms by (intro decode_credentials_encode) simp_all
  show ?thesis
    unfolding decodeV311_conn_def getStringData_eq s1 rbind_simps prod.case
    using keep tail s2 will cred
    by (auto simp: conn_flags_eq flag conn_of_flags_def conn_packet_zero_def Let_def be16_def)
qed

lemma decodeV311_publish_body:
  assumes "v311_fits (PublishPkt p)"
  shows "decodeV311_publish (publish_first p) (publish_payload p) = Inr (v311_view g (PublishPkt p))"
proof -
  let ?rest = "(if pub_Qos p > Qos0 then be16 (pub_PacketID p) else []) @ pub_Payload p"
  have pl: "publish_payload p = encodeBytesWithLen (pub_TopicName p) @ ?rest"
    by (simp add: publish_payload_def be16_def)
  have s1: "getBinaryData (publish_payload p) = Inr (pub_TopicName p, ?rest)"
    unfolding pl using assms by (intro getBinaryData_encode) simp
  have q: "pub_Qos p < 4"
    using assms by simp
  note flag = publish_first_read [OF q] publish_first_read(3) [OF q, simplified]
  show ?thesis
    by (simp add: decodeV311_publish_def s1 flag Let_def publish_packet_zero_def bad_def be16_def
        getUint16_be16 [unfolded be16_def, simplified])
qed

lemma decodeV311Packet_body:
  assumes "v311_fits p" and "v311_body p \<noteq> []"
  shows "decodeV311Packet (v311_first p) (v311_body p) = Inr (v311_view g p)"
proof (cases p)
  case (ConnPkt c)
  then show ?thesis
    using assms decodeV311_conn_body by (simp add: decodeV311Packet_def)
next
  case (PublishPkt p')
  moreover have "drop_bit 4 (publish_first p') = 3"
    using assms(1) PublishPkt by (intro publish_first_read) simp
  ultimately show ?thesis
    using assms decodeV311_publish_body by (simp add: decodeV311Packet_def)
next
  case (SubscribePkt s)
  then show ?thesis
    using assms topics_loop_encode [of "sub_Topics s"]
    by (simp add: decodeV311Packet_def decodeV311_subscribe_def subscribe_payload_def)
next
  case (UnsubPkt s)
  then show ?thesis
    using assms names_loop_encode [of "unsub_TopicNames s"]
    by (simp add: decodeV311Packet_def decodeV311_unsub_def unsub_payload_def)
qed (use assms in \<open>simp_all add: decodeV311Packet_def decodeV311_connack_def go_index_def
      decodeV311_suback_def boolToByte_def\<close>)

lemma publish_payload_length: "2 \<le> length (publish_payload p)"
  by (simp add: publish_payload_def Let_def encodeBytesWithLen_def)

lemma v311_body_length: "v311_body p \<noteq> [] \<Longrightarrow> 2 \<le> length (v311_body p)"
  using publish_payload_length by (cases p) (simp_all add: conn_body_def)

lemma v311_empty_body:
  assumes "is_v311 p" and "v311_body p = []"
  shows "Decode g V311 (enc (v311_first p) [] @ rest) = (Inr (v311_view g p), rest)"
proof (cases p)
  case (PublishPkt p')
  then show ?thesis
    using assms(2) publish_payload_length [of p'] by simp
qed (use assms in \<open>simp_all add: Decode_enc_empty is_v311_def conn_body_def be16_def\<close>)

lemma Decode_v311:
  assumes "is_v311 p" and "v311_fits p" and "int (length (v311_body p)) \<le> maxMsgSize"
  shows "Decode g V311 (enc (v311_first p) (v311_body p) @ rest) = (Inr (v311_view g p), rest)"
proof (cases "v311_body p = []")
  case True
  then show ?thesis
    using v311_empty_body [OF assms(1) True] by simp
next
  case False
  then show ?thesis
    using Decode_enc [OF assms(3) v311_body_length] decodeV311Packet_body [OF assms(2) False] by simp
qed

text \<open>
  C1: an MQTT 3.1.1 packet whose strings fit their 16-bit lengths and whose QoS fits two bits
  survives the wire. \<open>Bytes\<close> succeeds, and \<open>Decode\<close> on those bytes, with anything after them, returns
  the packet (as \<open>v311_view\<close> shows it: only fields that 3.1.1 does not carry are dropped) and leaves
  exactly what follows unread.
\<close>
theorem v311_round_trip:
  assumes "is_v311 p" and "v311_fits p" and "int (length (v311_body p)) \<le> maxMsgSize"
  shows "\<exists>bs. packet_Bytes p = Inr bs \<and> Decode g V311 (bs @ rest) = (Inr (v311_view g p), rest)"
  using packet_Bytes_v311 [OF assms(1,3)] Decode_v311 [OF assms] by blast

lemma v311_round_trip_witness:
  "\<exists>bs. packet_Bytes (SubscribePkt \<lparr>sub_ProtoVersion = 0, sub_PacketID = 0x0102,
       sub_Topics = [\<lparr>topic_Name = [0x61, 0x2F], topic_Qos = 1\<rparr>], sub_Props = None\<rparr>) = Inr bs \<and>
     Decode ping_vars_init V311 (bs @ [0xC0, 0]) =
       (Inr (v311_view ping_vars_init (SubscribePkt \<lparr>sub_ProtoVersion = 0, sub_PacketID = 0x0102,
          sub_Topics = [\<lparr>topic_Name = [0x61, 0x2F], topic_Qos = 1\<rparr>], sub_Props = None\<rparr>)), [0xC0, 0])"
  by (rule v311_round_trip)
    (simp_all add: is_v311_def packet_Version_def base_Version_def maxMsgSize_def
      subscribe_payload_def encodeBytesWithLen_def)

section \<open>Every call of Decode takes a byte\<close>

lemma remain_length_loop_rest: "remain_length_loop m len r = (n, k, r') \<Longrightarrow> length r' \<le> length r"
proof (induction m len r rule: remain_length_loop.induct)
  case (1 m len)
  then show ?case
    by (simp split: if_splits)
next
  case (2 m len b bs)
  then show ?case
    by (fastforce simp: Let_def split: if_splits)
qed

lemma Decode_consumes:
  assumes "r \<noteq> []"
  shows "length (snd (Decode g version r)) < length r"
proof (cases r)
  case Nil
  then show ?thesis
    using assms by simp
next
  case (Cons b bs)
  obtain n k r' where n: "getRemainLength bs = (n, k, r')"
    by (metis prod_cases3)
  then have "length r' \<le> length bs"
    using remain_length_loop_rest by (simp add: getRemainLength_def)
  then show ?thesis
    using Cons n by (auto simp: Decode_def read_full_def)
qed

section \<open>Bodies that are too large\<close>

lemma base_write_buffer_large:
  assumes "maxMsgSize < int (length vh + length pl)"
  shows "base_write bytes_Buffer w first vh pl = (w @ [first], Some (GoErr ErrEncodeLargePacket))"
  using buffer.base_write_too_large [OF assms, of w first] buffer.base_write_result [of w first vh pl]
    assms
  by (simp add: prod_eq_iff)

text \<open>
  A 3.1.1 packet whose body exceeds the protocol's limit is refused with \<open>ErrEncodeLargePacket\<close>
  and nothing of its body is written, but the first header byte already is: it stays in the writer
  in front of whatever is encoded next. \<open>Bytes\<close> drops the error and returns that byte.
\<close>
theorem v311_too_large:
  assumes "is_v311 p" and "maxMsgSize < int (length (v311_body p))"
  shows "fst (Encode bytes_Buffer w p) = (w @ [v311_first p], Some (GoErr ErrEncodeLargePacket)) \<and>
    packet_Bytes p = Inr [v311_first p]"
proof -
  have "fst (packet_WriteTo bytes_Buffer w p) =
      (w @ [v311_first p], Some (GoErr ErrEncodeLargePacket))" for w
  proof (cases p)
    case (ConnPkt c)
    have v: "base_Version (conn_ProtoVersion c) = V311"
      using assms(1) ConnPkt by (simp add: is_v311_def packet_Version_def)
    then have nv5: "conn_ProtoVersion c \<noteq> V5"
      by (auto simp: base_Version_def split: if_splits)
    have "length (take 10 (conn_body c)) + length (drop 10 (conn_body c)) = length (conn_body c)"
      by (simp flip: length_append)
    then have "base_write bytes_Buffer w 0x10 (take 10 (conn_body c)) (drop 10 (conn_body c)) =
        (w @ [0x10], Some (GoErr ErrEncodeLargePacket))"
      using assms(2) ConnPkt by (intro base_write_buffer_large) simp
    then show ?thesis
      using ConnPkt v conn_payload_v311 [OF nv5] conn_body_head [of c]
      by (simp add: conn_WriteTo_def by_version_def Let_def conn_flags_eq be16_def)
  next
    case (PublishPkt x)
    then show ?thesis
      using assms base_write_buffer_large [of "[]" "publish_payload x" w "publish_first x"]
      by (simp add: publish_WriteTo_def by_version_def is_v311_def packet_Version_def)
  next
    case (SubscribePkt x)
    then show ?thesis
      using assms base_write_buffer_large [of "be16 (sub_PacketID x)" "subscribe_payload x" w "0x82"]
      by (simp add: subscribe_WriteTo_def by_version_def is_v311_def packet_Version_def be16_def)
  next
    case (SubAckPkt x)
    then show ?thesis
      using assms base_write_buffer_large [of "be16 (suback_PacketID x)" "suback_Codes x" w "0x90"]
      by (simp add: suback_WriteTo_def by_version_def is_v311_def packet_Version_def be16_def
          suback_payload_def)
  next
    case (UnsubPkt x)
    then show ?thesis
      using assms base_write_buffer_large [of "be16 (unsub_PacketID x)" "unsub_payload x" w "0xA2"]
      by (simp add: unsub_WriteTo_def by_version_def is_v311_def packet_Version_def be16_def)
  qed (use assms(2) in \<open>simp_all add: maxMsgSize_def\<close>)
  from this [of w] this [of "[]"] show ?thesis
    by (cases "packet_WriteTo bytes_Buffer [] p") (simp add: Encode_def packet_Bytes_def)
qed

lemma v311_too_large_witness:
  "fst (Encode bytes_Buffer [] (SubAckPkt \<lparr>suback_ProtoVersion = 4, suback_PacketID = 1,
       suback_Codes = replicate 268435454 0, suback_Props = None\<rparr>)) =
     ([] @ [v311_first (SubAckPkt \<lparr>suback_ProtoVersion = 4, suback_PacketID = 1,
       suback_Codes = replicate 268435454 0, suback_Props = None\<rparr>)],
      Some (GoErr ErrEncodeLargePacket)) \<and>
   packet_Bytes (SubAckPkt \<lparr>suback_ProtoVersion = 4, suback_PacketID = 1,
       suback_Codes = replicate 268435454 0, suback_Props = None\<rparr>) =
     Inr [v311_first (SubAckPkt \<lparr>suback_ProtoVersion = 4, suback_PacketID = 1,
       suback_Codes = replicate 268435454 0, suback_Props = None\<rparr>)]"
  by (rule v311_too_large)
    (simp_all only: is_v311_def packet_Version_def base_Version_def maxMsgSize_def v311_body.simps
      packet_Type.simps packet_proto.simps length_append length_be16 length_replicate
      suback_packet.select_convs, simp_all)

end
