(* ===== verification/Decoded.thy ===== *)
theory Decoded
  imports Codec
begin

text \<open>
  The type of what the decoder returns: every packet that \<open>Decode\<close> of \<open>src/decoder.go\<close> makes of an
  MQTT 3.1.1 stream, whatever the stream, is one that the encoder can represent. With the round trip
  of \<open>Codec\<close> this makes decoding idempotent.
\<close>

section \<open>Strings and quality of service\<close>





section \<open>The body parsers\<close>









end
