(* ===== verification/Codec_V5.thy ===== *)
theory Codec_V5
  imports Codec
begin

text \<open>
  What survives encoding and decoding at MQTT 5. \<open>v5_header\<close>, \<open>v5_props\<close> and \<open>v5_payload\<close> name the
  three parts that \<open>writeV5\<close> puts after the fixed header. \<open>propertySet\<close> drops every property, so on
  the wire the property section is one zero byte for all packets but \<open>SUBSCRIBE\<close>; a reason code of a
  publish acknowledgement is never written, and \<open>PUBLISH\<close> and \<open>DISCONNECT\<close> are laid out in an order
  that the decoder does not expect.
\<close>

section \<open>What WriteTo writes at MQTT 5\<close>

fun v5_header :: "packet \<Rightarrow> bytes" where
  "v5_header (ConnPkt c) = [0x0, 0x4, 0x4D, 0x51, 0x54, 0x54, V5, fst (conn_flags c)] @ be16 (conn_Keepalive c)"
| "v5_header (ConnAckPkt c) = [boolToByte (connack_Present c), connack_Code c]"
| "v5_header (PubAckPkt p) = be16 (puback_PacketID p)"
| "v5_header (PubRecvPkt p) = be16 (pubrecv_PacketID p)"
| "v5_header (PubRelPkt p) = be16 (pubrel_PacketID p)"
| "v5_header (PubCompPkt p) = be16 (pubcomp_PacketID p)"
| "v5_header (SubscribePkt s) = be16 (sub_PacketID s)"
| "v5_header (SubAckPkt s) = be16 (suback_PacketID s)"
| "v5_header (UnsubPkt s) = be16 (unsub_PacketID s)"
| "v5_header (UnsubAckPkt s) = be16 (unsuback_PacketID s)"
| "v5_header (AuthPkt a) = [auth_Code a]"
| "v5_header _ = []"

fun v5_props :: "packet \<Rightarrow> bytes res" where
  "v5_props (ConnPkt c) = connProps_props (conn_Props c)"
| "v5_props (ConnAckPkt c) = connAckProps_props (connack_Props c)"
| "v5_props (SubscribePkt s) = subscribeProps_props (sub_Props s)"
| "v5_props _ = Inr []"

fun v5_payload :: "packet \<Rightarrow> bytes" where
  "v5_payload (ConnPkt c) =
     encodeBytesWithLen (conn_ClientID c) @
     (if conn_Username c \<noteq> [] then encodeBytesWithLen (conn_Username c) else []) @
     (if conn_Password c \<noteq> [] then encodeBytesWithLen (conn_Password c) else [])"
| "v5_payload (PublishPkt p) = publish_payload p"
| "v5_payload (SubscribePkt s) = subscribe_payload s"
| "v5_payload (SubAckPkt s) = suback_Codes s"
| "v5_payload (UnsubPkt s) = unsub_payload s"
| "v5_payload _ = []"

text \<open>
  The packets that have a version 5 form in which the decoder can find its fields again: all but
  \<open>PUBLISH\<close>, \<open>DISCONNECT\<close>, the two pings (which have no version) and a \<open>CONNECT\<close> with a will.
\<close>

definition is_v5 :: "packet \<Rightarrow> bool" where
  "is_v5 p \<longleftrightarrow> (packet_Version p = V5 \<or> packet_Type p = CtrlAuth) \<and>
     packet_Type p \<notin> {CtrlPingReq, CtrlPingResp}"

definition has_will :: "packet \<Rightarrow> bool" where
  "has_will p = (case p of ConnPkt c \<Rightarrow> conn_IsWill c | _ \<Rightarrow> False)"

lemma base_Version_V5: "base_Version v = V5 \<longleftrightarrow> v = V5"
  by (simp add: base_Version_def)

lemma base_writeV5_buffer:
  assumes "int (length (vh @ 0 # pl)) \<le> maxMsgSize"
  shows "base_writeV5 bytes_Buffer [] first vh [] pl = (enc first (vh @ 0 # pl), None)"
  using assms base_write_buffer [of "vh @ [0]" pl "[]" first]
  by (simp add: base_writeV5_def varIntBytes_def maxMsgSize_def frame_enc)

lemma packet_Bytes_v5:
  assumes "is_v5 p" and "\<not> has_will p" and "v5_props p = Inr []"
    and "int (length (v5_header p @ 0 # v5_payload p)) \<le> maxMsgSize"
  shows "packet_Bytes p = Inr (enc (v311_first p) (v5_header p @ 0 # v5_payload p))"
proof (cases p)
  case (ConnPkt c)
  have v: "conn_ProtoVersion c = V5"
    using assms(1) ConnPkt by (simp add: is_v5_def packet_Version_def base_Version_V5)
  have pl: "conn_payload c = Inr (v5_payload p)"
    using assms(2) ConnPkt by (auto simp: conn_payload_def has_will_def)
  show ?thesis
    using base_writeV5_buffer [OF assms(4), of "v311_first p"] assms(3) ConnPkt v pl
    by (simp add: packet_Bytes_def conn_WriteTo_def conn_flags_eq be16_def Let_def)
qed (use base_writeV5_buffer [OF assms(4), of "v311_first p"] assms in
    \<open>simp_all add: packet_Bytes_def is_v5_def packet_Version_def base_Version_V5 be16_def props_empty
      connack_WriteTo_def publish_WriteTo_def puback_WriteTo_def pubrecv_WriteTo_def
      pubrel_WriteTo_def pubcomp_WriteTo_def subscribe_WriteTo_def suback_WriteTo_def
      unsub_WriteTo_def unsuback_WriteTo_def disconn_WriteTo_def auth_WriteTo_def
      suback_payload_def\<close>)

section \<open>What the decoder makes of it\<close>

lemma getRawProps_zero [simp]: "getRawProps (0 # next) = Inr (Map.empty, next)"
proof -
  have "getRemainLength (0 # next) = (0, 1, next)"
    by (simp add: getRemainLength_def)
  then show ?thesis
    by (simp add: getRawProps_def go_slice_def raw_props_loop.simps recover_with_def)
qed

lemma getRawProps_nil [simp]: "getRawProps [] = Inr (Map.empty, [])"
proof -
  have "getRemainLength [] = (0, 0, [])"
    by (simp add: getRemainLength_def)
  then show ?thesis
    by (simp add: getRawProps_def go_slice_def raw_props_loop.simps recover_with_def)
qed

lemma setProps_empty [simp]:
  "connProps_setProps (Some c1) Map.empty = Inr (Some c1)"
  "connAckProps_setProps (Some c2) Map.empty = Inr (Some c2)"
  "publishProps_setProps (Some c3) Map.empty = Inr (Some c3)"
  "pubAckProps_setProps (Some c4) Map.empty = Inr (Some c4)"
  "pubRecvProps_setProps (Some c4) Map.empty = Inr (Some c4)"
  "pubRelProps_setProps (Some c4) Map.empty = Inr (Some c4)"
  "pubCompProps_setProps (Some c4) Map.empty = Inr (Some c4)"
  "subscribeProps_setProps (Some c5) Map.empty = Inr (Some c5)"
  "subAckProps_setProps (Some c4) Map.empty = Inr (Some c4)"
  "unsubProps_setProps (Some c6) Map.empty = Inr (Some c6)"
  "unsubAckProps_setProps (Some c4) Map.empty = Inr (Some c4)"
  "disconnProps_setProps (Some c7) Map.empty = Inr (Some c7)"
  "authProps_setProps (Some c8) Map.empty = Inr (Some c8)"
  by (simp_all add: connProps_setProps_def connAckProps_setProps_def publishProps_setProps_def
      pubAckProps_setProps_def pubRecvProps_setProps_def pubRelProps_setProps_def
      pubCompProps_setProps_def subscribeProps_setProps_def subAckProps_setProps_def
      unsubProps_setProps_def unsubAckProps_setProps_def disconnProps_setProps_def
      authProps_setProps_def connProps_setProps_fields_def connAckProps_setProps_fields_def
      publishProps_setProps_fields_def pubAckProps_setProps_fields_def
      pubRecvProps_setProps_fields_def pubRelProps_setProps_fields_def
      pubCompProps_setProps_fields_def subscribeProps_setProps_fields_def
      subAckProps_setProps_fields_def unsubProps_setProps_fields_def
      unsubAckProps_setProps_fields_def disconnProps_setProps_fields_def
      authProps_setProps_fields_def)

text \<open>
  What the other side reads at MQTT 5: the properties are gone (their record is the zero one), and
  so is the reason code of a publish acknowledgement.
\<close>

fun v5_view :: "packet \<Rightarrow> packet" where
  "v5_view (ConnPkt c) = ConnPkt (conn_packet_zero
     \<lparr>conn_ProtoVersion := V5, conn_ProtoName := [0x4D, 0x51, 0x54, 0x54],
      conn_CleanSession := conn_CleanSession c \<or> conn_ClientID c = [],
      conn_Props := Some conn_props_zero,
      conn_Keepalive := conn_Keepalive c, conn_ClientID := conn_ClientID c,
      conn_Username := conn_Username c, conn_Password := conn_Password c\<rparr>)"
| "v5_view (ConnAckPkt c) =
     ConnAckPkt (c\<lparr>connack_ProtoVersion := V5, connack_Props := Some connack_props_zero\<rparr>)"
| "v5_view (PubAckPkt p) =
     PubAckPkt (p\<lparr>puback_ProtoVersion := V5, puback_Code := 0, puback_Props := Some reason_props_zero\<rparr>)"
| "v5_view (PubRecvPkt p) =
     PubRecvPkt (p\<lparr>pubrecv_ProtoVersion := V5, pubrecv_Code := 0, pubrecv_Props := Some reason_props_zero\<rparr>)"
| "v5_view (PubRelPkt p) =
     PubRelPkt (p\<lparr>pubrel_ProtoVersion := V5, pubrel_Code := 0, pubrel_Props := Some reason_props_zero\<rparr>)"
| "v5_view (PubCompPkt p) =
     PubCompPkt (p\<lparr>pubcomp_ProtoVersion := V5, pubcomp_Code := 0, pubcomp_Props := Some reason_props_zero\<rparr>)"
| "v5_view (SubscribePkt s) =
     SubscribePkt (s\<lparr>sub_ProtoVersion := V5, sub_Props := Some subscribe_props_zero\<rparr>)"
| "v5_view (SubAckPkt s) =
     SubAckPkt (s\<lparr>suback_ProtoVersion := V5, suback_Props := Some reason_props_zero\<rparr>)"
| "v5_view (UnsubPkt s) =
     UnsubPkt (s\<lparr>unsub_ProtoVersion := V5, unsub_Props := Some unsub_props_zero\<rparr>)"
| "v5_view (UnsubAckPkt s) =
     UnsubAckPkt (s\<lparr>unsuback_ProtoVersion := V5, unsuback_Props := Some reason_props_zero\<rparr>)"
| "v5_view (AuthPkt a) = AuthPkt (a\<lparr>auth_ProtoVersion := V5, auth_Props := Some auth_props_zero\<rparr>)"
| "v5_view p = p"

lemma decodeV5_conn_body:
  assumes "v311_fits (ConnPkt c)" and "\<not> conn_IsWill c"
  shows "decodeV5_conn (v5_header (ConnPkt c) @ 0 # v5_payload (ConnPkt c)) =
    Inr (v5_view (ConnPkt c))"
proof -
  let ?flag = "fst (conn_flags c)"
  let ?cred = "(if conn_Username c \<noteq> [] then encodeBytesWithLen (conn_Username c) else []) @
     (if conn_Password c \<noteq> [] then encodeBytesWithLen (conn_Password c) else [])"
  let ?tail = "encodeBytesWithLen (conn_ClientID c) @ ?cred"
  let ?next = "[V5, ?flag] @ be16 (conn_Keepalive c) @ 0 # ?tail"
  let ?body = "v5_header (ConnPkt c) @ 0 # v5_payload (ConnPkt c)"
  have q: "conn_WillQos c < 4"
    using assms by simp
  note flag = flag_byte_read [OF q] flag_byte_read(3) [OF q, simplified]
  have body: "?body = encodeBytesWithLen [0x4D, 0x51, 0x54, 0x54] @ ?next"
    by (simp add: protocol_name_bytes)
  have s1: "getBinaryData ?body = Inr ([0x4D, 0x51, 0x54, 0x54], ?next)"
    unfolding body by (rule getBinaryData_encode) simp
  have i0: "go_index ?body 0 = Inr 0"
    by (simp add: go_index_def)
  have keep: "go_slice ?next 2 4 = Inr (be16 (conn_Keepalive c))"
    by (simp add: go_slice_def be16_def)
  have s2: "getBinaryData ?tail = Inr (conn_ClientID c, ?cred)"
    using assms by (intro getBinaryData_encode) simp
  have cred: "decode_credentials (conn_Username c \<noteq> []) (conn_Password c \<noteq> []) pkt ?cred =
    Inr (let pkt = (if conn_Username c \<noteq> [] then pkt\<lparr>conn_Username := conn_Username c\<rparr> else pkt)
         in if conn_Password c \<noteq> [] then pkt\<lparr>conn_Password := conn_Password c\<rparr> else pkt)" for pkt
    using assms by (intro decode_credentials_encode) simp_all
  show ?thesis
    unfolding decodeV5_conn_def getStringData_eq s1 rbind_simps prod.case i0
    using keep s2 cred assms(2)
    by (auto simp: conn_flags_eq flag conn_of_flags_def conn_packet_zero_def Let_def be16_def
        decode_will_def)
qed

lemma decodeV5Packet_body:
  assumes "is_v5 p" and "v311_fits p" and "\<not> has_will p"
    and "packet_Type p \<noteq> CtrlPublish" and "packet_Type p \<noteq> CtrlDisConn"
  shows "decodeV5Packet (v311_first p) (v5_header p @ 0 # v5_payload p) = Inr (v5_view p)"
proof (cases p)
  case (ConnPkt c)
  then show ?thesis
    using assms decodeV5_conn_body [of c] by (simp add: decodeV5Packet_def has_will_def)
next
  case (SubscribePkt s)
  then show ?thesis
    using assms topics_loop_encode [of "sub_Topics s"]
    by (simp add: decodeV5Packet_def decodeV5_subscribe_def subscribe_payload_def)
next
  case (UnsubPkt s)
  then show ?thesis
    using assms names_loop_encode [of "unsub_TopicNames s"]
    by (simp add: decodeV5Packet_def decodeV5_unsub_def unsub_payload_def)
qed (use assms in \<open>simp_all add: decodeV5Packet_def decodeV5_connack_def go_index_def slice_from_eq
      decodeV5_suback_def decodeV5_unsuback_def decodeV5_auth_def decodeV5_ack_def boolToByte_def
      is_v5_def be16_def getUint16_be16 [unfolded be16_def, simplified]\<close>)

section \<open>The round trip at MQTT 5\<close>

lemma v5_body_length:
  assumes "is_v5 p" and "packet_Type p \<noteq> CtrlPublish" and "packet_Type p \<noteq> CtrlDisConn"
  shows "2 \<le> length (v5_header p @ 0 # v5_payload p)"
  using assms by (cases p) (simp_all add: is_v5_def)

text \<open>
  C3: at MQTT 5 the packets other than \<open>PUBLISH\<close>, \<open>DISCONNECT\<close>, the pings and a \<open>CONNECT\<close> with a will
  come back from the wire with all their fields, except that their properties are lost (they decode
  to the empty property record) and that the reason code of a publish acknowledgement reads 0. This
  covers every property record of every packet but \<open>SUBSCRIBE\<close> (whose properties must be empty here)
  as long as no optional boolean of a \<open>CONNECT\<close> or \<open>CONNACK\<close> record is left nil.
\<close>
theorem v5_round_trip:
  assumes "is_v5 p" and "v311_fits p" and "\<not> has_will p"
    and "packet_Type p \<noteq> CtrlPublish" and "packet_Type p \<noteq> CtrlDisConn"
    and "v5_props p = Inr []"
    and "int (length (v5_header p @ 0 # v5_payload p)) \<le> maxMsgSize"
  shows "\<exists>bs. packet_Bytes p = Inr bs \<and> Decode g V5 (bs @ rest) = (Inr (v5_view p), rest)"
proof -
  have "packet_Bytes p = Inr (enc (v311_first p) (v5_header p @ 0 # v5_payload p))"
    using assms by (intro packet_Bytes_v5)
  moreover have "Decode g V5 (enc (v311_first p) (v5_header p @ 0 # v5_payload p) @ rest) =
      (Inr (v5_view p), rest)"
    using Decode_enc [OF assms(7) v5_body_length [OF assms(1,4,5)]] decodeV5Packet_body [OF assms(1-5)]
    by simp
  ultimately show ?thesis
    by blast
qed

lemma v5_round_trip_witness:
  "\<exists>bs. packet_Bytes (PubAckPkt \<lparr>puback_ProtoVersion = 5, puback_PacketID = 7, puback_Code = 0x87,
       puback_Props = Some \<lparr>rp_Reason = [0x6E, 0x6F], rp_UserProps = Some [([0x61], [[0x62]])]\<rparr>\<rparr>) = Inr bs \<and>
     Decode ping_vars_init V5 (bs @ []) =
       (Inr (v5_view (PubAckPkt \<lparr>puback_ProtoVersion = 5, puback_PacketID = 7, puback_Code = 0x87,
       puback_Props = Some \<lparr>rp_Reason = [0x6E, 0x6F], rp_UserProps = Some [([0x61], [[0x62]])]\<rparr>\<rparr>)), [])"
  by (rule v5_round_trip)
    (simp_all add: is_v5_def packet_Version_def base_Version_def maxMsgSize_def has_will_def)

text \<open>
  An MQTT 5 \<open>PUBLISH\<close> does not round-trip. Its properties are written before the topic, where the
  decoder looks for the topic's length; whatever the decoder accepts, the topic it reports has a
  256th of the length of the one sent (so any topic shorter than 256 bytes decodes as empty).
\<close>
theorem v5_publish_loses_topic:
  assumes "pub_ProtoVersion p = V5" and "v311_fits (PublishPkt p)"
    and "int (length (publish_payload p)) < maxMsgSize"
  shows "\<exists>bs. packet_Bytes (PublishPkt p) = Inr bs \<and>
    (\<forall>q r. Decode g V5 (bs @ rest) = (Inr (PublishPkt q), r) \<longrightarrow>
       length (pub_TopicName q) = length (pub_TopicName p) div 256)"
proof -
  let ?body = "0 # publish_payload p" and ?l = "length (pub_TopicName p)"
  have size: "int (length ?body) \<le> maxMsgSize" and two: "2 \<le> length ?body"
    using assms(3) publish_payload_length [of p] by simp_all
  have bs: "packet_Bytes (PublishPkt p) = Inr (enc (publish_first p) ?body)"
    using packet_Bytes_v5 [of "PublishPkt p"] assms(1) size
    by (simp add: is_v5_def packet_Version_def base_Version_def has_will_def)
  obtain more where pl: "publish_payload p = of_nat (drop_bit 8 ?l) # of_nat ?l # more"
    by (cases "pub_Qos p > Qos0") (auto simp: publish_payload_def encodeBytesWithLen_def Let_def)
  have len: "length name = ?l div 256" if "getBinaryData ?body = Inr (name, more)" for name more
  proof -
    have "?l div 256 < 256"
      using assms(2) by auto
    then have "(ucast (of_nat (drop_bit 8 ?l) :: byte) :: u16) = of_nat (?l div 256)"
      by (simp add: drop_bit_eq_div word_unat_eq_iff unat_of_nat unsigned_ucast_eq take_bit_nat_eq_self)
    then have "getUint16 ?body = Inr (of_nat (?l div 256))"
      by (simp add: getUint16_def pl)
    then show ?thesis
      using that assms(2)
      by (auto simp: getBinaryData_def Let_def unat_of_nat split: if_splits)
  qed
  have topic: "length (pub_TopicName q) = ?l div 256"
    if "decodeV5Packet (publish_first p) ?body = Inr (PublishPkt q)" for q
  proof -
    have "drop_bit 4 (publish_first p) = 3"
      using assms(2) by (intro publish_first_read) simp
    then have "decodeV5_publish (publish_first p) ?body = Inr (PublishPkt q)"
      using that by (simp add: decodeV5Packet_def)
    then show ?thesis
      using len by (auto simp: decodeV5_publish_def rbind_Inr_iff Let_def bad_def split: if_splits)
  qed
  show ?thesis
    using bs Decode_enc [OF size two, of g V5 "publish_first p" rest] topic by auto
qed

lemma v5_publish_loses_topic_witness:
  "\<exists>bs. packet_Bytes (PublishPkt (publish_packet_zero\<lparr>pub_ProtoVersion := 5,
       pub_TopicName := [0x61, 0x62], pub_Qos := 1\<rparr>)) = Inr bs \<and>
    (\<forall>q r. Decode ping_vars_init V5 (bs @ []) = (Inr (PublishPkt q), r) \<longrightarrow>
       length (pub_TopicName q) = 0)"
proof -
  let ?p = "publish_packet_zero\<lparr>pub_ProtoVersion := 5, pub_TopicName := [0x61, 0x62], pub_Qos := 1\<rparr>"
  have "\<exists>bs. packet_Bytes (PublishPkt ?p) = Inr bs \<and>
    (\<forall>q r. Decode ping_vars_init V5 (bs @ []) = (Inr (PublishPkt q), r) \<longrightarrow>
       length (pub_TopicName q) = length (pub_TopicName ?p) div 256)"
    by (rule v5_publish_loses_topic)
      (simp_all add: publish_packet_zero_def maxMsgSize_def publish_payload_def)
  then show ?thesis
    by simp
qed

text \<open>
  Every MQTT 5 \<open>DISCONNECT\<close>, whatever its reason code and properties, is written as the same
  three bytes, and \<open>Decode\<close> rejects them: a body of one byte is too short for it. It also leaves
  that byte in the stream, so the reader is out of step afterwards.
\<close>
theorem v5_disconnect_rejected:
  assumes "disconn_ProtoVersion d = V5"
  shows "packet_Bytes (DisconnPkt d) = Inr [0xE0, 1, 0] \<and>
    Decode g V5 ([0xE0, 1, 0] @ rest) = (Inl (GoErr ErrDecodeBadPacket), 0 # rest)"
proof -
  have "packet_Bytes (DisconnPkt d) = Inr (enc 0xE0 [0])"
    using packet_Bytes_v5 [of "DisconnPkt d"] assms
    by (simp add: is_v5_def packet_Version_def base_Version_def has_will_def maxMsgSize_def)
  moreover have "enc 0xE0 [0] = [0xE0, 1, 0]"
    by (simp add: enc_def frame_def varIntBytes_def maxMsgSize_def)
  ultimately show ?thesis
    using Decode_enc_one [of g V5 "0xE0" 0 rest] by (simp add: bad_def)
qed

lemma v5_disconnect_rejected_witness:
  "packet_Bytes (DisconnPkt \<lparr>disconn_ProtoVersion = 5, disconn_Code = 0x8E, disconn_Props = None\<rparr>) =
     Inr [0xE0, 1, 0] \<and>
   Decode ping_vars_init V5 ([0xE0, 1, 0] @ [0xD0, 0]) = (Inl (GoErr ErrDecodeBadPacket), 0 # [0xD0, 0])"
  by (rule v5_disconnect_rejected) simp

lemma base_writeV5_no_panic [simp]: "snd (base_writeV5 bytes_Buffer w first vh ps pl) \<noteq> Some Panic"
  by (simp add: base_writeV5_def buffer.base_write_result split: sum.split)

lemma conn_payload_returns: "\<exists>pl. conn_payload c = Inr pl"
  by (auto simp: conn_payload_def props_empty Let_def rbind_Inr_iff split: option.split prod.split)

text \<open>
  A \<open>CONNECT\<close> or \<open>CONNACK\<close> at MQTT 5 whose property record leaves one of its optional booleans nil
  cannot be encoded: \<open>WriteTo\<close> dereferences the nil pointer and panics. With all of them set it never
  panics. (The zero records, and every record the decoder makes of a packet without these
  properties, are of the first sort.)
\<close>
theorem v5_nil_flag_panics:
  "(packet_Bytes (ConnPkt (c\<lparr>conn_ProtoVersion := V5, conn_Props := Some cp\<rparr>)) = Inl Panic) =
     (cp_ReqRespInfo cp = None \<or> cp_ReqProblemInfo cp = None) \<and>
   (packet_Bytes (ConnAckPkt (a\<lparr>connack_ProtoVersion := V5, connack_Props := Some ca\<rparr>)) = Inl Panic) =
     (ca_RetainAvail ca = None \<or> ca_WildcardSubAvail ca = None \<or> ca_SubIDAvail ca = None \<or>
      ca_SharedSubAvail ca = None)"
proof -
  have panic: "packet_Bytes p = Inl Panic \<longleftrightarrow> snd (fst (packet_WriteTo bytes_Buffer [] p)) = Some Panic" for p
    by (auto simp: packet_Bytes_def split: prod.splits option.splits fault.splits)
  obtain pl where "conn_payload (conn_forced (c\<lparr>conn_ProtoVersion := V5, conn_Props := Some cp\<rparr>)) = Inr pl"
    using conn_payload_returns by blast
  then show ?thesis
    unfolding panic
    by (simp add: conn_WriteTo_def conn_flags_eq connack_WriteTo_def connProps_props_eq
        connAckProps_props_eq Let_def)
qed

end
