(* ===== verification/Persist.thy ===== *)
theory Persist
  imports Property_Set
begin

text \<open>
  \<open>src/persist.go\<close>: the \<open>PersistMethod\<close> interface, \<open>nonePersist\<close> and \<open>memPersist\<close>; and the two key
  functions of \<open>src/util.go\<close>. The interface is a record of functions and its contract the locale
  \<open>persist_method\<close>; \<open>reliable_persist\<close> adds that a successful store can be read back. Both packet
  stores of this theory are interpretations; the file store (next theory) is not one.

  Packets are values of a type variable here (the code stores pointers). \<open>None\<close> is the nil packet.
  A \<open>sync.Map\<close> is an association list in the order in which its \<open>Range\<close> visits it (which Go leaves
  open). The last section runs the atomic steps of concurrent \<open>Store\<close> calls in any interleaving.
\<close>

section \<open>Keys\<close>

text \<open>\<open>fmt.Sprintf\<close> of a letter and a decimal number.\<close>

function decimal :: "nat \<Rightarrow> gostring" where
  "decimal n = (if n < 10 then [of_nat (48 + n)] else decimal (n div 10) @ [of_nat (48 + n mod 10)])"
  by pat_completeness auto
termination
  by (relation "measure id") auto

declare decimal.simps [simp del]

definition recvKey :: "u16 \<Rightarrow> gostring" where
  "recvKey packetID = 0x52 # decimal (unat packetID)"

definition sendKey :: "u16 \<Rightarrow> gostring" where
  "sendKey packetID = 0x53 # decimal (unat packetID)"

definition digits_value :: "gostring \<Rightarrow> nat" where
  "digits_value ds = foldl (\<lambda>n d. 10 * n + (unat d - 48)) 0 ds"

lemma unat_digit: "d < 10 \<Longrightarrow> unat (of_nat (48 + d) :: byte) = 48 + d"
  by (rule unat_of_nat_small) simp

lemma digits_value_decimal: "digits_value (decimal n) = n"
proof (induction n rule: decimal.induct)
  case (1 n)
  show ?case
  proof (cases "n < 10")
    case True
    then show ?thesis
      using unat_digit [OF True] by (subst decimal.simps) (simp add: digits_value_def)
  next
    case False
    have "unat (of_nat (48 + n mod 10) :: byte) = 48 + n mod 10"
      by (rule unat_digit) simp
    then show ?thesis
      using 1 [OF False] False by (subst decimal.simps) (simp add: digits_value_def)
  qed
qed

lemma decimal_inject [simp]: "decimal m = decimal n \<longleftrightarrow> m = n"
  by (metis digits_value_decimal)

lemma sendKey_inject [simp]: "sendKey i = sendKey j \<longleftrightarrow> i = j"
  by (simp add: sendKey_def word_unat_eq_iff)

lemma recvKey_inject [simp]: "recvKey i = recvKey j \<longleftrightarrow> i = j"
  by (simp add: recvKey_def word_unat_eq_iff)

lemma sendKey_recvKey [simp]: "sendKey i \<noteq> recvKey j" "recvKey j \<noteq> sendKey i"
  by (simp_all add: sendKey_def recvKey_def)

section \<open>The interface\<close>

text \<open>The methods of \<open>PersistMethod\<close> on a state; \<open>Load\<close> returns the packet and its second result.\<close>

record ('s, 'p) persist_method =
  pm_Name :: "'s \<Rightarrow> string"
  pm_Store :: "'s \<Rightarrow> gostring \<Rightarrow> 'p option \<Rightarrow> 's \<times> goerr option"
  pm_Load :: "'s \<Rightarrow> gostring \<Rightarrow> 'p option \<times> bool"
  pm_Delete :: "'s \<Rightarrow> gostring \<Rightarrow> 's \<times> goerr option"
  pm_Destroy :: "'s \<Rightarrow> 's \<times> goerr option"

definition found :: "('s, 'p) persist_method \<Rightarrow> 's \<Rightarrow> gostring \<Rightarrow> 'p option option" where
  "found M s k = (case pm_Load M s k of (p, ok) \<Rightarrow> if ok then Some p else None)"

datatype 'p persist_op = OpStore gostring "'p option" | OpDelete gostring | OpDestroy

fun run_op :: "('s, 'p) persist_method \<Rightarrow> 's \<Rightarrow> 'p persist_op \<Rightarrow> 's \<times> goerr option" where
  "run_op M s (OpStore k p) = pm_Store M s k p"
| "run_op M s (OpDelete k) = pm_Delete M s k"
| "run_op M s OpDestroy = pm_Destroy M s"

fun run_ops :: "('s, 'p) persist_method \<Rightarrow> 's \<Rightarrow> 'p persist_op list \<Rightarrow> 's \<times> goerr option list" where
  "run_ops M s [] = (s, [])"
| "run_ops M s (op # ops) =
     (case run_op M s op of (s, e) \<Rightarrow> case run_ops M s ops of (s, es) \<Rightarrow> (s, e # es))"

text \<open>The packets a key may hold after a sequence of calls that all succeeded, from what it held before.\<close>

fun may_hold :: "gostring \<Rightarrow> 'p option set \<Rightarrow> 'p persist_op list \<Rightarrow> 'p option set" where
  "may_hold k ps [] = ps"
| "may_hold k ps (OpStore k' p # ops) = may_hold k (if k' = k then insert p ps else ps) ops"
| "may_hold k ps (OpDelete k' # ops) = may_hold k (if k' = k then {} else ps) ops"
| "may_hold k ps (OpDestroy # ops) = may_hold k {} ops"

text \<open>The packet it must hold, if every store replaces.\<close>

fun must_hold :: "gostring \<Rightarrow> 'p option option \<Rightarrow> 'p persist_op list \<Rightarrow> 'p option option" where
  "must_hold k p [] = p"
| "must_hold k p (OpStore k' q # ops) = must_hold k (if k' = k then Some q else p) ops"
| "must_hold k p (OpDelete k' # ops) = must_hold k (if k' = k then None else p) ops"
| "must_hold k p (OpDestroy # ops) = must_hold k None ops"

locale persist_laws =
  fixes M :: "('s, 'p) persist_method" and inv :: "'s \<Rightarrow> bool"
  assumes inv_op: "inv s \<Longrightarrow> inv (fst (run_op M s op))"
    and store_other: "inv s \<Longrightarrow> k' \<noteq> k \<Longrightarrow> found M (fst (pm_Store M s k p)) k' = found M s k'"
    and store_same: "inv s \<Longrightarrow> found M (fst (pm_Store M s k p)) k \<in> {found M s k, Some p}"
    and store_error: "inv s \<Longrightarrow> pm_Store M s k p = (s', Some e) \<Longrightarrow> s' = s"
    and delete: "inv s \<Longrightarrow> pm_Delete M s k = (s', None) \<Longrightarrow>
      found M s' k' = (if k' = k then None else found M s k')"
    and destroy: "inv s \<Longrightarrow> pm_Destroy M s = (s', None) \<Longrightarrow> found M s' k = None"
begin

lemma run_ops_may_hold:
  assumes "inv s" and "run_ops M s ops = (s', es)" and "\<forall>e \<in> set es. e = None"
    and "\<And>p. found M s k = Some p \<Longrightarrow> p \<in> ps" and "found M s' k = Some p"
  shows "p \<in> may_hold k ps ops"
  using assms
proof (induction ops arbitrary: s es ps)
  case Nil
  then show ?case
    by simp
next
  case (Cons op ops)
  obtain s1 e where s1: "run_op M s op = (s1, e)"
    by fastforce
  obtain es' where es': "run_ops M s1 ops = (s', es')" and es: "es = e # es'"
    using Cons.prems(2) s1 by (auto split: prod.splits)
  then have e: "e = None" and ok: "\<forall>e \<in> set es'. e = None"
    using Cons.prems(3) by auto
  have inv: "inv s1"
    using inv_op [OF Cons.prems(1), of op] s1 by simp
  note IH = Cons.IH [OF inv es' ok _ Cons.prems(5)]
  show ?case
  proof (cases op)
    case (OpStore k1 q)
    then have "fst (pm_Store M s k1 q) = s1"
      using s1 by simp
    then have "q1 \<in> (if k1 = k then insert q ps else ps)" if "found M s1 k = Some q1" for q1
      using that store_same [OF Cons.prems(1), of k1 q] store_other [OF Cons.prems(1), of k k1 q]
        Cons.prems(4) by (cases "k1 = k") auto
    then show ?thesis
      using IH OpStore by simp
  next
    case (OpDelete k1)
    then have "q1 \<in> (if k1 = k then {} else ps)" if "found M s1 k = Some q1" for q1
      using that s1 e delete [OF Cons.prems(1), of k1 s1 k] Cons.prems(4) by (auto split: if_splits)
    then show ?thesis
      using IH OpDelete by simp
  next
    case OpDestroy
    then have "q1 \<in> {}" if "found M s1 k = Some q1" for q1
      using that s1 e destroy [OF Cons.prems(1), of s1 k] by simp
    then show ?thesis
      using IH [of "{}"] OpDestroy by auto
  qed
qed

end

locale reliable_persist = persist_laws +
  assumes store_found: "inv s \<Longrightarrow> pm_Store M s k p = (s', None) \<Longrightarrow> found M s' k = Some p"
begin

lemma run_ops_must_hold:
  assumes "inv s" and "run_ops M s ops = (s', es)" and "\<forall>e \<in> set es. e = None"
  shows "found M s' k = must_hold k (found M s k) ops"
  using assms
proof (induction ops arbitrary: s es)
  case Nil
  then show ?case
    by simp
next
  case (Cons op ops)
  obtain s1 e where s1: "run_op M s op = (s1, e)"
    by fastforce
  obtain es' where es': "run_ops M s1 ops = (s', es')" and es: "es = e # es'"
    using Cons.prems(2) s1 by (auto split: prod.splits)
  then have e: "e = None" and ok: "\<forall>e \<in> set es'. e = None"
    using Cons.prems(3) by auto
  have inv: "inv s1"
    using inv_op [OF Cons.prems(1), of op] s1 by simp
  have "found M s' k = must_hold k (found M s1 k) ops"
    using Cons.IH [OF inv es' ok] .
  moreover have "must_hold k (found M s1 k) ops = must_hold k (found M s k) (op # ops)"
    using s1 e store_other [OF Cons.prems(1)] store_found [OF Cons.prems(1)]
      delete [OF Cons.prems(1)] destroy [OF Cons.prems(1)]
    by (cases op) (auto, metis fst_conv)
  ultimately show ?case
    by simp
qed

end

section \<open>nonePersist\<close>

definition NonePersist :: "(unit, 'p) persist_method" where
  "NonePersist = \<lparr>pm_Name = (\<lambda>_. ''nonePersist''), pm_Store = (\<lambda>s _ _. (s, None)),
     pm_Load = (\<lambda>_ _. (None, False)), pm_Delete = (\<lambda>s _. (s, None)), pm_Destroy = (\<lambda>s. (s, None))\<rparr>"

interpretation none_persist: persist_laws NonePersist "\<lambda>_. True"
  by unfold_locales (simp_all add: NonePersist_def found_def)

section \<open>memPersist\<close>

text \<open>\<open>Interval\<close> is a duration in nanoseconds.\<close>

record persist_strategy =
  ps_Interval :: int
  ps_MaxCount :: u32
  ps_DropOnExceed :: bool
  ps_DuplicateReplace :: bool

definition defaultPersistStrategy :: persist_strategy where
  "defaultPersistStrategy = \<lparr>ps_Interval = 1000000000, ps_MaxCount = 0, ps_DropOnExceed = False,
     ps_DuplicateReplace = True\<rparr>"

type_synonym 'p sync_map = "(gostring \<times> 'p option) list"

record 'p mem_persist =
  mem_data :: "'p sync_map"
  mem_n :: u32
  mem_strategy :: persist_strategy

definition NewMemPersist :: "persist_strategy option \<Rightarrow> 'p mem_persist option" where
  "NewMemPersist strategy = Some \<lparr>mem_data = [], mem_n = 0,
     mem_strategy = (case strategy of None \<Rightarrow> defaultPersistStrategy | Some s \<Rightarrow> s)\<rparr>"

definition mem_Name :: "'p mem_persist option \<Rightarrow> string" where
  "mem_Name m = (case m of None \<Rightarrow> ''<nil>'' | Some m \<Rightarrow> ''MemPersist'')"

text \<open>The test at the start of \<open>Store\<close>, and the two writes after \<open>LoadOrStore\<close>.\<close>

definition mem_drops :: "'p mem_persist \<Rightarrow> bool" where
  "mem_drops m \<longleftrightarrow> ps_MaxCount (mem_strategy m) > 0 \<and> mem_n m \<ge> ps_MaxCount (mem_strategy m) \<and>
     ps_DropOnExceed (mem_strategy m)"

definition mem_Store ::
  "'p mem_persist option \<Rightarrow> gostring \<Rightarrow> 'p option \<Rightarrow> 'p mem_persist option \<times> goerr option" where
  "mem_Store m key p = (case m of
       None \<Rightarrow> (None, None)
     | Some m \<Rightarrow>
         if mem_drops m then (Some m, Some ErrPacketDroppedByStrategy)
         else if map_of (mem_data m) key = None
         then (Some (m\<lparr>mem_data := map_put key p (mem_data m), mem_n := mem_n m + 1\<rparr>), None)
         else if ps_DuplicateReplace (mem_strategy m)
         then (Some (m\<lparr>mem_data := map_put key p (mem_data m)\<rparr>), None)
         else (Some m, None))"

definition mem_Load :: "'p mem_persist option \<Rightarrow> gostring \<Rightarrow> 'p option \<times> bool" where
  "mem_Load m key = (case m of
       None \<Rightarrow> (None, False)
     | Some m \<Rightarrow>
         (case map_of (mem_data m) key of
            Some p \<Rightarrow> (case p of Some q \<Rightarrow> (Some q, True) | None \<Rightarrow> (None, True))
          | None \<Rightarrow> (None, False)))"

text \<open>
  \<open>Range\<close> with a callback that threads a state and returns false to stop. A nil packet in the map
  panics (\<open>value.(Packet)\<close>).
\<close>

fun sync_range :: "(gostring \<Rightarrow> 'p \<Rightarrow> 'a \<Rightarrow> bool \<times> 'a) \<Rightarrow> 'p sync_map \<Rightarrow> 'a \<Rightarrow> 'a res" where
  "sync_range f [] a = Inr a"
| "sync_range f ((k, None) # m) a = Inl Panic"
| "sync_range f ((k, Some p) # m) a =
     (case f k p a of (go, a) \<Rightarrow> if go then sync_range f m a else Inr a)"

definition mem_Range ::
  "'p mem_persist option \<Rightarrow> (gostring \<Rightarrow> 'p \<Rightarrow> 'a \<Rightarrow> bool \<times> 'a) option \<Rightarrow> 'a \<Rightarrow> 'a res" where
  "mem_Range m f a = (case (m, f) of
       (Some m, Some f) \<Rightarrow> sync_range f (mem_data m) a
     | _ \<Rightarrow> Inr a)"

definition mem_Delete :: "'p mem_persist option \<Rightarrow> gostring \<Rightarrow> 'p mem_persist option \<times> goerr option" where
  "mem_Delete m key = (map_option (\<lambda>m. m\<lparr>mem_data := map_del key (mem_data m)\<rparr>) m, None)"

definition mem_Destroy :: "'p mem_persist option \<Rightarrow> 'p mem_persist option \<times> goerr option" where
  "mem_Destroy m = (map_option (\<lambda>m. m\<lparr>mem_data := []\<rparr>) m, None)"

definition MemPersist :: "('p mem_persist option, 'p) persist_method" where
  "MemPersist = \<lparr>pm_Name = mem_Name, pm_Store = mem_Store, pm_Load = mem_Load,
     pm_Delete = mem_Delete, pm_Destroy = mem_Destroy\<rparr>"

lemma MemPersist_simps [simp]:
  "pm_Store MemPersist = mem_Store" "pm_Load MemPersist = mem_Load"
  "pm_Delete MemPersist = mem_Delete" "pm_Destroy MemPersist = mem_Destroy"
  by (simp_all add: MemPersist_def)

lemma found_MemPersist:
  "found MemPersist m k = (case m of None \<Rightarrow> None | Some m \<Rightarrow> map_of (mem_data m) k)"
  by (simp add: found_def mem_Load_def split: option.split)

text \<open>What holds between operations: keys are unique; \<open>replacing\<close> fixes the strategy's duplicate rule.\<close>

definition mem_ok :: "'p mem_persist option \<Rightarrow> bool" where
  "mem_ok m \<longleftrightarrow> (case m of None \<Rightarrow> True | Some m \<Rightarrow> distinct (map fst (mem_data m)))"

definition replacing :: "'p mem_persist option \<Rightarrow> bool" where
  "replacing m \<longleftrightarrow> mem_ok m \<and> (case m of None \<Rightarrow> False | Some m \<Rightarrow> ps_DuplicateReplace (mem_strategy m))"

lemma distinct_map_del: "distinct (map fst m) \<Longrightarrow> distinct (map fst (map_del k m))"
  unfolding map_del_def by (induction m) auto

lemma mem_ok_op: "mem_ok m \<Longrightarrow> mem_ok (fst (run_op MemPersist m op))"
  by (cases op)
    (auto simp: mem_ok_def mem_Store_def mem_Delete_def mem_Destroy_def
      distinct_map_put distinct_map_del split: option.split)

lemma mem_strategy_op:
  "map_option mem_strategy (fst (run_op MemPersist m op)) = map_option mem_strategy m"
  by (cases op; cases m) (auto simp: mem_Store_def mem_Delete_def mem_Destroy_def)

lemma replacing_op: "replacing m \<Longrightarrow> replacing (fst (run_op MemPersist m op))"
  using mem_ok_op [of m op] mem_strategy_op [of m op]
  by (cases m; cases "fst (run_op MemPersist m op)") (auto simp: replacing_def)

interpretation mem_persist: persist_laws MemPersist mem_ok
proof
  fix s s' :: "'a mem_persist option" and op :: "'a persist_op" and k k' :: gostring
    and p :: "'a option" and e :: goerr
  assume ok: "mem_ok s"
  show "mem_ok (fst (run_op MemPersist s op))"
    using ok by (rule mem_ok_op)
  show "found MemPersist (fst (pm_Store MemPersist s k p)) k' = found MemPersist s k'" if "k' \<noteq> k"
    using that by (auto simp: found_MemPersist mem_Store_def split: option.split)
  show "found MemPersist (fst (pm_Store MemPersist s k p)) k \<in> {found MemPersist s k, Some p}"
    by (auto simp: found_MemPersist mem_Store_def split: option.split)
  show "s' = s" if "pm_Store MemPersist s k p = (s', Some e)"
    using that by (auto simp: mem_Store_def split: option.splits if_splits)
  show "found MemPersist s' k' = (if k' = k then None else found MemPersist s k')"
    if "pm_Delete MemPersist s k = (s', None)"
    using that by (auto simp: found_MemPersist mem_Delete_def split: option.splits)
  show "found MemPersist s' k = None" if "pm_Destroy MemPersist s = (s', None)"
    using that by (auto simp: found_MemPersist mem_Destroy_def split: option.splits)
qed

interpretation mem_replacing: reliable_persist MemPersist replacing
proof
  fix s s' :: "'a mem_persist option" and op :: "'a persist_op" and k k' :: gostring
    and p :: "'a option" and e :: goerr
  assume r: "replacing s"
  then have ok: "mem_ok s"
    by (simp add: replacing_def)
  show "replacing (fst (run_op MemPersist s op))"
    using r by (rule replacing_op)
  show "found MemPersist (fst (pm_Store MemPersist s k p)) k' = found MemPersist s k'" if "k' \<noteq> k"
    using that by (rule mem_persist.store_other [OF ok])
  show "found MemPersist (fst (pm_Store MemPersist s k p)) k \<in> {found MemPersist s k, Some p}"
    by (rule mem_persist.store_same [OF ok])
  show "s' = s" if "pm_Store MemPersist s k p = (s', Some e)"
    using that by (rule mem_persist.store_error [OF ok])
  show "found MemPersist s' k' = (if k' = k then None else found MemPersist s k')"
    if "pm_Delete MemPersist s k = (s', None)"
    using that by (rule mem_persist.delete [OF ok])
  show "found MemPersist s' k = None" if "pm_Destroy MemPersist s = (s', None)"
    using that by (rule mem_persist.destroy [OF ok])
  show "found MemPersist s' k = Some p" if "pm_Store MemPersist s k p = (s', None)"
    using that r
    by (auto simp: found_MemPersist mem_Store_def replacing_def
        split: option.splits if_splits)
qed

text \<open>
  C15: a memory store with \<open>DuplicateReplace\<close> is a map: after any sequence of calls that all succeeded,
  starting from \<open>NewMemPersist\<close>, a key is found exactly if it was stored and neither deleted nor
  destroyed since, and holds the packet stored last.
\<close>
theorem mem_persist_is_a_map:
  assumes "ps_DuplicateReplace strategy"
    and "run_ops MemPersist (NewMemPersist (Some strategy)) ops = (s', es)" and "\<forall>e \<in> set es. e = None"
  shows "found MemPersist s' k = must_hold k None ops"
proof -
  have "replacing (NewMemPersist (Some strategy))"
    using assms(1) by (simp add: replacing_def mem_ok_def NewMemPersist_def)
  from mem_replacing.run_ops_must_hold [OF this assms(2,3)] show ?thesis
    by (simp add: found_MemPersist NewMemPersist_def)
qed

lemma mem_persist_is_a_map_witness:
  "found MemPersist (fst (run_ops MemPersist (NewMemPersist (Some defaultPersistStrategy))
      [OpStore [1] (Some (7 :: nat)), OpStore [2] (Some 8), OpStore [1] (Some 9), OpDelete [2]])) [1] =
   must_hold [1] None
      [OpStore [1] (Some (7 :: nat)), OpStore [2] (Some 8), OpStore [1] (Some 9), OpDelete [2]]"
  by (rule mem_persist_is_a_map [of defaultPersistStrategy _ _ "[None, None, None, None]"])
    (simp_all add: defaultPersistStrategy_def NewMemPersist_def mem_Store_def mem_Delete_def
      mem_drops_def)

lemma mem_drops_op:
  assumes "mem_drops m"
  shows "\<exists>m'. fst (run_op MemPersist (Some m) op) = Some m' \<and> mem_drops m'"
  using assms by (cases op) (auto simp: mem_Store_def mem_Delete_def mem_Destroy_def mem_drops_def)

text \<open>
  Once a memory store has reached its \<open>MaxCount\<close> and drops, it drops for ever: the counter is not
  lowered by \<open>Delete\<close> or \<open>Destroy\<close>, so after any further calls, even ones that emptied it, each
  \<open>Store\<close> still fails and changes nothing.
\<close>
theorem mem_persist_full_for_ever:
  assumes "mem_drops m"
  shows "pm_Store MemPersist (fst (run_ops MemPersist (Some m) ops)) k p =
    (fst (run_ops MemPersist (Some m) ops), Some ErrPacketDroppedByStrategy)"
  using assms
proof (induction ops arbitrary: m)
  case Nil
  then show ?case
    by (simp add: mem_Store_def)
next
  case (Cons op ops)
  obtain m' e where m': "run_op MemPersist (Some m) op = (Some m', e)" and d: "mem_drops m'"
    using mem_drops_op [OF Cons.prems, of op] by (cases "run_op MemPersist (Some m) op") auto
  show ?case
    using Cons.IH [OF d] m' by (cases "run_ops MemPersist (Some m') ops") simp
qed

lemma mem_persist_full_for_ever_witness:
  "pm_Store MemPersist (fst (run_ops MemPersist (Some \<lparr>mem_data = [([1], Some (7 :: nat))], mem_n = 1,
      mem_strategy = \<lparr>ps_Interval = 0, ps_MaxCount = 1, ps_DropOnExceed = True,
        ps_DuplicateReplace = True\<rparr>\<rparr>) [OpDestroy])) [2] None =
   (fst (run_ops MemPersist (Some \<lparr>mem_data = [([1], Some (7 :: nat))], mem_n = 1,
      mem_strategy = \<lparr>ps_Interval = 0, ps_MaxCount = 1, ps_DropOnExceed = True,
        ps_DuplicateReplace = True\<rparr>\<rparr>) [OpDestroy]), Some ErrPacketDroppedByStrategy)"
  by (rule mem_persist_full_for_ever) (simp add: mem_drops_def)

section \<open>Concurrent stores\<close>

text \<open>
  \<open>Store\<close> is not atomic: it loads the counter, does \<open>LoadOrStore\<close>, and then increments the counter or
  stores again. Each of these is one atomic step of the goroutine that runs the call.
\<close>

datatype store_pc = PcTest | PcLoadOrStore | PcAdd | PcReplace | PcDone "goerr option"

type_synonym 'p store_call = "gostring \<times> 'p option \<times> store_pc"

fun store_step :: "'p mem_persist \<Rightarrow> 'p store_call \<Rightarrow> ('p mem_persist \<times> 'p store_call) option" where
  "store_step m (key, p, PcTest) =
     Some (m, key, p, if mem_drops m then PcDone (Some ErrPacketDroppedByStrategy) else PcLoadOrStore)"
| "store_step m (key, p, PcLoadOrStore) =
     (if map_of (mem_data m) key = None
      then Some (m\<lparr>mem_data := map_put key p (mem_data m)\<rparr>, key, p, PcAdd)
      else Some (m, key, p,
             if ps_DuplicateReplace (mem_strategy m) then PcReplace else PcDone None))"
| "store_step m (key, p, PcAdd) = Some (m\<lparr>mem_n := mem_n m + 1\<rparr>, key, p, PcDone None)"
| "store_step m (key, p, PcReplace) =
     Some (m\<lparr>mem_data := map_put key p (mem_data m)\<rparr>, key, p, PcDone None)"
| "store_step m (key, p, PcDone e) = None"

text \<open>A call that no other one interrupts, to its end.\<close>

fun pc_left :: "store_pc \<Rightarrow> nat" where
  "pc_left PcTest = 3"
| "pc_left PcLoadOrStore = 2"
| "pc_left (PcDone e) = 0"
| "pc_left _ = 1"

lemma store_step_left: "store_step m c = Some (m', c') \<Longrightarrow> pc_left (snd (snd c')) < pc_left (snd (snd c))"
  by (induction m c rule: store_step.induct) (auto split: if_splits)

function store_run :: "'p mem_persist \<Rightarrow> 'p store_call \<Rightarrow> 'p mem_persist \<times> 'p store_call" where
  "store_run m c = (case store_step m c of None \<Rightarrow> (m, c) | Some (m', c') \<Rightarrow> store_run m' c')"
  by pat_completeness auto
termination
  by (relation "measure (\<lambda>(m, c). pc_left (snd (snd c)))") (auto dest!: store_step_left)

declare store_run.simps [simp del]

lemma store_run_simps [simp]:
  "store_run m (key, p, PcTest) =
     store_run m (key, p, if mem_drops m then PcDone (Some ErrPacketDroppedByStrategy) else PcLoadOrStore)"
  "store_run m (key, p, PcLoadOrStore) =
     (if map_of (mem_data m) key = None then store_run (m\<lparr>mem_data := map_put key p (mem_data m)\<rparr>) (key, p, PcAdd)
      else store_run m (key, p, if ps_DuplicateReplace (mem_strategy m) then PcReplace else PcDone None))"
  "store_run m (key, p, PcAdd) = (m\<lparr>mem_n := mem_n m + 1\<rparr>, key, p, PcDone None)"
  "store_run m (key, p, PcReplace) = (m\<lparr>mem_data := map_put key p (mem_data m)\<rparr>, key, p, PcDone None)"
  "store_run m (key, p, PcDone e) = (m, key, p, PcDone e)"
  by (subst store_run.simps; simp add: store_run.simps [of _ "(_, _, PcDone _)"])+

text \<open>
  The two models of the memory store agree: a \<open>Store\<close> call that runs alone, step by step, ends, and
  leaves the store and returns the error that the sequential \<open>Store\<close> does, on every branch.
\<close>
theorem mem_store_steps:
  "store_run m (key, p, PcTest) =
   (the (fst (mem_Store (Some m) key p)), key, p, PcDone (snd (mem_Store (Some m) key p)))"
  by (simp add: mem_Store_def)

text \<open>A state of the system: the store and its running calls. Any call may step; entries may be deleted.\<close>

inductive mem_step ::
  "'p mem_persist \<times> 'p store_call list \<Rightarrow> 'p mem_persist \<times> 'p store_call list \<Rightarrow> bool" where
  call: "i < length cs \<Longrightarrow> store_step m (cs ! i) = Some (m', c) \<Longrightarrow> mem_step (m, cs) (m', cs[i := c])"
| delete: "mem_step (m, cs) (m\<lparr>mem_data := map_del k (mem_data m)\<rparr>, cs)"
| destroy: "mem_step (m, cs) (m\<lparr>mem_data := []\<rparr>, cs)"

inductive_cases mem_stepE: "mem_step (m, cs) s'"

definition call_pc :: "'p store_call \<Rightarrow> store_pc" where
  "call_pc c = snd (snd c)"



definition keys :: "'p mem_persist \<Rightarrow> gostring set" where
  "keys m = fst ` set (mem_data m)"

definition replacing_keys :: "'p store_call list \<Rightarrow> gostring set" where
  "replacing_keys cs = fst ` {c \<in> set cs. call_pc c = PcReplace}"




lemma finite_keys [simp]: "finite (keys m)" "finite (replacing_keys cs)"
  by (simp_all add: keys_def replacing_keys_def)












end
