(* ===== verification/File_Persist.thy ===== *)
theory File_Persist
  imports Persist Codec
begin

text \<open>
  \<open>filePersist\<close> of \<open>src/persist.go\<close>. The disk is the directory of the store: whether it exists, and its
  files by name (no subdirectories; keys are plain file names, as \<open>sendKey\<close> and \<open>recvKey\<close> make them).
  A write fails when the directory is missing; other failures of the disk are not modelled. A packet
  is stored as the bytes it encodes to, and read back by \<open>Decode\<close> at version 3.1.1; an encoding that
  panics ends the program (\<open>Panic\<close>). \<open>go m.worker()\<close> counts the worker as started; one run of the
  worker, without the sleep, is \<open>worker\<close>.
\<close>

section \<open>The directory\<close>

record dir =
  dir_exists :: bool
  dir_files :: "(gostring \<times> bytes) list"

definition os_exists :: "dir \<Rightarrow> gostring \<Rightarrow> bool" where
  "os_exists d name \<longleftrightarrow> dir_exists d \<and> map_of (dir_files d) name \<noteq> None"

definition os_ReadFile :: "dir \<Rightarrow> gostring \<Rightarrow> goerr + bytes" where
  "os_ReadFile d name =
     (if dir_exists d
      then (case map_of (dir_files d) name of None \<Rightarrow> Inl ErrNotExist | Some c \<Rightarrow> Inr c)
      else Inl ErrNotExist)"

definition os_WriteFile :: "dir \<Rightarrow> gostring \<Rightarrow> bytes \<Rightarrow> dir \<times> goerr option" where
  "os_WriteFile d name content =
     (if dir_exists d then (d\<lparr>dir_files := map_put name content (dir_files d)\<rparr>, None)
      else (d, Some ErrNotExist))"

definition os_Remove :: "dir \<Rightarrow> gostring \<Rightarrow> dir \<times> goerr option" where
  "os_Remove d name =
     (if os_exists d name then (d\<lparr>dir_files := map_del name (dir_files d)\<rparr>, None)
      else (d, Some ErrNotExist))"

definition os_RemoveAll :: "dir \<Rightarrow> dir \<times> goerr option" where
  "os_RemoveAll d = (d\<lparr>dir_exists := False, dir_files := []\<rparr>, None)"

text \<open>
  \<open>filepath.Walk\<close>: the callback sees the root first (or the error of looking at it); \<open>SkipDir\<close> for the
  root ends the walk, and \<open>SkipDir\<close> for a file skips the files after it.
\<close>

datatype walk_entry = WalkErr | WalkDir | WalkFile gostring

datatype walk_action = WalkOn | SkipDir

fun walk_files :: "(walk_entry \<Rightarrow> 'a \<Rightarrow> walk_action \<times> 'a) \<Rightarrow> gostring list \<Rightarrow> 'a \<Rightarrow> 'a" where
  "walk_files f [] a = a"
| "walk_files f (name # names) a =
     (case f (WalkFile name) a of (SkipDir, a) \<Rightarrow> a | (WalkOn, a) \<Rightarrow> walk_files f names a)"

definition Walk :: "dir \<Rightarrow> (walk_entry \<Rightarrow> 'a \<Rightarrow> walk_action \<times> 'a) \<Rightarrow> 'a \<Rightarrow> 'a" where
  "Walk d f a =
     (if dir_exists d
      then (case f WalkDir a of (SkipDir, a) \<Rightarrow> a
            | (WalkOn, a) \<Rightarrow> walk_files f (map fst (dir_files d)) a)
      else snd (f WalkErr a))"

section \<open>filePersist\<close>

definition fileSuffix :: gostring where
  "fileSuffix = [0x2E, 0x6D, 0x71, 0x74, 0x74]"

definition has_suffix :: "gostring \<Rightarrow> bool" where
  "has_suffix name \<longleftrightarrow> 5 \<le> length name \<and> drop (length name - 5) name = fileSuffix"

definition trim_suffix :: "gostring \<Rightarrow> gostring" where
  "trim_suffix name = (if has_suffix name then take (length name - 5) name else name)"

record file_persist =
  fp_dir :: dir
  fp_inMemBuf :: "packet sync_map"
  fp_strategy :: persist_strategy
  fp_inMemSize :: u32
  fp_n :: u32
  fp_workers :: nat

definition count_entry :: "walk_entry \<Rightarrow> u32 \<Rightarrow> walk_action \<times> u32" where
  "count_entry e n = (case e of
       WalkFile name \<Rightarrow> (WalkOn, if has_suffix name then n + 1 else n)
     | _ \<Rightarrow> (SkipDir, n))"

definition NewFilePersist :: "dir \<Rightarrow> persist_strategy option \<Rightarrow> file_persist option" where
  "NewFilePersist d strategy = Some \<lparr>fp_dir = d, fp_inMemBuf = [],
     fp_strategy = (case strategy of Some s \<Rightarrow> s | None \<Rightarrow> defaultPersistStrategy),
     fp_inMemSize = 0, fp_n = Walk d count_entry 0, fp_workers = 0\<rparr>"

definition file_Name :: "file_persist option \<Rightarrow> string" where
  "file_Name m = (case m of None \<Rightarrow> ''<nil>'' | Some m \<Rightarrow> ''FilePersist'')"

definition getFilename :: "gostring \<Rightarrow> gostring" where
  "getFilename key = key @ fileSuffix"

definition file_exists :: "file_persist \<Rightarrow> gostring \<Rightarrow> bool" where
  "file_exists m key = os_exists (fp_dir m) (getFilename key)"

definition getPacketFromFile :: "ping_vars \<Rightarrow> file_persist \<Rightarrow> gostring \<Rightarrow> packet option" where
  "getPacketFromFile g m name =
     (case os_ReadFile (fp_dir m) name of
        Inl _ \<Rightarrow> None
      | Inr content \<Rightarrow> (case fst (Decode g V311 content) of Inr p \<Rightarrow> Some p | Inl _ \<Rightarrow> None))"

definition file_store :: "file_persist \<Rightarrow> gostring \<Rightarrow> packet option \<Rightarrow> (file_persist \<times> goerr option) res" where
  "file_store m key p = (case p of
       None \<Rightarrow> Inr (m, None)
     | Some p \<Rightarrow> rbind (packet_Bytes p) (\<lambda>bs.
         case os_WriteFile (fp_dir m) (getFilename key) bs of
           (d, Some err) \<Rightarrow> Inr (m\<lparr>fp_dir := d\<rparr>, Some err)
         | (d, None) \<Rightarrow> Inr (m\<lparr>fp_dir := d, fp_n := fp_n m + 1, fp_inMemSize := fp_inMemSize m - 1\<rparr>, None)))"

definition file_Store ::
  "file_persist option \<Rightarrow> gostring \<Rightarrow> packet option \<Rightarrow> (file_persist option \<times> goerr option) res" where
  "file_Store m key p = (case m of
       None \<Rightarrow> Inr (None, None)
     | Some m \<Rightarrow>
         if ps_MaxCount (fp_strategy m) > 0 \<and> ps_DropOnExceed (fp_strategy m) \<and>
            fp_n m + fp_inMemSize m \<ge> ps_MaxCount (fp_strategy m)
         then Inr (Some m, Some ErrPacketDroppedByStrategy)
         else if \<not> file_exists m key \<or> ps_DuplicateReplace (fp_strategy m) then
           (if ps_Interval (fp_strategy m) > 0 then
              (let start = (if fp_inMemSize m = 0 then 1 else 0)
               in Inr (Some (m\<lparr>fp_inMemBuf := map_put key p (fp_inMemBuf m),
                               fp_inMemSize := fp_inMemSize m + 1,
                               fp_workers := fp_workers m + start\<rparr>), None))
            else rbind (file_store m key p) (\<lambda>(m, e). Inr (Some m, e)))
         else Inr (Some m, None))"

definition file_Load :: "ping_vars \<Rightarrow> file_persist option \<Rightarrow> gostring \<Rightarrow> packet option \<times> bool" where
  "file_Load g m key = (case m of
       None \<Rightarrow> (None, False)
     | Some m \<Rightarrow> (case getPacketFromFile g m (getFilename key) of
                    None \<Rightarrow> (None, False) | Some p \<Rightarrow> (Some p, True)))"

definition range_entry ::
  "ping_vars \<Rightarrow> file_persist \<Rightarrow> (gostring \<Rightarrow> packet \<Rightarrow> 'a \<Rightarrow> bool \<times> 'a) \<Rightarrow> walk_entry \<Rightarrow> 'a \<Rightarrow> walk_action \<times> 'a" where
  "range_entry g m ranger e a = (case e of
       WalkFile name \<Rightarrow>
         (WalkOn, if has_suffix name
                  then (case getPacketFromFile g m name of
                          None \<Rightarrow> a | Some p \<Rightarrow> snd (ranger (trim_suffix name) p a))
                  else a)
     | _ \<Rightarrow> (SkipDir, a))"

definition file_Range ::
  "ping_vars \<Rightarrow> file_persist option \<Rightarrow> (gostring \<Rightarrow> packet \<Rightarrow> 'a \<Rightarrow> bool \<times> 'a) option \<Rightarrow> 'a \<Rightarrow> 'a" where
  "file_Range g m ranger a = (case (m, ranger) of
       (Some m, Some f) \<Rightarrow> Walk (fp_dir m) (range_entry g m f) a
     | _ \<Rightarrow> a)"

definition file_Delete :: "file_persist option \<Rightarrow> gostring \<Rightarrow> file_persist option \<times> goerr option" where
  "file_Delete m key = (case m of
       None \<Rightarrow> (None, None)
     | Some m \<Rightarrow> (case os_Remove (fp_dir m) key of (d, e) \<Rightarrow> (Some (m\<lparr>fp_dir := d\<rparr>), e)))"

definition file_Destroy :: "file_persist option \<Rightarrow> file_persist option \<times> goerr option" where
  "file_Destroy m = (case m of
       None \<Rightarrow> (None, None)
     | Some m \<Rightarrow> (case os_RemoveAll (fp_dir m) of (d, e) \<Rightarrow> (Some (m\<lparr>fp_dir := d\<rparr>), e)))"

text \<open>One round of the worker: store what is buffered, then drop it from the buffer.\<close>

fun store_buffered :: "packet sync_map \<Rightarrow> file_persist \<Rightarrow> (file_persist \<times> gostring list) res" where
  "store_buffered [] m = Inr (m, [])"
| "store_buffered ((k, None) # buf) m = store_buffered buf m"
| "store_buffered ((k, Some p) # buf) m =
     rbind (file_store m k (Some p)) (\<lambda>(m, _).
     rbind (store_buffered buf m) (\<lambda>(m, ks). Inr (m, k # ks)))"

definition worker_round :: "file_persist \<Rightarrow> file_persist res" where
  "worker_round m =
     rbind (store_buffered (fp_inMemBuf m) m) (\<lambda>(m, persistedKeys).
       Inr (m\<lparr>fp_inMemBuf := fold map_del persistedKeys (fp_inMemBuf m)\<rparr>))"

partial_function (option) worker :: "file_persist \<Rightarrow> file_persist res option" where
  "worker m = (case worker_round m of
       Inl f \<Rightarrow> Some (Inl f)
     | Inr m \<Rightarrow> if fp_inMemSize m > 0 then worker m else Some (Inr m))"

declare worker.simps [code]

section \<open>Writing and reading one packet\<close>

text \<open>Packets that a file can hold: encodable at MQTT 3.1.1.\<close>

definition storable :: "packet \<Rightarrow> bool" where
  "storable p \<longleftrightarrow> is_v311 p \<and> v311_fits p \<and> int (length (v311_body p)) \<le> maxMsgSize"

lemma storable_bytes: "storable p \<Longrightarrow> packet_Bytes p = Inr (enc (v311_first p) (v311_body p))"
  by (simp add: storable_def packet_Bytes_v311)

lemma storable_decode:
  "storable p \<Longrightarrow> Decode g V311 (enc (v311_first p) (v311_body p)) = (Inr (v311_view g p), [])"
  using Decode_v311 [of p g "[]"] by (simp add: storable_def)

lemma getFilename_inject [simp]: "getFilename k = getFilename k' \<longleftrightarrow> k = k'"
  by (simp add: getFilename_def)

lemma file_store_eq:
  assumes "storable p" and "dir_exists (fp_dir m)"
  shows "file_store m key (Some p) =
    Inr (m\<lparr>fp_dir := (fp_dir m)\<lparr>dir_files := map_put (getFilename key)
             (enc (v311_first p) (v311_body p)) (dir_files (fp_dir m))\<rparr>,
           fp_n := fp_n m + 1, fp_inMemSize := fp_inMemSize m - 1\<rparr>, None)"
  using assms by (simp add: file_store_def storable_bytes os_WriteFile_def)

text \<open>The file of a key holds a packet; \<open>Load\<close> then finds it.\<close>

definition on_disk :: "file_persist \<Rightarrow> gostring \<Rightarrow> packet \<Rightarrow> bool" where
  "on_disk m key p \<longleftrightarrow> dir_exists (fp_dir m) \<and>
     map_of (dir_files (fp_dir m)) (getFilename key) = Some (enc (v311_first p) (v311_body p))"

lemma Load_on_disk:
  assumes "storable p" and "on_disk m key p"
  shows "file_Load g (Some m) key = (Some (v311_view g p), True)"
  using assms by (simp add: file_Load_def getPacketFromFile_def os_ReadFile_def on_disk_def storable_decode)

text \<open>
  C33: with no interval, a packet that MQTT 3.1.1 can encode is written at once and read back: \<open>Load\<close>
  returns it as \<open>v311_view\<close> shows it, and what is found under the other keys stays the same.
\<close>
theorem file_store_load:
  assumes "storable p" and "dir_exists (fp_dir m)" and "ps_Interval (fp_strategy m) \<le> 0"
    and "\<not> (ps_DropOnExceed (fp_strategy m) \<and> ps_MaxCount (fp_strategy m) > 0)"
    and "\<not> file_exists m key \<or> ps_DuplicateReplace (fp_strategy m)"
  shows "\<exists>m'. file_Store (Some m) key (Some p) = Inr (Some m', None) \<and>
    file_Load g (Some m') key = (Some (v311_view g p), True) \<and>
    (\<forall>k. k \<noteq> key \<longrightarrow> file_Load g (Some m') k = file_Load g (Some m) k)"
proof -
  obtain m' where m': "file_store m key (Some p) = Inr (m', None)"
    and d: "fp_dir m' = (fp_dir m)\<lparr>dir_files := map_put (getFilename key)
             (enc (v311_first p) (v311_body p)) (dir_files (fp_dir m))\<rparr>"
    using file_store_eq [OF assms(1,2)] by simp
  have "file_Store (Some m) key (Some p) = Inr (Some m', None)"
    using assms(3-5) m' by (auto simp: file_Store_def)
  moreover have "on_disk m' key p"
    using d assms(2) by (simp add: on_disk_def)
  moreover have "file_Load g (Some m') k = file_Load g (Some m) k" if "k \<noteq> key" for k
    using that d by (simp add: file_Load_def getPacketFromFile_def os_ReadFile_def)
  ultimately show ?thesis
    using Load_on_disk [OF assms(1)] by blast
qed

abbreviation (input) direct :: persist_strategy where
  "direct \<equiv> \<lparr>ps_Interval = 0, ps_MaxCount = 0, ps_DropOnExceed = False, ps_DuplicateReplace = True\<rparr>"

abbreviation (input) an_ack :: packet where
  "an_ack \<equiv> PubAckPkt \<lparr>puback_ProtoVersion = 4, puback_PacketID = 7, puback_Code = 0, puback_Props = None\<rparr>"

lemma storable_ack: "storable an_ack"
  by (simp add: storable_def is_v311_def packet_Version_def base_Version_def maxMsgSize_def)

abbreviation (input) empty_store :: "persist_strategy \<Rightarrow> file_persist" where
  "empty_store strategy \<equiv> \<lparr>fp_dir = \<lparr>dir_exists = True, dir_files = []\<rparr>, fp_inMemBuf = [],
     fp_strategy = strategy, fp_inMemSize = 0, fp_n = 0, fp_workers = 0\<rparr>"

lemma file_store_load_witness:
  "\<exists>m'. file_Store (Some (empty_store direct)) (sendKey 7) (Some an_ack) = Inr (Some m', None) \<and>
    file_Load ping_vars_init (Some m') (sendKey 7) = (Some (v311_view ping_vars_init an_ack), True) \<and>
    (\<forall>k. k \<noteq> sendKey 7 \<longrightarrow>
      file_Load ping_vars_init (Some m') k = file_Load ping_vars_init (Some (empty_store direct)) k)"
  by (rule file_store_load [OF storable_ack]) simp_all

section \<open>The worker\<close>

lemma map_of_put_other: "k' \<noteq> k \<Longrightarrow> map_of (map_put k v m) k' = map_of m k'"
  by simp

lemma store_buffered_ok:
  assumes "\<forall>(k, p) \<in> set buf. \<exists>q. p = Some q \<and> storable q" and "dir_exists (fp_dir m)"
    and "distinct (map fst buf)"
  shows "\<exists>m'. store_buffered buf m = Inr (m', map fst buf) \<and> fp_inMemBuf m' = fp_inMemBuf m \<and>
    fp_inMemSize m' = fp_inMemSize m - of_nat (length buf) \<and> dir_exists (fp_dir m') \<and>
    (\<forall>(k, p) \<in> set buf. on_disk m' k (the p)) \<and>
    (\<forall>k. k \<notin> fst ` set buf \<longrightarrow>
       map_of (dir_files (fp_dir m')) (getFilename k) = map_of (dir_files (fp_dir m)) (getFilename k))"
  using assms
proof (induction buf arbitrary: m)
  case Nil
  then show ?case
    by simp
next
  case (Cons kp buf)
  obtain k q where kp: "kp = (k, Some q)" and q: "storable q"
    using Cons.prems(1) by (cases kp) auto
  let ?m = "m\<lparr>fp_dir := (fp_dir m)\<lparr>dir_files := map_put (getFilename k)
             (enc (v311_first q) (v311_body q)) (dir_files (fp_dir m))\<rparr>,
           fp_n := fp_n m + 1, fp_inMemSize := fp_inMemSize m - 1\<rparr>"
  have st: "file_store m k (Some q) = Inr (?m, None)"
    using q Cons.prems(2) by (rule file_store_eq)
  have "\<forall>(k, p) \<in> set buf. \<exists>q. p = Some q \<and> storable q" "dir_exists (fp_dir ?m)" "distinct (map fst buf)"
    using Cons.prems by auto
  from Cons.IH [OF this] obtain m' where m': "store_buffered buf ?m = Inr (m', map fst buf)"
    and keep: "fp_inMemBuf m' = fp_inMemBuf ?m" "dir_exists (fp_dir m')"
    and size: "fp_inMemSize m' = fp_inMemSize ?m - of_nat (length buf)"
    and disk: "\<forall>(k, p) \<in> set buf. on_disk m' k (the p)"
    and other: "\<And>k. k \<notin> fst ` set buf \<Longrightarrow> map_of (dir_files (fp_dir m')) (getFilename k) =
      map_of (dir_files (fp_dir ?m)) (getFilename k)"
    by blast
  have new: "k \<notin> fst ` set buf"
    using Cons.prems(3) kp by simp
  have "on_disk m' k q"
    using other [OF new] keep(2) by (simp add: on_disk_def)
  then have "\<forall>(k, p) \<in> set (kp # buf). on_disk m' k (the p)"
    using disk kp by auto
  moreover have "map_of (dir_files (fp_dir m')) (getFilename k') = map_of (dir_files (fp_dir m)) (getFilename k')"
    if "k' \<notin> fst ` set (kp # buf)" for k'
    using other [of k'] that kp by auto
  moreover have "store_buffered (kp # buf) m = Inr (m', map fst (kp # buf))"
    using kp st m' by simp
  ultimately show ?case
    using keep size by (intro exI [of _ m']) (simp add: algebra_simps)
qed

lemma fold_map_del: "fst ` set m \<subseteq> set ks \<Longrightarrow> fold map_del ks m = []"
proof (induction ks arbitrary: m)
  case Nil
  then show ?case
    by simp
next
  case (Cons k ks)
  have "fst ` set (map_del k m) \<subseteq> set ks"
    using Cons.prems by (auto simp: map_del_def)
  then show ?case
    using Cons.IH by simp
qed

text \<open>A buffer of encodable packets under distinct keys, and a directory to write to.\<close>

definition flushable :: "file_persist \<Rightarrow> bool" where
  "flushable m \<longleftrightarrow> dir_exists (fp_dir m) \<and> distinct (map fst (fp_inMemBuf m)) \<and>
     (\<forall>(k, p) \<in> set (fp_inMemBuf m). \<exists>q. p = Some q \<and> storable q)"

lemma worker_round_ok:
  assumes "flushable m"
  obtains m' where "worker_round m = Inr m'" and "fp_inMemBuf m' = []"
    and "fp_inMemSize m' = fp_inMemSize m - of_nat (length (fp_inMemBuf m))"
    and "\<And>k q. (k, Some q) \<in> set (fp_inMemBuf m) \<Longrightarrow> on_disk m' k q"
proof -
  obtain m1 where m1: "store_buffered (fp_inMemBuf m) m = Inr (m1, map fst (fp_inMemBuf m))"
    and buf: "fp_inMemBuf m1 = fp_inMemBuf m"
    and size: "fp_inMemSize m1 = fp_inMemSize m - of_nat (length (fp_inMemBuf m))"
    and disk: "\<forall>(k, p) \<in> set (fp_inMemBuf m). on_disk m1 k (the p)"
    using store_buffered_ok [of "fp_inMemBuf m" m] assms unfolding flushable_def by blast
  let ?m' = "m1\<lparr>fp_inMemBuf := []\<rparr>"
  have "worker_round m = Inr ?m'"
    using m1 buf by (simp add: worker_round_def fold_map_del)
  moreover have "on_disk ?m' k q" if "(k, Some q) \<in> set (fp_inMemBuf m)" for k q
    using disk that by (auto simp: on_disk_def)
  ultimately show ?thesis
    using that size by simp
qed

text \<open>
  C34: the worker returns when every \<open>Store\<close> of the interval had its own key. With as many packets
  buffered as were counted, one round writes them all, empties the buffer, brings the count to 0, and
  every packet can be loaded.
\<close>
theorem file_worker_flushes:
  assumes "flushable m" and "fp_inMemSize m = of_nat (length (fp_inMemBuf m))"
  shows "\<exists>m'. worker m = Some (Inr m') \<and> fp_inMemBuf m' = [] \<and> fp_inMemSize m' = 0 \<and>
    (\<forall>(k, p) \<in> set (fp_inMemBuf m). file_Load g (Some m') k = (Some (v311_view g (the p)), True))"
proof -
  obtain m' where m': "worker_round m = Inr m'" "fp_inMemBuf m' = []"
    "fp_inMemSize m' = fp_inMemSize m - of_nat (length (fp_inMemBuf m))"
    and disk: "\<And>k q. (k, Some q) \<in> set (fp_inMemBuf m) \<Longrightarrow> on_disk m' k q"
    using worker_round_ok [OF assms(1)] by blast
  have "worker m = Some (Inr m')"
    using m' assms(2) by (subst worker.simps) simp
  moreover have "file_Load g (Some m') k = (Some (v311_view g (the p)), True)"
    if "(k, p) \<in> set (fp_inMemBuf m)" for k p
    using that assms(1) disk Load_on_disk by (fastforce simp: flushable_def)
  ultimately show ?thesis
    using m' assms(2) by auto
qed

abbreviation (input) buffered_store :: "packet sync_map \<Rightarrow> u32 \<Rightarrow> file_persist" where
  "buffered_store buf n \<equiv> (empty_store defaultPersistStrategy)\<lparr>fp_inMemBuf := buf, fp_inMemSize := n\<rparr>"

lemma file_worker_flushes_witness:
  "\<exists>m'. worker (buffered_store [(sendKey 7, Some an_ack)] 1) = Some (Inr m') \<and>
    fp_inMemBuf m' = [] \<and> fp_inMemSize m' = 0 \<and>
    (\<forall>(k, p) \<in> set (fp_inMemBuf (buffered_store [(sendKey 7, Some an_ack)] 1)).
       file_Load ping_vars_init (Some m') k = (Some (v311_view ping_vars_init (the p)), True))"
  by (rule file_worker_flushes) (simp_all add: flushable_def storable_ack)

lemma worker_stuck:
  assumes "fp_inMemBuf m = []" and "fp_inMemSize m > 0"
  shows "worker m = None"
proof -
  have "\<not> (fp_inMemBuf m = [] \<and> fp_inMemSize m > 0)" if "worker m = Some r" for m r
  proof (rule worker.raw_induct [where P = "\<lambda>m r. \<not> (fp_inMemBuf m = [] \<and> fp_inMemSize m > 0)", OF _ that])
    fix f :: "file_persist \<Rightarrow> file_persist res option" and m r
    assume IH: "\<And>m r. f m = Some r \<Longrightarrow> \<not> (fp_inMemBuf m = [] \<and> fp_inMemSize m > 0)"
      and eq: "(case worker_round m of Inl x \<Rightarrow> Some (Inl x)
        | Inr m \<Rightarrow> if fp_inMemSize m > 0 then f m else Some (Inr m)) = Some r"
    show "\<not> (fp_inMemBuf m = [] \<and> fp_inMemSize m > 0)"
    proof
      assume m: "fp_inMemBuf m = [] \<and> fp_inMemSize m > 0"
      then have "worker_round m = Inr m"
        by (simp add: worker_round_def)
      then have "f m = Some r"
        using eq m by simp
      then show False
        using IH m by blast
    qed
  qed
  then show ?thesis
    using assms by (metis not_None_eq)
qed

text \<open>
  Storing twice under one key in one interval makes the worker run for ever. The second \<open>Store\<close>
  replaces the buffered packet but counts it again, the rounds lower the count once per buffered key,
  and the worker goes on for as long as the count is not 0.
\<close>
theorem file_worker_never_ends:
  assumes "flushable m" and "length (fp_inMemBuf m) < unat (fp_inMemSize m)"
  shows "worker m = None"
proof -
  obtain m' where m': "worker_round m = Inr m'" "fp_inMemBuf m' = []"
    "fp_inMemSize m' = fp_inMemSize m - of_nat (length (fp_inMemBuf m))"
    by (rule worker_round_ok [OF assms(1)])
  have "fp_inMemSize m' \<noteq> 0"
  proof
    assume "fp_inMemSize m' = 0"
    then have "unat (fp_inMemSize m) = unat (of_nat (length (fp_inMemBuf m)) :: u32)"
      using m'(3) by simp
    also have "\<dots> \<le> length (fp_inMemBuf m)"
      by (simp add: unat_of_nat)
    finally show False
      using assms(2) by simp
  qed
  then have "0 < fp_inMemSize m'"
    by (simp add: word_neq_0_conv)
  then show ?thesis
    using m' worker_stuck [of m'] by (subst worker.simps) simp
qed

lemma store_twice:
  "file_Store (Some (empty_store defaultPersistStrategy)) (sendKey 7) (Some an_ack) =
     Inr (Some ((buffered_store [(sendKey 7, Some an_ack)] 1)\<lparr>fp_workers := 1\<rparr>), None) \<and>
   file_Store (Some ((buffered_store [(sendKey 7, Some an_ack)] 1)\<lparr>fp_workers := 1\<rparr>)) (sendKey 7) (Some an_ack) =
     Inr (Some ((buffered_store [(sendKey 7, Some an_ack)] 2)\<lparr>fp_workers := 1\<rparr>), None)"
  by (simp add: file_Store_def defaultPersistStrategy_def)

lemma file_worker_never_ends_witness:
  "worker ((buffered_store [(sendKey 7, Some an_ack)] 2)\<lparr>fp_workers := 1\<rparr>) = None"
  by (rule file_worker_never_ends) (simp_all add: flushable_def storable_ack)

section \<open>What the other methods do not do\<close>

text \<open>
  \<open>Delete\<close> never deletes what \<open>Store\<close> wrote: it removes the file named like the key, without the
  suffix. Unless some file has that name, it reports that the file does not exist and the packet
  stays where it is.
\<close>
theorem file_delete_misses:
  assumes "map_of (dir_files (fp_dir m)) key = None"
  shows "file_Delete (Some m) key = (Some m, Some ErrNotExist)"
  using assms by (simp add: file_Delete_def os_Remove_def os_exists_def)

lemma file_delete_misses_witness:
  "file_Delete (Some (buffered_store [] 0\<lparr>fp_dir := \<lparr>dir_exists = True,
       dir_files = [(getFilename (sendKey 7), [0x40, 2, 0, 7])]\<rparr>\<rparr>)) (sendKey 7) =
   (Some (buffered_store [] 0\<lparr>fp_dir := \<lparr>dir_exists = True,
       dir_files = [(getFilename (sendKey 7), [0x40, 2, 0, 7])]\<rparr>\<rparr>), Some ErrNotExist)"
  by (rule file_delete_misses) (simp add: getFilename_def fileSuffix_def sendKey_def decimal.simps)

text \<open>
  \<open>Range\<close> visits no packet and \<open>NewFilePersist\<close> counts none, whatever the directory holds: the
  callback answers \<open>SkipDir\<close> when \<open>Walk\<close> shows it the root.
\<close>
theorem file_range_visits_nothing:
  "file_Range g m ranger a = a \<and> map_option fp_n (NewFilePersist d strategy) = Some 0"
  by (auto simp: file_Range_def NewFilePersist_def Walk_def range_entry_def count_entry_def
      split: option.split)

end
