(* ===== verification/Router.thy ===== *)
theory Router
  imports Packets
begin

text \<open>
  \<open>src/router.go\<close>: the three implementations of \<open>TopicRouter\<close>. A handler is a value of a type variable,
  and \<open>Dispatch\<close> returns the calls it makes, in order: the handler with the topic, QoS and payload it
  gets. A \<open>sync.Map\<close> is an association list in \<open>Range\<close> order. The regular expressions come from Go's
  \<open>regexp\<close> package and are parameters: \<open>compile\<close> (\<open>None\<close> where \<open>MustCompile\<close> panics) and \<open>matches\<close>.

  The locale \<open>topic_router\<close> is what the client relies on: a registered handler is called for the
  topics its pattern matches, and registering changes no other topic.
\<close>

type_synonym 'h handler_call = "'h \<times> gostring \<times> byte \<times> bytes"

definition call_handler :: "'h \<Rightarrow> publish_packet \<Rightarrow> 'h handler_call" where
  "call_handler h p = (h, pub_TopicName p, pub_Qos p, pub_Payload p)"

section \<open>TextRouter\<close>

type_synonym 'h text_router = "(gostring \<times> 'h) list option"

definition NewTextRouter :: "'h text_router" where
  "NewTextRouter = Some []"

definition text_Handle :: "'h text_router \<Rightarrow> gostring \<Rightarrow> 'h \<Rightarrow> 'h text_router" where
  "text_Handle r topic h = map_option (map_put topic h) r"

definition text_Dispatch :: "'h text_router \<Rightarrow> publish_packet \<Rightarrow> 'h handler_call list" where
  "text_Dispatch r p = (case r of
       None \<Rightarrow> []
     | Some m \<Rightarrow> (case map_of m (pub_TopicName p) of None \<Rightarrow> [] | Some h \<Rightarrow> [call_handler h p]))"

section \<open>RegexRouter\<close>

text \<open>The keys are pointers to compiled expressions: every \<open>Handle\<close> adds an entry.\<close>

type_synonym ('re, 'h) regex_router = "('re \<times> 'h) list option"

definition NewRegexRouter :: "('re, 'h) regex_router" where
  "NewRegexRouter = Some []"

definition regex_Handle ::
  "(gostring \<Rightarrow> 're option) \<Rightarrow> ('re, 'h) regex_router \<Rightarrow> gostring \<Rightarrow> 'h \<Rightarrow> ('re, 'h) regex_router res" where
  "regex_Handle compile r topicRegex h = (case r of
       None \<Rightarrow> Inr None
     | Some m \<Rightarrow> (case compile topicRegex of None \<Rightarrow> Inl Panic | Some re \<Rightarrow> Inr (Some (m @ [(re, h)]))))"

definition regex_Dispatch ::
  "('re \<Rightarrow> gostring \<Rightarrow> bool) \<Rightarrow> ('re, 'h) regex_router \<Rightarrow> publish_packet \<Rightarrow> 'h handler_call list" where
  "regex_Dispatch matches r p = (case r of
       None \<Rightarrow> []
     | Some m \<Rightarrow> map (\<lambda>(re, h). call_handler h p) (filter (\<lambda>(re, h). matches re (pub_TopicName p)) m))"

section \<open>StandardRouter\<close>

type_synonym standard_router = "unit option"

definition NewStandardRouter :: standard_router where
  "NewStandardRouter = Some ()"

definition standard_Handle :: "standard_router \<Rightarrow> gostring \<Rightarrow> 'h \<Rightarrow> standard_router" where
  "standard_Handle s topic h = s"

definition standard_Dispatch :: "standard_router \<Rightarrow> publish_packet \<Rightarrow> 'h handler_call list" where
  "standard_Dispatch s p = []"

section \<open>The interface\<close>

text \<open>A \<open>TopicRouter\<close> is a pointer to one of the three; \<open>Name\<close> is for the log.\<close>

datatype ('re, 'h) router =
    TextRouter "'h text_router"
  | RegexRouter "('re, 'h) regex_router"
  | StandardRouter standard_router

definition text_Name :: "'h text_router \<Rightarrow> string" where
  "text_Name r = (if r = None then ''<nil>'' else ''TextRouter'')"

definition regex_Name :: "('re, 'h) regex_router \<Rightarrow> string" where
  "regex_Name r = (if r = None then ''<nil>'' else ''RegexRouter'')"

definition standard_Name :: "standard_router \<Rightarrow> string" where
  "standard_Name s = (if s = None then ''<nil>'' else ''StandardRouter'')"

primrec router_Name :: "('re, 'h) router \<Rightarrow> string" where
  "router_Name (TextRouter r) = text_Name r"
| "router_Name (RegexRouter r) = regex_Name r"
| "router_Name (StandardRouter s) = standard_Name s"

primrec router_Handle ::
  "(gostring \<Rightarrow> 're option) \<Rightarrow> ('re, 'h) router \<Rightarrow> gostring \<Rightarrow> 'h \<Rightarrow> ('re, 'h) router res" where
  "router_Handle compile (TextRouter r) topic h = Inr (TextRouter (text_Handle r topic h))"
| "router_Handle compile (RegexRouter r) topic h = map_sum id RegexRouter (regex_Handle compile r topic h)"
| "router_Handle compile (StandardRouter s) topic h = Inr (StandardRouter (standard_Handle s topic h))"

primrec router_Dispatch ::
  "('re \<Rightarrow> gostring \<Rightarrow> bool) \<Rightarrow> ('re, 'h) router \<Rightarrow> publish_packet \<Rightarrow> 'h handler_call list" where
  "router_Dispatch matches (TextRouter r) p = text_Dispatch r p"
| "router_Dispatch matches (RegexRouter r) p = regex_Dispatch matches r p"
| "router_Dispatch matches (StandardRouter s) p = standard_Dispatch s p"

section \<open>The contract\<close>

text \<open>The handlers called for a topic, through a packet that carries it.\<close>

locale topic_router =
  fixes handle :: "'s \<Rightarrow> gostring \<Rightarrow> 'h \<Rightarrow> 's"
    and dispatch :: "'s \<Rightarrow> publish_packet \<Rightarrow> 'h handler_call list"
    and accepts :: "gostring \<Rightarrow> gostring \<Rightarrow> bool"
    and inv :: "'s \<Rightarrow> bool"
  assumes inv_handle: "inv s \<Longrightarrow> inv (handle s pat h)"
    and handle_called: "inv s \<Longrightarrow> accepts pat (pub_TopicName p) \<Longrightarrow>
      call_handler h p \<in> set (dispatch (handle s pat h) p)"
    and handle_only: "inv s \<Longrightarrow>
      set (dispatch (handle s pat h) p) \<subseteq> insert (call_handler h p) (set (dispatch s p))"
    and handle_other: "inv s \<Longrightarrow> \<not> accepts pat (pub_TopicName p) \<Longrightarrow>
      dispatch (handle s pat h) p = dispatch s p"
begin

definition handle_all :: "'s \<Rightarrow> (gostring \<times> 'h) list \<Rightarrow> 's" where
  "handle_all s hs = foldl (\<lambda>s (pat, h). handle s pat h) s hs"

lemma inv_handle_all: "inv s \<Longrightarrow> inv (handle_all s hs)"
  by (induction hs arbitrary: s) (auto simp: handle_all_def inv_handle)

lemma handle_all_snoc: "handle_all s (hs @ [(pat, h)]) = handle (handle_all s hs) pat h"
  by (simp add: handle_all_def)

lemma dispatch_registered:
  assumes "inv s" and "dispatch s p = []"
  shows "set (dispatch (handle_all s hs) p) \<subseteq>
    {call_handler h p | pat h. (pat, h) \<in> set hs \<and> accepts pat (pub_TopicName p)}"
proof (induction hs rule: rev_induct)
  case Nil
  then show ?case
    using assms(2) by (simp add: handle_all_def)
next
  case (snoc ph hs)
  obtain pat h where ph: "ph = (pat, h)"
    by (cases ph)
  show ?case
  proof (cases "accepts pat (pub_TopicName p)")
    case True
    then show ?thesis
      using snoc handle_only [OF inv_handle_all [OF assms(1), of hs], of pat h p] ph
      by (simp add: handle_all_snoc) blast
  next
    case False
    then show ?thesis
      using snoc handle_other [OF inv_handle_all [OF assms(1), of hs], of pat p h] ph
      by (simp add: handle_all_snoc) blast
  qed
qed

lemma dispatch_last:
  assumes "inv s" and "accepts pat (pub_TopicName p)"
    and "\<forall>(pat', h') \<in> set hs'. \<not> accepts pat' (pub_TopicName p)"
  shows "call_handler h p \<in> set (dispatch (handle_all s (hs @ (pat, h) # hs')) p)"
  using assms(3)
proof (induction hs' rule: rev_induct)
  case Nil
  then show ?case
    using handle_called [OF inv_handle_all [OF assms(1)] assms(2)] by (simp add: handle_all_snoc)
next
  case (snoc ph hs')
  obtain pat' h' where ph: "ph = (pat', h')"
    by (cases ph)
  have eq: "handle_all s (hs @ (pat, h) # hs' @ [ph]) = handle (handle_all s (hs @ (pat, h) # hs')) pat' h'"
    using handle_all_snoc [of s "hs @ (pat, h) # hs'" pat' h'] ph by simp
  show ?case
    unfolding eq using snoc ph handle_other [OF inv_handle_all [OF assms(1)]] by auto
qed

end

lemma text_Dispatch_put [simp]:
  "text_Dispatch (Some (map_put topic h m)) p =
     (if pub_TopicName p = topic then [call_handler h p] else text_Dispatch (Some m) p)"
  by (simp add: text_Dispatch_def)

interpretation text_router: topic_router text_Handle text_Dispatch "(=)" "\<lambda>r. r \<noteq> None"
  by unfold_locales (auto simp: text_Handle_def split: if_splits)

text \<open>A regex router on patterns that all compile.\<close>

definition regex_try :: "(gostring \<Rightarrow> 're option) \<Rightarrow> ('re, 'h) regex_router \<Rightarrow> gostring \<Rightarrow> 'h \<Rightarrow> ('re, 'h) regex_router" where
  "regex_try compile r pat h = (case regex_Handle compile r pat h of Inr r' \<Rightarrow> r' | Inl _ \<Rightarrow> r)"

definition regex_accepts :: "(gostring \<Rightarrow> 're option) \<Rightarrow> ('re \<Rightarrow> gostring \<Rightarrow> bool) \<Rightarrow> gostring \<Rightarrow> gostring \<Rightarrow> bool" where
  "regex_accepts compile matches pat topic =
     (case compile pat of None \<Rightarrow> False | Some re \<Rightarrow> matches re topic)"

interpretation regex_router: topic_router "regex_try compile" "regex_Dispatch matches"
    "regex_accepts compile matches" "\<lambda>r. r \<noteq> None"
  by unfold_locales
    (auto simp: regex_try_def regex_Handle_def regex_Dispatch_def regex_accepts_def
      split: option.splits)

section \<open>Properties\<close>

text \<open>
  C30: the text router, which is the client's default, calls for a packet exactly the handler that was
  registered last for the packet's topic, once, with the topic, QoS and payload of the packet, and
  nothing if there is none.
\<close>
theorem text_router_dispatch:
  "text_Dispatch (foldl (\<lambda>r (topic, h). text_Handle r topic h) NewTextRouter hs) p =
    (case map_of (rev hs) (pub_TopicName p) of
       None \<Rightarrow> [] | Some h \<Rightarrow> [(h, pub_TopicName p, pub_Qos p, pub_Payload p)])"
proof (induction hs rule: rev_induct)
  case Nil
  then show ?case
    by (simp add: NewTextRouter_def text_Dispatch_def)
next
  case (snoc th hs)
  obtain topic h where th: "th = (topic, h)"
    by (cases th)
  have "foldl (\<lambda>r (topic, h). text_Handle r topic h) NewTextRouter hs \<noteq> None"
    using text_router.inv_handle_all [of "NewTextRouter" hs]
    by (simp add: text_router.handle_all_def NewTextRouter_def)
  then show ?case
    using snoc th by (auto simp: call_handler_def text_Handle_def)
qed

lemma regex_Dispatch_try:
  "r \<noteq> None \<Longrightarrow> regex_Dispatch matches (regex_try compile r pat h) p =
     regex_Dispatch matches r p @
     (if regex_accepts compile matches pat (pub_TopicName p) then [call_handler h p] else [])"
  by (auto simp: regex_try_def regex_Handle_def regex_Dispatch_def regex_accepts_def
      split: option.splits)

text \<open>
  A regex router calls for a packet the handlers registered with an expression that compiles and
  matches the packet's topic: all of them, one call per registration, and no others.
\<close>
theorem regex_router_dispatch:
  "regex_Dispatch matches (foldl (\<lambda>r (pat, h). regex_try compile r pat h) NewRegexRouter hs) p =
    map (\<lambda>(pat, h). (h, pub_TopicName p, pub_Qos p, pub_Payload p))
      (filter (\<lambda>(pat, h). regex_accepts compile matches pat (pub_TopicName p)) hs)"
proof (induction hs rule: rev_induct)
  case Nil
  then show ?case
    by (simp add: NewRegexRouter_def regex_Dispatch_def)
next
  case (snoc ph hs)
  obtain pat h where ph: "ph = (pat, h)"
    by (cases ph)
  have "foldl (\<lambda>r (pat, h). regex_try compile r pat h) NewRegexRouter hs \<noteq> None"
    using regex_router.inv_handle_all [of "NewRegexRouter" compile hs]
    by (simp add: regex_router.handle_all_def NewRegexRouter_def)
  then show ?case
    using snoc ph by (simp add: regex_Dispatch_try call_handler_def)
qed

end
