(* ===== verification/Client.thy ===== *)
theory Client
  imports Persist Router Id_Gen Codec
begin

text \<open>
  The client object: messages and their handlers (\<open>src/msg.go\<close>, \<open>src/handler.go\<close>), the part of
  \<open>AsyncClient\<close> that its goroutines share, and the calls \<open>Publish\<close>, \<open>Subscribe\<close> and \<open>Unsubscribe\<close>
  (\<open>src/client_async.go\<close>).

  Goroutines share the client through channels, the identifier generator and the packet store. What
  a goroutine does for one message is a list of actions, each of which is one atomic step on the
  shared state; the next theories run them. A channel is the list of what it holds; an action that
  sends on a full channel has to wait.
\<close>

section \<open>Messages\<close>

datatype message =
    PubMsg gostring "goerr option"
  | SubMsg "topic list" "goerr option"
  | UnSubMsg "gostring list" "goerr option"
  | NetMsg gostring "goerr option"
  | PersistMsg packet "goerr option"

text \<open>The \<open>notify\<close> functions, as what they send.\<close>

definition notifyPubMsg :: "gostring \<Rightarrow> goerr option \<Rightarrow> message list" where
  "notifyPubMsg topic err = [PubMsg topic err]"

definition notifySubMsg :: "topic list \<Rightarrow> goerr option \<Rightarrow> message list" where
  "notifySubMsg p err = [SubMsg p err]"

definition notifyUnSubMsg :: "gostring list \<Rightarrow> goerr option \<Rightarrow> message list" where
  "notifyUnSubMsg topics err = [UnSubMsg topics err]"

definition notifyNetMsg :: "gostring \<Rightarrow> goerr option \<Rightarrow> message list" where
  "notifyNetMsg server err = [NetMsg server err]"

definition notifyPersistMsg :: "packet \<Rightarrow> goerr option \<Rightarrow> message list" where
  "notifyPersistMsg packet err = (if err = None then [] else [PersistMsg packet err])"

record 'h handlers =
  pubHandler :: "'h option"
  subHandler :: "'h option"
  unsubHandler :: "'h option"
  netHandler :: "'h option"
  persistHandler :: "'h option"

definition handler_of :: "'h handlers \<Rightarrow> message \<Rightarrow> 'h option" where
  "handler_of hs m = (case m of
       PubMsg _ _ \<Rightarrow> pubHandler hs
     | SubMsg _ _ \<Rightarrow> subHandler hs
     | UnSubMsg _ _ \<Rightarrow> unsubHandler hs
     | NetMsg _ _ \<Rightarrow> netHandler hs
     | PersistMsg _ _ \<Rightarrow> persistHandler hs)"

text \<open>The body of \<open>handleMsg\<close>: the workers it starts for one message (none once the client is closing).\<close>

definition handleMsg :: "bool \<Rightarrow> 'h handlers \<Rightarrow> message \<Rightarrow> ('h \<times> message) list" where
  "handleMsg closing hs m =
     (case handler_of hs m of None \<Rightarrow> [] | Some h \<Rightarrow> if closing then [] else [(h, m)])"

section \<open>The shared state\<close>

record 's client =
  cl_idGen :: "packet id_generator"
  cl_persist :: 's
  cl_sendCh :: "packet list"
  cl_recvCh :: "publish_packet list"
  cl_msgCh :: "message list"
  cl_sendCap :: nat
  cl_recvCap :: nat
  cl_closing :: bool

abbreviation (input) msgCap :: nat where
  "msgCap \<equiv> 10"

definition defaultClient :: "'s \<Rightarrow> 's client" where
  "defaultClient persist = \<lparr>cl_idGen = newIDGenerator, cl_persist = persist, cl_sendCh = [],
     cl_recvCh = [], cl_msgCh = [], cl_sendCap = 1, cl_recvCap = 1, cl_closing = False\<rparr>"

text \<open>
  The actions. \<open>Alloc\<close> takes an identifier for a packet and goes on with the packet that carries it;
  \<open>Enqueue\<close> sends on \<open>sendCh\<close> or gives up when the client stops; \<open>Deliver\<close> sends on \<open>recvCh\<close>; \<open>SendLogic\<close>
  is \<open>clientConn.send\<close>; \<open>Persist\<close> calls the store and reports an error; \<open>Flush\<close>, \<open>Close\<close> and \<open>Exit\<close> act
  on a connection.
\<close>

datatype action =
    Alloc packet
  | Enqueue packet
  | Deliver publish_packet
  | SendLogic packet
  | Notify message
  | Free u16
  | Persist packet "packet persist_op"
  | Flush
  | Close
  | Exit

section \<open>Publish, Subscribe, Unsubscribe\<close>

fun set_packetID :: "packet \<Rightarrow> u16 \<Rightarrow> packet" where
  "set_packetID (PublishPkt p) pid = PublishPkt (p\<lparr>pub_PacketID := pid\<rparr>)"
| "set_packetID (SubscribePkt s) pid = SubscribePkt (s\<lparr>sub_PacketID := pid\<rparr>)"
| "set_packetID (UnsubPkt u) pid = UnsubPkt (u\<lparr>unsub_PacketID := pid\<rparr>)"
| "set_packetID p pid = p"

text \<open>
  \<open>x.PacketID = c.idGen.next(x)\<close>. The generator keeps a pointer to the packet, so what it holds shows
  the identifier that is assigned after the call; the identifier itself does not depend on the data.
\<close>

definition alloc_id :: "packet id_generator \<Rightarrow> packet \<Rightarrow> packet \<times> packet id_generator" where
  "alloc_id g p =
     (let p' = set_packetID p (fst (gen_next g p)) in (p', snd (gen_next g p')))"

text \<open>What follows the allocation: \<open>Publish\<close> stores the packet, then every call sends it.\<close>

fun after_alloc :: "packet \<Rightarrow> action list" where
  "after_alloc (PublishPkt p) =
     [Persist (PublishPkt p) (OpStore (sendKey (pub_PacketID p)) (Some (PublishPkt p))),
      Enqueue (PublishPkt p)]"
| "after_alloc p = [Enqueue p]"

definition publish_one :: "publish_packet option \<Rightarrow> action list" where
  "publish_one m = (case m of
       None \<Rightarrow> []
     | Some p \<Rightarrow>
         let p = (if pub_Qos p > Qos2 then p\<lparr>pub_Qos := Qos2\<rparr> else p) in
         if pub_Qos p \<noteq> Qos0 \<and> pub_PacketID p = 0 then [Alloc (PublishPkt p)]
         else [Enqueue (PublishPkt p)])"

definition Publish :: "'s client \<Rightarrow> publish_packet option list \<Rightarrow> action list" where
  "Publish c msg = (if cl_closing c then [] else concat (map publish_one msg))"

definition Subscribe :: "'s client \<Rightarrow> topic list \<Rightarrow> action list" where
  "Subscribe c topics =
     (if cl_closing c then []
      else [Alloc (SubscribePkt \<lparr>sub_ProtoVersion = 0, sub_PacketID = 0, sub_Topics = topics,
                                sub_Props = None\<rparr>)])"

definition Unsubscribe :: "'s client \<Rightarrow> gostring list \<Rightarrow> action list" where
  "Unsubscribe c topics =
     (if cl_closing c then []
      else [Alloc (UnsubPkt \<lparr>unsub_ProtoVersion = 0, unsub_PacketID = 0, unsub_TopicNames = topics,
                            unsub_Props = None\<rparr>)])"

section \<open>Actions on the client\<close>

text \<open>
  One action of a goroutine that serves no connection: the new state and what the goroutine still
  has to do after it (\<open>rest\<close> is what it had left). A \<open>select\<close> with several ready cases takes any of
  them, and an action that cannot go on has no step.
\<close>

inductive client_act ::
  "('s, packet) persist_method \<Rightarrow> 's client \<Rightarrow> action \<Rightarrow> action list \<Rightarrow> 's client \<Rightarrow> action list \<Rightarrow> bool"
  for M where
  alloc: "alloc_id (cl_idGen c) p = (p', g') \<Longrightarrow>
    client_act M c (Alloc p) rest (c\<lparr>cl_idGen := g'\<rparr>) (after_alloc p' @ rest)"
| enqueue: "length (cl_sendCh c) < cl_sendCap c \<Longrightarrow>
    client_act M c (Enqueue p) rest (c\<lparr>cl_sendCh := cl_sendCh c @ [p]\<rparr>) rest"
| stopped: "cl_closing c \<Longrightarrow> client_act M c (Enqueue p) rest c []"
| deliver: "length (cl_recvCh c) < cl_recvCap c \<Longrightarrow>
    client_act M c (Deliver p) rest (c\<lparr>cl_recvCh := cl_recvCh c @ [p]\<rparr>) rest"
| notify: "length (cl_msgCh c) < msgCap \<Longrightarrow>
    client_act M c (Notify m) rest (c\<lparr>cl_msgCh := cl_msgCh c @ [m]\<rparr>) rest"
| free: "client_act M c (Free pid) rest (c\<lparr>cl_idGen := gen_free (cl_idGen c) pid\<rparr>) rest"
| persist: "run_op M (cl_persist c) op = (s', e) \<Longrightarrow>
    client_act M c (Persist p op) rest (c\<lparr>cl_persist := s'\<rparr>) (map Notify (notifyPersistMsg p e) @ rest)"

inductive_cases client_actE: "client_act M c a rest c' rest'"

lemma alloc_id_fresh:
  assumes "alloc_id g p = (p', g')" and "getExtra g (candidate g) = None"
  shows "candidate g \<noteq> 0 \<and> p' = set_packetID p (candidate g) \<and> getExtra g' (candidate g) = Some p'"
  using assms gen_next_fresh_eq [of g p] gen_next_fresh_eq [of g "set_packetID p (candidate g)"]
  by (auto simp: alloc_id_def Let_def getExtra_def setUsed_def)

end
