(* ===== verification/Conn.thy ===== *)
theory Conn
  imports Client
begin

text \<open>
  One connection, \<open>clientConn\<close> of \<open>src/client_conn.go\<close>: what \<open>logic\<close> does for a packet from the server,
  what \<open>handleSend\<close> does for a packet to send, and the receive loop \<open>handleNetRecv\<close>.

  \<open>logic\<close> finds out which request an acknowledgement answers through the identifier generator, which
  all connections of a client share.
\<close>

section \<open>logic\<close>

text \<open>\<open>for i, v := range originSub.Topics { if i < N { v.Qos = p.Codes[i] } }\<close>.\<close>

fun granted_topics :: "topic list \<Rightarrow> bytes \<Rightarrow> topic list" where
  "granted_topics (t # ts) (code # codes) = t\<lparr>topic_Qos := code\<rparr> # granted_topics ts codes"
| "granted_topics ts [] = ts"
| "granted_topics [] codes = []"

definition logic_suback :: "packet id_generator \<Rightarrow> suback_packet \<Rightarrow> action list" where
  "logic_suback g p = (case getExtra g (suback_PacketID p) of
       Some (SubscribePkt s) \<Rightarrow>
         map Notify (notifySubMsg (granted_topics (sub_Topics s) (suback_Codes p)) None) @
         [Free (suback_PacketID p), Persist (SubAckPkt p) (OpDelete (sendKey (suback_PacketID p)))]
     | _ \<Rightarrow> [])"

definition logic_unsuback :: "packet id_generator \<Rightarrow> unsuback_packet \<Rightarrow> action list" where
  "logic_unsuback g p = (case getExtra g (unsuback_PacketID p) of
       Some (UnsubPkt u) \<Rightarrow>
         map Notify (notifyUnSubMsg (unsub_TopicNames u) None) @
         [Free (unsuback_PacketID p), Persist (UnsubAckPkt p) (OpDelete (sendKey (unsuback_PacketID p)))]
     | _ \<Rightarrow> [])"

definition logic_publish :: "publish_packet \<Rightarrow> action list" where
  "logic_publish p = Deliver p #
     (if pub_Qos p = Qos1 then
        [SendLogic (PubAckPkt \<lparr>puback_ProtoVersion = 0, puback_PacketID = pub_PacketID p,
                               puback_Code = 0, puback_Props = None\<rparr>),
         Persist (PublishPkt p) (OpStore (recvKey (pub_PacketID p)) (Some (PublishPkt p)))]
      else if pub_Qos p = Qos2 then
        [SendLogic (PubRecvPkt \<lparr>pubrecv_ProtoVersion = 0, pubrecv_PacketID = pub_PacketID p,
                                pubrecv_Code = 0, pubrecv_Props = None\<rparr>),
         Persist (PublishPkt p) (OpStore (recvKey (pub_PacketID p)) (Some (PublishPkt p)))]
      else [])"

text \<open>The publish a packet identifier stands for, if it is pending at the given QoS.\<close>

definition pending_publish :: "packet id_generator \<Rightarrow> u16 \<Rightarrow> byte \<Rightarrow> publish_packet option" where
  "pending_publish g pid q = (case getExtra g pid of
       Some (PublishPkt p) \<Rightarrow> if pub_Qos p = q then Some p else None
     | _ \<Rightarrow> None)"

definition logic_puback :: "packet id_generator \<Rightarrow> puback_packet \<Rightarrow> action list" where
  "logic_puback g p = (case pending_publish g (puback_PacketID p) Qos1 of
       Some originPub \<Rightarrow>
         map Notify (notifyPubMsg (pub_TopicName originPub) None) @
         [Free (puback_PacketID p), Persist (PubAckPkt p) (OpDelete (sendKey (puback_PacketID p)))]
     | None \<Rightarrow> [])"

definition pubrel_for :: "u16 \<Rightarrow> packet" where
  "pubrel_for pid = PubRelPkt \<lparr>pubrel_ProtoVersion = 0, pubrel_PacketID = pid, pubrel_Code = 0,
     pubrel_Props = None\<rparr>"

definition logic_pubrecv :: "packet id_generator \<Rightarrow> pubrecv_packet \<Rightarrow> action list" where
  "logic_pubrecv g p = (case pending_publish g (pubrecv_PacketID p) Qos2 of
       Some originPub \<Rightarrow> [SendLogic (pubrel_for (pubrecv_PacketID p))]
     | None \<Rightarrow> [])"

definition logic_pubrel :: "packet id_generator \<Rightarrow> pubrel_packet \<Rightarrow> action list" where
  "logic_pubrel g p = (case pending_publish g (pubrel_PacketID p) Qos2 of
       Some originPub \<Rightarrow>
         [SendLogic (PubCompPkt \<lparr>pubcomp_ProtoVersion = 0, pubcomp_PacketID = pubrel_PacketID p,
                                 pubcomp_Code = 0, pubcomp_Props = None\<rparr>),
          Persist (PubRelPkt p) (OpStore (recvKey (pubrel_PacketID p)) (Some (PubRelPkt p)))]
     | None \<Rightarrow> [])"

definition logic_pubcomp :: "packet id_generator \<Rightarrow> pubcomp_packet \<Rightarrow> action list" where
  "logic_pubcomp g p = (case pending_publish g (pubcomp_PacketID p) Qos2 of
       Some originPub \<Rightarrow>
         SendLogic (pubrel_for (pubcomp_PacketID p)) #
         map Notify (notifyPubMsg (pub_TopicName originPub) None) @
         [Free (pubcomp_PacketID p), Persist (PubCompPkt p) (OpDelete (sendKey (pubcomp_PacketID p)))]
     | None \<Rightarrow> [])"

fun logic_actions :: "packet id_generator \<Rightarrow> packet \<Rightarrow> action list" where
  "logic_actions g (SubAckPkt p) = logic_suback g p"
| "logic_actions g (UnsubAckPkt p) = logic_unsuback g p"
| "logic_actions g (PublishPkt p) = logic_publish p"
| "logic_actions g (PubAckPkt p) = logic_puback g p"
| "logic_actions g (PubRecvPkt p) = logic_pubrecv g p"
| "logic_actions g (PubRelPkt p) = logic_pubrel g p"
| "logic_actions g (PubCompPkt p) = logic_pubcomp g p"
| "logic_actions g _ = []"

section \<open>handleSend\<close>

text \<open>After the packet was written: one taken from \<open>sendCh\<close>, and one taken from \<open>logicSendC\<close>.\<close>

fun after_send :: "packet \<Rightarrow> action list" where
  "after_send (PublishPkt p) =
     (if pub_Qos p = 0 then map Notify (notifyPubMsg (pub_TopicName p) None) else [])"
| "after_send (DisconnPkt d) = [Flush, Close, Exit]"
| "after_send p = []"

fun after_logic_send :: "packet \<Rightarrow> action list" where
  "after_logic_send (PubRelPkt p) =
     [Persist (PubRelPkt p) (OpStore (sendKey (pubrel_PacketID p)) (Some (PubRelPkt p)))]"
| "after_logic_send (PubAckPkt p) =
     [Persist (PubAckPkt p) (OpDelete (sendKey (puback_PacketID p)))]"
| "after_logic_send (PubCompPkt p) =
     [Persist (PubCompPkt p) (OpDelete (sendKey (pubcomp_PacketID p)))]"
| "after_logic_send (DisconnPkt d) = [Flush, Close, Exit]"
| "after_logic_send p = []"

text \<open>
  \<open>pkt.SetVersion(c.protoVersion); pkt.WriteTo(c.connRW)\<close> on the bytes buffered so far: the new buffer,
  the fault if there was one, and the packet.
\<close>

definition send_packet :: "byte \<Rightarrow> bytes \<Rightarrow> packet \<Rightarrow> bytes wres \<times> packet" where
  "send_packet version buf pkt = packet_WriteTo bytes_Buffer buf (packet_SetVersion pkt version)"

section \<open>handleNetRecv\<close>

datatype recv_event =
    RecvPacket packet        \<comment> \<open>to \<open>netRecvC\<close>\<close>
  | RecvPong                 \<comment> \<open>to \<open>keepaliveC\<close>\<close>
  | RecvError fault          \<comment> \<open>\<open>notifyNetMsg\<close>, then \<open>exit\<close>\<close>
  | RecvVersionMismatch      \<comment> \<open>\<open>exit\<close>\<close>

text \<open>One turn of the loop: the event, and what is left of the stream unless the loop ends.\<close>

definition recv_one :: "ping_vars \<Rightarrow> byte \<Rightarrow> bytes \<Rightarrow> recv_event \<times> bytes option" where
  "recv_one g version r = (case Decode g version r of
       (Inl f, _) \<Rightarrow> (RecvError f, None)
     | (Inr pkt, r) \<Rightarrow>
         if packet_Version pkt \<noteq> version then (RecvVersionMismatch, None)
         else if packet_Type pkt = CtrlPingResp then (RecvPong, Some r)
         else (RecvPacket pkt, Some r))"

lemma recv_one_consumes: "recv_one g version r = (e, Some r') \<Longrightarrow> length r' < length r"
  using Decode_consumes [of r g version]
  by (cases "r = []") (auto simp: recv_one_def Decode_def split: prod.splits sum.splits if_splits)

function handleNetRecv :: "ping_vars \<Rightarrow> byte \<Rightarrow> bytes \<Rightarrow> recv_event list" where
  "handleNetRecv g version r = (case recv_one g version r of
       (e, None) \<Rightarrow> [e]
     | (e, Some r) \<Rightarrow> e # handleNetRecv g version r)"
  by pat_completeness auto
termination
  by (relation "measure (\<lambda>(g, version, r). length r)") (auto dest: recv_one_consumes [OF sym])

declare handleNetRecv.simps [simp del]

section \<open>Properties of the receive loop\<close>

lemma recv_one_event:
  "recv_one g version r = (e, None) \<Longrightarrow> (\<exists>err. e = RecvError (GoErr err)) \<or> e = RecvVersionMismatch"
  "recv_one g version r = (e, Some r') \<Longrightarrow> (\<exists>p. e = RecvPacket p \<and> packet_Version p = version) \<or> e = RecvPong"
  using Decode_safe [of g version r]
  by (auto simp: recv_one_def safe_def split: prod.splits sum.splits if_splits) (metis fault.exhaust)

text \<open>
  C25: the receive loop ends on every stream. It reports packets of the connection's version and ping
  responses, then exactly one reason to stop, which is an error value (never a panic) or a packet of
  another version.
\<close>
theorem receive_loop_ends:
  "\<exists>es e. handleNetRecv g version r = es @ [e] \<and>
    ((\<exists>err. e = RecvError (GoErr err)) \<or> e = RecvVersionMismatch) \<and>
    (\<forall>x \<in> set es. x = RecvPong \<or> (\<exists>p. x = RecvPacket p \<and> packet_Version p = version))"
proof (induction r rule: measure_induct_rule [of length])
  case (less r)
  obtain e r' where one: "recv_one g version r = (e, r')"
    by fastforce
  show ?case
  proof (cases r')
    case None
    then have "handleNetRecv g version r = [] @ [e]"
      using one by (subst handleNetRecv.simps) simp
    moreover have "(\<exists>err. e = RecvError (GoErr err)) \<or> e = RecvVersionMismatch"
      using recv_one_event(1) one None by blast
    ultimately show ?thesis
      by (metis empty_iff list.set(1))
  next
    case (Some r1)
    then have "length r1 < length r"
      using one recv_one_consumes by blast
    from less [OF this] obtain es e' where es: "handleNetRecv g version r1 = es @ [e']"
      "(\<exists>err. e' = RecvError (GoErr err)) \<or> e' = RecvVersionMismatch"
      "\<forall>x \<in> set es. x = RecvPong \<or> (\<exists>p. x = RecvPacket p \<and> packet_Version p = version)"
      by blast
    have "handleNetRecv g version r = (e # es) @ [e']"
      using one Some es(1) by (subst handleNetRecv.simps) simp
    moreover have "e = RecvPong \<or> (\<exists>p. e = RecvPacket p \<and> packet_Version p = version)"
      using recv_one_event(2) one Some by blast
    ultimately show ?thesis
      using es(2,3) by (intro exI [of _ "e # es"] exI [of _ e']) auto
  qed
qed

lemma receive_loop_ends_witness:
  "handleNetRecv ping_vars_init V311 [0x20, 2, 0, 0, 0x40] = [RecvPacket (ConnAckPkt
     \<lparr>connack_ProtoVersion = 0, connack_Present = False, connack_Code = 0, connack_Props = None\<rparr>),
     RecvError (GoErr ErrDecodeBadPacket)] \<and>
   (\<exists>es e. handleNetRecv ping_vars_init V311 [0x20, 2, 0, 0, 0x40] = es @ [e] \<and>
     ((\<exists>err. e = RecvError (GoErr err)) \<or> e = RecvVersionMismatch) \<and>
     list_all (\<lambda>x. x = RecvPong \<or> (\<exists>p. x = RecvPacket p \<and> packet_Version p = V311)) es)"
  unfolding list_all_iff by (rule conjI, code_simp) (rule receive_loop_ends)

text \<open>What a 3.1.1 packet from the server becomes.\<close>

definition v311_event :: "ping_vars \<Rightarrow> packet \<Rightarrow> recv_event" where
  "v311_event g p =
     (if packet_Type p = CtrlPingResp then RecvPong else RecvPacket (v311_view g p))"

definition v311_bytes :: "packet \<Rightarrow> bytes" where
  "v311_bytes p = enc (v311_first p) (v311_body p)"

definition sendable :: "packet \<Rightarrow> bool" where
  "sendable p \<longleftrightarrow> is_v311 p \<and> v311_fits p \<and> int (length (v311_body p)) \<le> maxMsgSize"

lemma packet_Type_view: "packet_Type (v311_view g p) = packet_Type p"
  by (cases p) simp_all

lemma packet_Version_view:
  assumes "is_v311 p" and "base_Version (PingReqPacket_version g) = V311"
    and "base_Version (PingRespPacket_version g) = V311"
  shows "packet_Version (v311_view g p) = V311"
  using assms
  by (cases p) (simp_all add: packet_Version_def base_Version_def is_v311_def conn_packet_zero_def)

lemma recv_one_v311:
  assumes "sendable p" and "base_Version (PingReqPacket_version g) = V311"
    and "base_Version (PingRespPacket_version g) = V311"
  shows "recv_one g V311 (v311_bytes p @ rest) = (v311_event g p, Some rest)"
proof -
  have "Decode g V311 (v311_bytes p @ rest) = (Inr (v311_view g p), rest)"
    using assms(1) Decode_v311 [of p g rest] by (simp add: sendable_def v311_bytes_def)
  moreover have "packet_Version (v311_view g p) = V311"
    using assms by (intro packet_Version_view) (simp_all add: sendable_def)
  ultimately show ?thesis
    by (simp add: recv_one_def v311_event_def packet_Type_view)
qed

lemma handleNetRecv_v311:
  assumes "\<forall>p \<in> set ps. sendable p"
    and "base_Version (PingReqPacket_version g) = V311"
    and "base_Version (PingRespPacket_version g) = V311"
  shows "handleNetRecv g V311 (concat (map v311_bytes ps)) =
    map (v311_event g) ps @ [RecvError (GoErr ErrEOF)]"
  using assms(1)
proof (induction ps)
  case Nil
  have "recv_one g V311 [] = (RecvError (GoErr ErrEOF), None)"
    by (simp add: recv_one_def Decode_def)
  then show ?case
    by (subst handleNetRecv.simps) simp
next
  case (Cons p ps)
  then have "recv_one g V311 (v311_bytes p @ concat (map v311_bytes ps)) =
      (v311_event g p, Some (concat (map v311_bytes ps)))"
    using recv_one_v311 assms(2,3) by simp
  then show ?case
    using Cons by (subst handleNetRecv.simps) simp
qed

text \<open>
  C6: on a 3.1.1 connection the client receives what the server sent. If the stream is the encodings
  of a list of packets, one after the other, the loop hands over exactly these packets in this order
  (ping responses to the keepalive, the rest to \<open>logic\<close>), and then reports the end of the stream.
\<close>
theorem receive_loop_v311:
  assumes "\<forall>p \<in> set ps. sendable p"
    and "base_Version (PingReqPacket_version g) = V311"
    and "base_Version (PingRespPacket_version g) = V311"
  shows "handleNetRecv g V311 (concat (map v311_bytes ps)) =
    map (v311_event g) ps @ [RecvError (GoErr ErrEOF)]"
  using assms by (rule handleNetRecv_v311)

lemma receive_loop_v311_witness:
  "handleNetRecv ping_vars_init V311 (concat (map v311_bytes [PingRespPkt 0,
       PubAckPkt \<lparr>puback_ProtoVersion = 0, puback_PacketID = 7, puback_Code = 0, puback_Props = None\<rparr>])) =
     map (v311_event ping_vars_init) [PingRespPkt 0,
       PubAckPkt \<lparr>puback_ProtoVersion = 0, puback_PacketID = 7, puback_Code = 0, puback_Props = None\<rparr>] @
     [RecvError (GoErr ErrEOF)]"
  by (rule receive_loop_v311)
    (simp_all add: sendable_def is_v311_def packet_Version_def base_Version_def maxMsgSize_def
      ping_vars_init_def)

text \<open>
  An MQTT 5 connection does not survive its first ping response. The package variable that
  \<open>Decode\<close> returns for it has no version, which reads as 3.1.1, so the loop takes the response for a
  packet of another version and closes the connection, whatever follows.
\<close>
theorem v5_pingresp_closes:
  "handleNetRecv ping_vars_init V5 ([0xD0, 0x00] @ rest) = [RecvVersionMismatch]"
proof -
  have "enc 0xD0 [] = [0xD0, 0x00]"
    by (simp add: enc_def frame_def varIntBytes_def maxMsgSize_def)
  then have "Decode ping_vars_init V5 ([0xD0, 0x00] @ rest) = (Inr (PingRespPkt 0), rest)"
    using Decode_enc_empty [of ping_vars_init V5 "0xD0" rest] by (simp add: ping_vars_init_def)
  then have "recv_one ping_vars_init V5 ([0xD0, 0x00] @ rest) = (RecvVersionMismatch, None)"
    by (simp add: recv_one_def packet_Version_def base_Version_def)
  then show ?thesis
    by (subst handleNetRecv.simps) simp
qed

end
