(* ===== verification/System.thy ===== *)
theory System
  imports Conn
begin

text \<open>
  The goroutines of a client at work: callers of the API, and for each connection \<open>handleNetRecv\<close>,
  \<open>logic\<close>, \<open>handleSend\<close> and \<open>keepalive\<close> (\<open>src/client_conn.go\<close>), with the two client workers
  \<open>handleTopicMsg\<close> and \<open>handleMsg\<close>. The step relation interleaves their atomic actions in any order;
  the time at which timers fire is left open.
\<close>

section \<open>State\<close>

text \<open>A goroutine that runs its loop has a list of actions left for the current turn; \<open>Ending\<close> leaves the loop.\<close>

datatype goroutine = Running "action list" | Ending "action list"

datatype keepalive_state = KeepaliveOff | KeepaliveWaiting | KeepalivePinged

text \<open>
  One connection. \<open>cn_in\<close> is all the server will still send before the connection ends; \<open>cn_wire\<close> what
  was written to it and \<open>cn_buf\<close> what the buffered writer holds. \<open>cn_hold\<close> is the event that
  \<open>handleNetRecv\<close> is trying to pass on, \<open>cn_stopped\<close> that \<open>stopSig\<close> is closed.
\<close>

record conn =
  cn_version :: byte
  cn_name :: gostring
  cn_in :: bytes
  cn_buf :: bytes
  cn_wire :: bytes
  cn_logicSendC :: "packet list"
  cn_netRecvC :: "packet list"
  cn_pongs :: nat
  cn_stopped :: bool
  cn_receiving :: bool
  cn_hold :: "recv_event option"
  cn_logic :: goroutine
  cn_sender :: goroutine
  cn_keepalive :: keepalive_state

abbreviation (input) logicCap :: nat where "logicCap \<equiv> 10"
abbreviation (input) netRecvCap :: nat where "netRecvCap \<equiv> 10"
abbreviation (input) pongCap :: nat where "pongCap \<equiv> 1"

text \<open>A connection as \<open>logic\<close> and \<open>handleSend\<close> find it, after the handshake wrote \<open>wire\<close>.\<close>

definition new_conn :: "byte \<Rightarrow> gostring \<Rightarrow> bytes \<Rightarrow> bytes \<Rightarrow> bool \<Rightarrow> conn" where
  "new_conn version name stream wire keepalive = \<lparr>cn_version = version, cn_name = name, cn_in = stream,
     cn_buf = [], cn_wire = wire, cn_logicSendC = [], cn_netRecvC = [], cn_pongs = 0,
     cn_stopped = False, cn_receiving = True, cn_hold = None, cn_logic = Running [],
     cn_sender = Running [], cn_keepalive = (if keepalive then KeepaliveWaiting else KeepaliveOff)\<rparr>"

record 's sys =
  sy_client :: "'s client"
  sy_conns :: "conn list"
  sy_calls :: "action list list"
  sy_vars :: ping_vars
  sy_topics :: bool  \<comment> \<open>\<open>handleTopicMsg\<close> runs\<close>
  sy_msgs :: bool    \<comment> \<open>\<open>handleMsg\<close> runs\<close>

section \<open>Steps of one connection\<close>

text \<open>\<open>handleNetRecv\<close>.\<close>

inductive recv_step :: "ping_vars \<Rightarrow> 's client \<times> conn \<Rightarrow> 's client \<times> conn \<Rightarrow> bool" for g where
  decode: "cn_receiving n \<Longrightarrow> cn_hold n = None \<Longrightarrow> recv_one g (cn_version n) (cn_in n) = (e, r) \<Longrightarrow>
    recv_step g (c, n) (c, n\<lparr>cn_hold := Some e, cn_in := (case r of None \<Rightarrow> cn_in n | Some r \<Rightarrow> r)\<rparr>)"
| packet: "cn_hold n = Some (RecvPacket p) \<Longrightarrow> length (cn_netRecvC n) < netRecvCap \<Longrightarrow>
    recv_step g (c, n) (c, n\<lparr>cn_hold := None, cn_netRecvC := cn_netRecvC n @ [p]\<rparr>)"
| pong: "cn_hold n = Some RecvPong \<Longrightarrow> cn_pongs n < pongCap \<Longrightarrow>
    recv_step g (c, n) (c, n\<lparr>cn_hold := None, cn_pongs := Suc (cn_pongs n)\<rparr>)"
| drop: "cn_hold n = Some (RecvPacket p) \<or> cn_hold n = Some RecvPong \<Longrightarrow> cn_stopped n \<Longrightarrow>
    recv_step g (c, n) (c, n\<lparr>cn_hold := None\<rparr>)"
| broken: "cn_hold n = Some (RecvError (GoErr e)) \<Longrightarrow> length (cl_msgCh c) < msgCap \<Longrightarrow>
    recv_step g (c, n) (c\<lparr>cl_msgCh := cl_msgCh c @ notifyNetMsg (cn_name n) (Some e)\<rparr>,
      n\<lparr>cn_hold := None, cn_stopped := True, cn_receiving := False\<rparr>)"
| mismatch: "cn_hold n = Some RecvVersionMismatch \<Longrightarrow>
    recv_step g (c, n) (c, n\<lparr>cn_hold := None, cn_stopped := True, cn_receiving := False\<rparr>)"

text \<open>
  \<open>logic\<close>. When \<open>netRecvC\<close> is closed and empty, or \<open>stopSig\<close> is closed, it leaves the loop; its deferred
  function closes the connection and reports the end.
\<close>

definition logic_exit :: "conn \<Rightarrow> action list" where
  "logic_exit n = Close # map Notify (notifyNetMsg (cn_name n) (Some ErrEOF))"

inductive logic_step ::
  "('s, packet) persist_method \<Rightarrow> 's client \<times> conn \<Rightarrow> 's client \<times> conn \<Rightarrow> bool" for M where
  take: "cn_logic n = Running [] \<Longrightarrow> cn_netRecvC n = p # ps \<Longrightarrow>
    logic_step M (c, n) (c, n\<lparr>cn_netRecvC := ps, cn_logic := Running (logic_actions (cl_idGen c) p)\<rparr>)"
| closed: "cn_logic n = Running [] \<Longrightarrow> cn_netRecvC n = [] \<and> \<not> cn_receiving n \<or> cn_stopped n \<Longrightarrow>
    logic_step M (c, n) (c, n\<lparr>cn_logic := Ending (logic_exit n)\<rparr>)"
| send: "cn_logic n = Running (SendLogic p # rest) \<Longrightarrow> length (cn_logicSendC n) < logicCap \<Longrightarrow>
    logic_step M (c, n) (c, n\<lparr>cn_logicSendC := cn_logicSendC n @ [p], cn_logic := Running rest\<rparr>)"
| send_stopped: "cn_logic n = Running (SendLogic p # rest) \<Longrightarrow> cn_stopped n \<Longrightarrow>
    logic_step M (c, n) (c, n\<lparr>cn_logic := Running rest\<rparr>)"
| act: "cn_logic n = Running (a # rest) \<Longrightarrow> client_act M c a rest c' rest' \<Longrightarrow>
    logic_step M (c, n) (c', n\<lparr>cn_logic := Running rest'\<rparr>)"
| close: "cn_logic n = Ending (Close # rest) \<Longrightarrow>
    logic_step M (c, n) (c, n\<lparr>cn_logic := Ending rest\<rparr>)"
| ending: "cn_logic n = Ending (a # rest) \<Longrightarrow> client_act M c a rest c' rest' \<Longrightarrow>
    logic_step M (c, n) (c', n\<lparr>cn_logic := Ending rest'\<rparr>)"

text \<open>
  \<open>handleSend\<close>. It takes a packet from either channel and writes it; an encoding error ends it, and a
  panic of the encoder ends the program (no step). \<open>spill\<close> is the buffered writer passing on the front
  of its buffer when it is full, and the flush timer.
\<close>

definition send_taken ::
  "(packet \<Rightarrow> action list) \<Rightarrow> conn \<Rightarrow> packet \<Rightarrow> (conn \<times> packet) option" where
  "send_taken after n p = (case send_packet (cn_version n) (cn_buf n) p of
       ((buf, None), p') \<Rightarrow> Some (n\<lparr>cn_buf := buf, cn_sender := Running (after p')\<rparr>, p')
     | ((buf, Some (GoErr e)), p') \<Rightarrow> Some (n\<lparr>cn_buf := buf, cn_sender := Ending []\<rparr>, p')
     | _ \<Rightarrow> None)"

inductive send_step ::
  "('s, packet) persist_method \<Rightarrow> 's client \<times> conn \<Rightarrow> packet option \<Rightarrow> 's client \<times> conn \<Rightarrow> bool" for M where
  stop: "cn_sender n = Running [] \<Longrightarrow> cn_stopped n \<Longrightarrow>
    send_step M (c, n) None (c, n\<lparr>cn_sender := Ending []\<rparr>)"
| take: "cn_sender n = Running [] \<Longrightarrow> cl_sendCh c = p # ps \<Longrightarrow>
    send_taken after_send n p = Some (n', p') \<Longrightarrow> send_step M (c, n) (Some p') (c\<lparr>cl_sendCh := ps\<rparr>, n')"
| take_logic: "cn_sender n = Running [] \<Longrightarrow> cn_logicSendC n = p # ps \<Longrightarrow>
    send_taken after_logic_send n p = Some (n', p') \<Longrightarrow>
    send_step M (c, n) (Some p') (c, n'\<lparr>cn_logicSendC := ps\<rparr>)"
| spill: "cn_sender n = Running as \<Longrightarrow> k \<le> length (cn_buf n) \<Longrightarrow>
    send_step M (c, n) None (c, n\<lparr>cn_wire := cn_wire n @ take k (cn_buf n), cn_buf := drop k (cn_buf n)\<rparr>)"
| flush_error: "cn_sender n = Running [] \<Longrightarrow>
    send_step M (c, n) None (c, n\<lparr>cn_sender := Ending (map Notify (notifyNetMsg (cn_name n) (Some ErrWrite)))\<rparr>)"
| flush: "cn_sender n = Running (Flush # rest) \<Longrightarrow>
    send_step M (c, n) None (c, n\<lparr>cn_wire := cn_wire n @ cn_buf n, cn_buf := [], cn_sender := Running rest\<rparr>)"
| flush_failed: "cn_sender n = Running (Flush # rest) \<Longrightarrow>
    send_step M (c, n) None (c, n\<lparr>cn_sender :=
      Running (map Notify (notifyNetMsg (cn_name n) (Some ErrWrite)) @ rest)\<rparr>)"
| close: "cn_sender n = Running (Close # rest) \<Longrightarrow>
    send_step M (c, n) None (c, n\<lparr>cn_sender := Running rest\<rparr>)"
| exit: "cn_sender n = Running (Exit # rest) \<Longrightarrow>
    send_step M (c, n) None (c, n\<lparr>cn_stopped := True, cn_sender := Ending []\<rparr>)"
| act: "cn_sender n = Running (a # rest) \<Longrightarrow> client_act M c a rest c' rest' \<Longrightarrow>
    send_step M (c, n) None (c', n\<lparr>cn_sender := Running rest'\<rparr>)"
| ending: "cn_sender n = Ending (a # rest) \<Longrightarrow> client_act M c a rest c' rest' \<Longrightarrow>
    send_step M (c, n) None (c', n\<lparr>cn_sender := Ending rest'\<rparr>)"

text \<open>
  \<open>keepalive\<close>: on a tick it sends \<open>PingReqPacket\<close> (or skips the send when the connection stops), then
  waits for a response, the timeout, or the stop. A closed \<open>keepaliveC\<close> ends it.
\<close>

inductive keepalive_step :: "ping_vars \<Rightarrow> conn \<Rightarrow> conn \<Rightarrow> bool" for g where
  tick: "cn_keepalive n = KeepaliveWaiting \<Longrightarrow> length (cn_logicSendC n) < logicCap \<Longrightarrow>
    keepalive_step g n (n\<lparr>cn_logicSendC := cn_logicSendC n @ [PingReqPkt (PingReqPacket_version g)],
      cn_keepalive := KeepalivePinged\<rparr>)"
| tick_stopped: "cn_keepalive n = KeepaliveWaiting \<Longrightarrow> cn_stopped n \<Longrightarrow>
    keepalive_step g n (n\<lparr>cn_keepalive := KeepalivePinged\<rparr>)"
| pong: "cn_keepalive n = KeepalivePinged \<Longrightarrow> cn_pongs n = Suc k \<Longrightarrow>
    keepalive_step g n (n\<lparr>cn_pongs := k, cn_keepalive := KeepaliveWaiting\<rparr>)"
| closed: "cn_keepalive n = KeepalivePinged \<Longrightarrow> cn_pongs n = 0 \<Longrightarrow> \<not> cn_receiving n \<Longrightarrow>
    keepalive_step g n (n\<lparr>cn_keepalive := KeepaliveOff\<rparr>)"
| timeout: "cn_keepalive n = KeepalivePinged \<Longrightarrow>
    keepalive_step g n (n\<lparr>cn_stopped := True, cn_keepalive := KeepaliveOff\<rparr>)"
| stop: "cn_keepalive n \<noteq> KeepaliveOff \<Longrightarrow> cn_stopped n \<Longrightarrow>
    keepalive_step g n (n\<lparr>cn_keepalive := KeepaliveOff\<rparr>)"

section \<open>Steps of the system\<close>

text \<open>\<open>SetVersion\<close> on \<open>PingReqPacket\<close> changes the package variable.\<close>

definition sent_var :: "packet option \<Rightarrow> ping_vars \<Rightarrow> ping_vars" where
  "sent_var sent g = (case sent of Some (PingReqPkt v) \<Rightarrow> g\<lparr>PingReqPacket_version := v\<rparr> | _ \<Rightarrow> g)"

text \<open>The bytes a packet encodes to, when it can be encoded.\<close>

definition written :: "packet \<Rightarrow> bytes option" where
  "written p = (case packet_WriteTo bytes_Buffer [] p of ((b, None), _) \<Rightarrow> Some b | _ \<Rightarrow> None)"

text \<open>
  API calls start at any time and act one by one. \<open>handleTopicMsg\<close> and \<open>handleMsg\<close> empty their channels
  until they see that the client stopped; a \<open>select\<close> may still take a message after that. \<open>Disconnect\<close> puts its packet on a connection's \<open>logicSendC\<close>. Stopping the
  client stops its connections, whose contexts are children of the client's.
\<close>

inductive sys_step :: "('s, packet) persist_method \<Rightarrow> 's sys \<Rightarrow> 's sys \<Rightarrow> bool" for M where
  publish: "sys_step M s (s\<lparr>sy_calls := sy_calls s @ [Publish (sy_client s) msg]\<rparr>)"
| subscribe: "sys_step M s (s\<lparr>sy_calls := sy_calls s @ [Subscribe (sy_client s) topics]\<rparr>)"
| unsubscribe: "sys_step M s (s\<lparr>sy_calls := sy_calls s @ [Unsubscribe (sy_client s) names]\<rparr>)"
| call: "i < length (sy_calls s) \<Longrightarrow> sy_calls s ! i = a # rest \<Longrightarrow>
    client_act M (sy_client s) a rest c' rest' \<Longrightarrow>
    sys_step M s (s\<lparr>sy_client := c', sy_calls := (sy_calls s)[i := rest']\<rparr>)"
| connect: "written (packet_SetVersion (ConnPkt cp) version) = Some wire \<Longrightarrow>
    sys_step M s (s\<lparr>sy_conns := sy_conns s @ [(new_conn version name stream wire keepalive)
      \<lparr>cn_stopped := cl_closing (sy_client s)\<rparr>]\<rparr>)"
| recv: "i < length (sy_conns s) \<Longrightarrow>
    recv_step (sy_vars s) (sy_client s, sy_conns s ! i) (c', n') \<Longrightarrow>
    sys_step M s (s\<lparr>sy_client := c', sy_conns := (sy_conns s)[i := n']\<rparr>)"
| logic: "i < length (sy_conns s) \<Longrightarrow> logic_step M (sy_client s, sy_conns s ! i) (c', n') \<Longrightarrow>
    sys_step M s (s\<lparr>sy_client := c', sy_conns := (sy_conns s)[i := n']\<rparr>)"
| send: "i < length (sy_conns s) \<Longrightarrow> send_step M (sy_client s, sy_conns s ! i) sent (c', n') \<Longrightarrow>
    sys_step M s (s\<lparr>sy_client := c', sy_conns := (sy_conns s)[i := n'],
      sy_vars := sent_var sent (sy_vars s)\<rparr>)"
| keepalive: "i < length (sy_conns s) \<Longrightarrow> keepalive_step (sy_vars s) (sy_conns s ! i) n' \<Longrightarrow>
    sys_step M s (s\<lparr>sy_conns := (sy_conns s)[i := n']\<rparr>)"
| disconnect: "i < length (sy_conns s) \<Longrightarrow> length (cn_logicSendC (sy_conns s ! i)) < logicCap \<Longrightarrow>
    sys_step M s (s\<lparr>sy_conns := (sy_conns s)[i := (sy_conns s ! i)
      \<lparr>cn_logicSendC := cn_logicSendC (sy_conns s ! i) @ [DisconnPkt d]\<rparr>]\<rparr>)"
| dispatch: "sy_topics s \<Longrightarrow> cl_recvCh (sy_client s) = p # ps \<Longrightarrow>
    sys_step M s (s\<lparr>sy_client := (sy_client s)\<lparr>cl_recvCh := ps\<rparr>\<rparr>)"
| topics_stop: "cl_closing (sy_client s) \<Longrightarrow> sys_step M s (s\<lparr>sy_topics := False\<rparr>)"
| handle: "sy_msgs s \<Longrightarrow> cl_msgCh (sy_client s) = m # ms \<Longrightarrow>
    sys_step M s (s\<lparr>sy_client := (sy_client s)\<lparr>cl_msgCh := ms\<rparr>\<rparr>)"
| msgs_stop: "cl_closing (sy_client s) \<Longrightarrow> sys_step M s (s\<lparr>sy_msgs := False\<rparr>)"
| destroy: "sys_step M s (s\<lparr>sy_client := (sy_client s)\<lparr>cl_closing := True\<rparr>,
      sy_conns := map (\<lambda>n. n\<lparr>cn_stopped := True\<rparr>) (sy_conns s)\<rparr>)"

inductive_cases sys_stepE: "sys_step M s s'"

definition sys_init :: "'s \<Rightarrow> 's sys" where
  "sys_init persist = \<lparr>sy_client = defaultClient persist, sy_conns = [], sy_calls = [],
     sy_vars = ping_vars_init, sy_topics = True, sy_msgs = True\<rparr>"

section \<open>What was written is a sequence of packets\<close>

text \<open>A writer into a \<open>bytes.Buffer\<close> that only appends, and does not look at what is there.\<close>

definition blind :: "(bytes \<Rightarrow> bytes wres) \<Rightarrow> bool" where
  "blind f \<longleftrightarrow> (\<forall>w. f w = (w @ fst (f []), snd (f [])))"

lemma blind_fail: "blind (\<lambda>w. (w, e))"
  by (simp add: blind_def)

lemma blind_base_write: "blind (\<lambda>w. base_write bytes_Buffer w first vh pl)"
  by (simp add: blind_def base_write_def bytes_Buffer_def wbind_def split: sum.split)

lemma blind_base_writeV5: "blind (\<lambda>w. base_writeV5 bytes_Buffer w first vh props pl)"
  using blind_base_write [of first _ pl]
  by (cases "varIntBytes (int (length props))") (simp_all add: base_writeV5_def blind_fail)

lemma blind_with_props: "(\<And>props. blind (\<lambda>w. k props w)) \<Longrightarrow> blind (\<lambda>w. with_props r w (\<lambda>props. k props w))"
  by (cases r) (simp_all add: blind_fail)

lemma blind_by_version: "blind a \<Longrightarrow> blind b \<Longrightarrow> blind (\<lambda>w. by_version v w (a w) (b w))"
  by (cases "base_Version v = V311"; cases "base_Version v = V5") (simp_all add: by_version_def blind_fail)

lemma blind_lift_write: "blind (\<lambda>w. lift_write (bw_Write bytes_Buffer w bs))"
  by (simp add: blind_def lift_write_def bytes_Buffer_def)

lemma blind_ping: "blind (\<lambda>w. pingreq_WriteTo bytes_Buffer w v)" "blind (\<lambda>w. pingresp_WriteTo bytes_Buffer w v)"
  by (simp_all add: blind_def pingreq_WriteTo_def pingresp_WriteTo_def ping_write_def by_version_def
      lift_write_def bytes_Buffer_def Let_def split: option.split)

lemmas blind_intros = blind_by_version blind_with_props blind_base_writeV5 blind_base_write
  blind_lift_write blind_fail

lemma blind_conn: "blind (\<lambda>w. fst (conn_WriteTo bytes_Buffer w (Some c)))"
  by (simp add: conn_WriteTo_def conn_flags_eq Let_def) (intro blind_intros)

lemma blind_packet: "blind (\<lambda>w. fst (packet_WriteTo bytes_Buffer w p))"
proof (cases p)
  case (ConnPkt c)
  then show ?thesis
    using blind_conn [of c] by (simp add: split_beta)
qed (auto simp: connack_WriteTo_def publish_WriteTo_def puback_WriteTo_def pubrecv_WriteTo_def
    pubrel_WriteTo_def pubcomp_WriteTo_def subscribe_WriteTo_def suback_WriteTo_def unsub_WriteTo_def
    unsuback_WriteTo_def disconn_WriteTo_def auth_WriteTo_def Let_def blind_ping intro!: blind_intros)

lemma send_packet_written:
  assumes "send_packet version buf p = ((buf', None), p')"
  shows "\<exists>b. written (packet_SetVersion p version) = Some b \<and> buf' = buf @ b"
proof -
  let ?p = "packet_SetVersion p version"
  have "fst (packet_WriteTo bytes_Buffer buf ?p) =
      (buf @ fst (fst (packet_WriteTo bytes_Buffer [] ?p)), snd (fst (packet_WriteTo bytes_Buffer [] ?p)))"
    using blind_packet [of ?p] unfolding blind_def by blast
  then have "buf' = buf @ fst (fst (packet_WriteTo bytes_Buffer [] ?p))"
    and "snd (fst (packet_WriteTo bytes_Buffer [] ?p)) = None"
    using assms by (simp_all add: send_packet_def)
  then show ?thesis
    by (cases "packet_WriteTo bytes_Buffer [] ?p") (auto simp: written_def split: prod.splits)
qed

text \<open>The invariant of a connection: \<open>ps\<close> are the packets written so far, the \<open>CONNECT\<close> first.\<close>

definition framed :: "conn \<Rightarrow> bool" where
  "framed n \<longleftrightarrow> (\<forall>as. cn_sender n = Running as \<longrightarrow> (\<exists>cp ps.
     list_all2 (\<lambda>p b. written (packet_SetVersion p (cn_version n)) = Some b) (ConnPkt cp # fst ps) (snd ps) \<and>
     cn_wire n @ cn_buf n = concat (snd ps)))"

lemma framed_new:
  "written (packet_SetVersion (ConnPkt cp) version) = Some wire \<Longrightarrow>
   framed ((new_conn version name stream wire keepalive)\<lparr>cn_stopped := b\<rparr>)"
  unfolding framed_def new_conn_def by (intro allI impI exI [of _ cp] exI [of _ "([], [wire])"]) simp

lemma framed_cong:
  assumes "framed n" and "cn_version n' = cn_version n" and "cn_wire n' @ cn_buf n' = cn_wire n @ cn_buf n"
    and "\<And>as. cn_sender n' = Running as \<Longrightarrow> \<exists>as. cn_sender n = Running as"
  shows "framed n'"
  using assms unfolding framed_def by metis

lemma framed_sent:
  assumes "framed n" and "cn_sender n = Running as" and "send_taken after n p = Some (n', p')"
  shows "framed n'"
proof (cases "cn_sender n'")
  case (Running as')
  then obtain buf' where s: "send_packet (cn_version n) (cn_buf n) p = ((buf', None), p')"
    and n': "n' = n\<lparr>cn_buf := buf', cn_sender := Running (after p')\<rparr>"
    using assms(3) by (auto simp: send_taken_def split: prod.splits option.splits fault.splits)
  obtain b where b: "written (packet_SetVersion p (cn_version n)) = Some b" and buf: "buf' = cn_buf n @ b"
    using send_packet_written [OF s] by blast
  obtain cp ps where ps: "list_all2 (\<lambda>p b. written (packet_SetVersion p (cn_version n)) = Some b)
      (ConnPkt cp # fst ps) (snd ps)" and w: "cn_wire n @ cn_buf n = concat (snd ps)"
    using assms(1,2) by (auto simp: framed_def)
  have "list_all2 (\<lambda>p b. written (packet_SetVersion p (cn_version n)) = Some b)
      (ConnPkt cp # fst ps @ [p]) (snd ps @ [b])"
    using list_all2_appendI [OF ps, of "[p]" "[b]"] b by simp
  moreover have "cn_wire n' @ cn_buf n' = concat (snd ps @ [b])"
    using n' buf w by simp
  ultimately show ?thesis
    using n' unfolding framed_def by (intro allI impI exI [of _ cp] exI [of _ "(fst ps @ [p], snd ps @ [b])"]) simp
next
  case (Ending as')
  then show ?thesis
    by (simp add: framed_def)
qed

lemma framed_recv: "recv_step g (c, n) (c', n') \<Longrightarrow> framed n \<Longrightarrow> framed n'"
  by (induction "(c, n)" "(c', n')" rule: recv_step.induct) (auto intro: framed_cong)

lemma framed_logic: "logic_step M (c, n) (c', n') \<Longrightarrow> framed n \<Longrightarrow> framed n'"
  by (induction "(c, n)" "(c', n')" rule: logic_step.induct) (auto intro: framed_cong)

lemma framed_keepalive: "keepalive_step g n n' \<Longrightarrow> framed n \<Longrightarrow> framed n'"
  by (induction n n' rule: keepalive_step.induct) (auto intro: framed_cong)

lemma framed_spill: "framed n \<Longrightarrow>
    framed (n\<lparr>cn_wire := cn_wire n @ take k (cn_buf n), cn_buf := drop k (cn_buf n)\<rparr>)"
  by (erule framed_cong) simp_all

lemma framed_send: "send_step M (c, n) sent (c', n') \<Longrightarrow> framed n \<Longrightarrow> framed n'"
proof (induction "(c, n)" sent "(c', n')" rule: send_step.induct)
  case (take p ps p')
  then show ?case
    using framed_sent by blast
next
  case (take_logic p ps n1 p')
  then have "framed n1"
    using framed_sent by blast
  then have "framed (n1\<lparr>cn_logicSendC := ps\<rparr>)"
    by (rule framed_cong) simp_all
  then show ?case
    using take_logic by blast
next
  case (spill as k)
  then show ?case
    using framed_spill by blast
qed (auto intro: framed_cong)

definition all_framed :: "'s sys \<Rightarrow> bool" where
  "all_framed s \<longleftrightarrow> (\<forall>n \<in> set (sy_conns s). framed n)"

lemma all_framed_update:
  assumes "all_framed s" and "i < length (sy_conns s)" and "framed (sy_conns s ! i) \<Longrightarrow> framed n'"
    and "sy_conns s' = (sy_conns s)[i := n']"
  shows "all_framed s'"
  using assms set_update_subset_insert [of "sy_conns s" i n'] by (auto simp: all_framed_def)

lemma all_framed_step: "sys_step M s s' \<Longrightarrow> all_framed s \<Longrightarrow> all_framed s'"
proof (induction rule: sys_step.induct)
  case (connect cp version wire s name stream keepalive)
  then show ?case
    using framed_new by (auto simp: all_framed_def)
next
  case (recv i s c' n')
  then show ?case
    by (intro all_framed_update [OF recv(3,1), of n'] framed_recv [OF recv(2)]) simp_all
next
  case (logic i s c' n')
  then show ?case
    by (intro all_framed_update [OF logic(3,1), of n'] framed_logic [OF logic(2)]) simp_all
next
  case (send i s sent c' n')
  then show ?case
    by (intro all_framed_update [OF send(3,1), of n'] framed_send [OF send(2)]) simp_all
next
  case (keepalive i s n')
  then show ?case
    by (intro all_framed_update [OF keepalive(3,1), of n'] framed_keepalive [OF keepalive(2)]) simp_all
next
  case (disconnect i s d)
  let ?n = "(sy_conns s ! i)\<lparr>cn_logicSendC := cn_logicSendC (sy_conns s ! i) @ [DisconnPkt d]\<rparr>"
  have "framed (sy_conns s ! i) \<Longrightarrow> framed ?n"
    by (erule framed_cong) simp_all
  then show ?case
    by (rule all_framed_update [OF disconnect(3,1), of ?n]) simp_all
next
  case (destroy s)
  have "framed n \<Longrightarrow> framed (n\<lparr>cn_stopped := True\<rparr>)" for n
    by (erule framed_cong) simp_all
  then show ?case
    using destroy by (auto simp: all_framed_def)
qed (auto simp: all_framed_def)

text \<open>
  C11: what a connection has written is a sequence of whole packets. In every state the system can
  reach, under every interleaving, the bytes written and buffered on a connection whose \<open>handleSend\<close>
  still runs are the encodings of its \<open>CONNECT\<close> and of the packets sent since, at the connection's
  version, one after the other.
\<close>
theorem connection_stream_framed:
  assumes "(sys_step M)\<^sup>*\<^sup>* (sys_init persist) s" and "n \<in> set (sy_conns s)" and "cn_sender n = Running as"
  shows "\<exists>cp ps bs. list_all2 (\<lambda>p b. written (packet_SetVersion p (cn_version n)) = Some b)
      (ConnPkt cp # ps) bs \<and> cn_wire n @ cn_buf n = concat bs"
proof -
  have "all_framed s"
    by (rule run_invariant [OF assms(1)]) (simp add: all_framed_def sys_init_def, rule all_framed_step)
  then obtain cp ps where "list_all2 (\<lambda>p b. written (packet_SetVersion p (cn_version n)) = Some b)
      (ConnPkt cp # fst ps) (snd ps) \<and> cn_wire n @ cn_buf n = concat (snd ps)"
    using assms(2,3) unfolding all_framed_def framed_def by metis
  then show ?thesis
    by blast
qed

definition empty_connect :: bytes where
  "empty_connect = [0x10, 12, 0, 4, 0x4D, 0x51, 0x54, 0x54, 4, 2, 0, 0, 0, 0]"

lemma written_empty_connect:
  "written (packet_SetVersion (ConnPkt conn_packet_zero) V311) = Some empty_connect"
  by code_simp

definition one_conn :: "unit sys" where
  "one_conn = (sys_init ())\<lparr>sy_conns := [new_conn V311 [0x61] [0xD0, 0] empty_connect False]\<rparr>"

lemma one_conn_reachable: "(sys_step NonePersist)\<^sup>*\<^sup>* (sys_init ()) one_conn"
proof -
  have "sys_step NonePersist (sys_init ()) one_conn"
    using sys_step.connect [OF written_empty_connect, of NonePersist "sys_init ()" "[0x61]" "[0xD0, 0]" False]
    by (simp add: one_conn_def sys_init_def new_conn_def defaultClient_def)
  then show ?thesis
    by blast
qed

lemma connection_stream_framed_witness:
  "\<exists>cp ps bs. list_all2 (\<lambda>p b. written (packet_SetVersion p V311) = Some b) (ConnPkt cp # ps) bs \<and>
     empty_connect @ [] = concat bs"
  using connection_stream_framed [OF one_conn_reachable,
      of "new_conn V311 [0x61] [0xD0, 0] empty_connect False" "[]"]
  by (simp add: one_conn_def new_conn_def)

end
