(* ===== verification/Flows.thy ===== *)
theory Flows
  imports System
begin

text \<open>
  What the goroutines of \<open>System\<close> achieve together: which acknowledgement releases which request, what
  happens to the packets of the two receiving quality levels, what stays in the packet store, and
  where a goroutine can get stuck.
\<close>

section \<open>Acknowledgements\<close>

text \<open>The request a packet identifier stands for is answered by one kind of packet.\<close>

definition answers :: "packet option \<Rightarrow> packet \<Rightarrow> bool" where
  "answers origin pkt = (case origin of
       Some (SubscribePkt s) \<Rightarrow> packet_Type pkt = CtrlSubAck
     | Some (UnsubPkt u) \<Rightarrow> packet_Type pkt = CtrlUnSubAck
     | Some (PublishPkt q) \<Rightarrow> pub_Qos q = Qos1 \<and> packet_Type pkt = CtrlPubAck \<or>
         pub_Qos q = Qos2 \<and> packet_Type pkt = CtrlPubComp
     | _ \<Rightarrow> False)"

fun ack_id :: "packet \<Rightarrow> u16" where
  "ack_id (SubAckPkt p) = suback_PacketID p"
| "ack_id (UnsubAckPkt p) = unsuback_PacketID p"
| "ack_id (PubAckPkt p) = puback_PacketID p"
| "ack_id (PubRecvPkt p) = pubrecv_PacketID p"
| "ack_id (PubRelPkt p) = pubrel_PacketID p"
| "ack_id (PubCompPkt p) = pubcomp_PacketID p"
| "ack_id _ = 0"

text \<open>The report of success that a request gets, given the answer.\<close>

definition granted_codes :: "packet \<Rightarrow> bytes" where
  "granted_codes pkt = (case pkt of SubAckPkt p \<Rightarrow> suback_Codes p | _ \<Rightarrow> [])"

definition success_report :: "packet option \<Rightarrow> packet \<Rightarrow> message list" where
  "success_report origin pkt = (case origin of
       Some (SubscribePkt s) \<Rightarrow> [SubMsg (granted_topics (sub_Topics s) (granted_codes pkt)) None]
     | Some (UnsubPkt u) \<Rightarrow> [UnSubMsg (unsub_TopicNames u) None]
     | Some (PublishPkt q) \<Rightarrow> [PubMsg (pub_TopicName q) None]
     | _ \<Rightarrow> [])"

lemmas logic_defs = logic_suback_def logic_unsuback_def logic_publish_def logic_puback_def
  logic_pubrecv_def logic_pubrel_def logic_pubcomp_def pending_publish_def
  notifySubMsg_def notifyUnSubMsg_def notifyPubMsg_def

text \<open>
  C18: \<open>logic\<close> completes a request exactly when the packet that answers it arrives. If the identifier of
  the packet is pending for a request of the kind it answers, the actions end with the report of
  success, the release of that identifier and the deletion of the stored copy, in this order;
  otherwise no identifier is released, nothing is reported, and nothing is deleted from the store.
\<close>
theorem logic_completes_answered:
  "if answers (getExtra g (ack_id pkt)) pkt
   then \<exists>before. logic_actions g pkt = before @ map Notify (success_report (getExtra g (ack_id pkt)) pkt) @
      [Free (ack_id pkt), Persist pkt (OpDelete (sendKey (ack_id pkt)))]
   else \<forall>a \<in> set (logic_actions g pkt). (\<forall>pid. a \<noteq> Free pid) \<and> (\<forall>m. a \<noteq> Notify m) \<and>
      (\<forall>p k. a \<noteq> Persist p (OpDelete k))"
  by (cases pkt)
    (auto simp: logic_defs answers_def success_report_def granted_codes_def
      split: option.splits packet.splits if_splits)

text \<open>A generator on which the identifier 7 is pending for a QoS 2 publish.\<close>

definition own_qos2 :: "packet id_generator" where
  "own_qos2 = setUsed newIDGenerator 7 (PublishPkt (publish_packet_zero\<lparr>pub_Qos := 2\<rparr>))"

lemma own_qos2_pending: "getExtra own_qos2 7 = Some (PublishPkt (publish_packet_zero\<lparr>pub_Qos := 2\<rparr>))"
  by (simp add: own_qos2_def getExtra_def setUsed_def)

lemma logic_completes_answered_witness:
  "(\<exists>before. logic_actions own_qos2 (PubCompPkt \<lparr>pubcomp_ProtoVersion = 0, pubcomp_PacketID = 7,
       pubcomp_Code = 0, pubcomp_Props = None\<rparr>) = before @ [Notify (PubMsg [] None), Free 7,
     Persist (PubCompPkt \<lparr>pubcomp_ProtoVersion = 0, pubcomp_PacketID = 7, pubcomp_Code = 0,
       pubcomp_Props = None\<rparr>) (OpDelete (sendKey 7))]) \<and>
   Free 7 \<notin> set (logic_actions own_qos2 (PubAckPkt \<lparr>puback_ProtoVersion = 0, puback_PacketID = 7,
       puback_Code = 0, puback_Props = None\<rparr>))"
  using logic_completes_answered [of own_qos2 "PubCompPkt \<lparr>pubcomp_ProtoVersion = 0,
      pubcomp_PacketID = 7, pubcomp_Code = 0, pubcomp_Props = None\<rparr>"]
    logic_completes_answered [of own_qos2 "PubAckPkt \<lparr>puback_ProtoVersion = 0,
      puback_PacketID = 7, puback_Code = 0, puback_Props = None\<rparr>"]
  by (auto simp: own_qos2_pending answers_def success_report_def publish_packet_zero_def)

section \<open>Receiving at quality level 2\<close>

text \<open>
  A \<open>PUBCOMP\<close> is sent only for a publish of the client's own. \<open>logic\<close> looks up the identifier of
  the server's \<open>PUBREL\<close> among the client's requests, so unless the client has itself a QoS 2 publish
  pending under the same number, a QoS 2 message from the server is never completed.
\<close>
theorem pubcomp_needs_own_publish:
  assumes "SendLogic (PubCompPkt q) \<in> set (logic_actions g pkt)"
  shows "\<exists>p. getExtra g (pubcomp_PacketID q) = Some (PublishPkt p) \<and> pub_Qos p = Qos2 \<and>
    (\<exists>r. pkt = PubRelPkt r \<and> pubrel_PacketID r = pubcomp_PacketID q)"
  using assms
  by (cases pkt)
    (auto simp: logic_defs pubrel_for_def split: option.splits packet.splits if_splits)

lemma pubcomp_needs_own_publish_witness:
  "\<exists>p. getExtra own_qos2 7 = Some (PublishPkt p) \<and> pub_Qos p = Qos2 \<and>
    (\<exists>r. PubRelPkt \<lparr>pubrel_ProtoVersion = 0, pubrel_PacketID = 7, pubrel_Code = 0,
         pubrel_Props = None\<rparr> = PubRelPkt r \<and> pubrel_PacketID r = 7)"
  using pubcomp_needs_own_publish [of "\<lparr>pubcomp_ProtoVersion = 0, pubcomp_PacketID = 7,
      pubcomp_Code = 0, pubcomp_Props = None\<rparr>" own_qos2 "PubRelPkt \<lparr>pubrel_ProtoVersion = 0,
      pubrel_PacketID = 7, pubrel_Code = 0, pubrel_Props = None\<rparr>"]
  by (simp add: logic_defs own_qos2_def getExtra_def setUsed_def publish_packet_zero_def)

section \<open>Acknowledging deletes the wrong copy\<close>

text \<open>
  Sending the \<open>PUBACK\<close> for a message of the server deletes the stored copy of the client's own
  packet with that number, which is still waiting for its answer. After \<open>handleSend\<close> has written the
  acknowledgement its one remaining action, when it runs, leaves nothing stored under the send key,
  while the identifier stays pending.
\<close>
theorem sending_puback_drops_own_copy:
  assumes "send_taken after_logic_send n (PubAckPkt p) = Some (n', p')"
    and "cn_sender n' = Running (a # rest)" and "mem_ok (cl_persist c)"
    and "client_act MemPersist c a rest c' rest'"
  shows "found MemPersist (cl_persist c') (sendKey (puback_PacketID p)) = None \<and>
    cl_idGen c' = cl_idGen c"
proof -
  have "p' = PubAckPkt (p\<lparr>puback_ProtoVersion := cn_version n\<rparr>)"
    using assms(1) by (auto simp: send_taken_def send_packet_def split: prod.splits option.splits fault.splits)
  then have a: "a = Persist p' (OpDelete (sendKey (puback_PacketID p)))"
    using assms(1,2) by (auto simp: send_taken_def split: prod.splits option.splits fault.splits)
  obtain s' e where d: "pm_Delete MemPersist (cl_persist c) (sendKey (puback_PacketID p)) = (s', e)"
    and c': "c' = c\<lparr>cl_persist := s'\<rparr>"
    using assms(4) a by (auto elim!: client_actE)
  then have "e = None"
    by (simp add: mem_Delete_def)
  then have "found MemPersist s' (sendKey (puback_PacketID p)) = None"
    using mem_persist.delete [OF assms(3)] d by simp
  then show ?thesis
    using c' by simp
qed

abbreviation (input) ack7 :: "byte \<Rightarrow> puback_packet" where
  "ack7 v \<equiv> \<lparr>puback_ProtoVersion = v, puback_PacketID = 7, puback_Code = 0, puback_Props = None\<rparr>"

abbreviation (input) idle :: conn where
  "idle \<equiv> new_conn V311 [0x61] [] empty_connect False"

abbreviation (input) storing :: "packet mem_persist option client" where
  "storing \<equiv> defaultClient (Some \<lparr>mem_data = [(sendKey 7, Some (PingReqPkt 0))], mem_n = 1,
     mem_strategy = defaultPersistStrategy\<rparr>)"

lemma send_ack7:
  "send_taken after_logic_send idle (PubAckPkt (ack7 0)) =
     Some (idle\<lparr>cn_buf := [0x40, 2, 0, 7], cn_sender := Running (after_logic_send (PubAckPkt (ack7 4)))\<rparr>,
       PubAckPkt (ack7 4))"
proof -
  have "send_packet V311 [] (PubAckPkt (ack7 0)) = (([0x40, 2, 0, 7], None), PubAckPkt (ack7 4))"
    by code_simp
  then show ?thesis
    by (simp add: send_taken_def new_conn_def)
qed

lemma sending_puback_drops_own_copy_witness:
  "\<exists>c' rest'. found MemPersist (cl_persist storing) (sendKey 7) \<noteq> None \<and>
     client_act MemPersist storing (Persist (PubAckPkt (ack7 4)) (OpDelete (sendKey 7))) [] c' rest' \<and>
     found MemPersist (cl_persist c') (sendKey 7) = None \<and> cl_idGen c' = cl_idGen storing"
proof -
  have ok: "mem_ok (cl_persist storing)"
    by (simp add: defaultClient_def mem_ok_def)
  obtain s' e where run: "run_op MemPersist (cl_persist storing) (OpDelete (sendKey 7)) = (s', e)"
    by fastforce
  note act = client_act.persist [OF run, where p = "PubAckPkt (ack7 4)" and rest = "[]"]
  have "found MemPersist s' (sendKey 7) = None"
    using sending_puback_drops_own_copy [OF send_ack7 _ ok act] by simp
  then show ?thesis
    using act by (intro exI [of _ "storing\<lparr>cl_persist := s'\<rparr>"] exI)
      (auto simp: found_MemPersist defaultClient_def)
qed

section \<open>Received messages stay in the store\<close>

text \<open>Actions that leave everything under the receive keys in place.\<close>

definition keeps_received :: "action \<Rightarrow> bool" where
  "keeps_received a = (case a of
       Persist p op \<Rightarrow> op \<noteq> OpDestroy \<and> (\<forall>i. op \<noteq> OpDelete (recvKey i))
     | _ \<Rightarrow> True)"

fun goroutine_actions :: "goroutine \<Rightarrow> action list" where
  "goroutine_actions (Running as) = as"
| "goroutine_actions (Ending as) = as"

definition conn_actions :: "conn \<Rightarrow> action set" where
  "conn_actions n = set (goroutine_actions (cn_logic n)) \<union> set (goroutine_actions (cn_sender n))"

definition sys_actions :: "'s sys \<Rightarrow> action set" where
  "sys_actions s = (\<Union>n \<in> set (sy_conns s). conn_actions n) \<union> (\<Union>as \<in> set (sy_calls s). set as)"

lemma keeps_received_simps [simp]:
  "keeps_received (Alloc p)" "keeps_received (Enqueue p)" "keeps_received (Deliver q)"
  "keeps_received (SendLogic p)" "keeps_received (Notify m)" "keeps_received (Free i)"
  "keeps_received Flush" "keeps_received Close" "keeps_received Exit"
  "keeps_received (Persist p (OpStore k v))" "keeps_received (Persist p (OpDelete (sendKey i)))"
  by (simp_all add: keeps_received_def)

lemma keeps_received_logic: "a \<in> set (logic_actions g p) \<Longrightarrow> keeps_received a"
  by (cases p) (auto simp: logic_defs split: option.splits packet.splits if_splits)

lemma keeps_received_send:
  "a \<in> set (after_send p) \<Longrightarrow> keeps_received a" "a \<in> set (after_logic_send p) \<Longrightarrow> keeps_received a"
  by (cases p; auto simp: notifyPubMsg_def split: if_splits)+

lemma keeps_received_calls:
  "a \<in> set (Publish c msg) \<Longrightarrow> keeps_received a" "a \<in> set (Subscribe c topics) \<Longrightarrow> keeps_received a"
  "a \<in> set (Unsubscribe c names) \<Longrightarrow> keeps_received a" "a \<in> set (after_alloc p) \<Longrightarrow> keeps_received a"
  by (auto simp: Publish_def publish_one_def Subscribe_def Unsubscribe_def Let_def
      split: if_splits option.splits) (cases p; auto)

lemma keeps_received_act:
  assumes "client_act M c a rest c' rest'" and "keeps_received a" and "\<forall>a \<in> set rest. keeps_received a"
  shows "\<forall>a \<in> set rest'. keeps_received a"
  using assms
  by (cases rule: client_act.cases) (auto simp: keeps_received_calls notifyPersistMsg_def)

definition kept :: "('s \<Rightarrow> bool) \<Rightarrow> ('s, packet) persist_method \<Rightarrow> u16 set \<Rightarrow> 's client \<Rightarrow> bool" where
  "kept I M ids c \<longleftrightarrow> I (cl_persist c) \<and> (\<forall>i \<in> ids. found M (cl_persist c) (recvKey i) \<noteq> None)"

definition all_keep :: "conn \<Rightarrow> bool" where
  "all_keep n \<longleftrightarrow> (\<forall>a \<in> conn_actions n. keeps_received a)"

lemma all_keep_simps:
  "all_keep n \<longleftrightarrow> (\<forall>a \<in> set (goroutine_actions (cn_logic n)). keeps_received a) \<and>
     (\<forall>a \<in> set (goroutine_actions (cn_sender n)). keeps_received a)"
  by (auto simp: all_keep_def conn_actions_def)

text \<open>What the client relies on: the contract of a packet store, and that a failed \<open>Delete\<close> changes nothing.\<close>

locale client_store = persist_laws M inv
  for M :: "('s, packet) persist_method" and inv :: "'s \<Rightarrow> bool" +
  assumes delete_error: "inv s \<Longrightarrow> pm_Delete M s k = (s', Some e) \<Longrightarrow> s' = s"
begin

lemma kept_op:
  assumes "inv s" and "found M s (recvKey i) \<noteq> None" and "run_op M s op = (s', e)"
    and "op \<noteq> OpDestroy" and "\<forall>j. op \<noteq> OpDelete (recvKey j)"
  shows "inv s' \<and> found M s' (recvKey i) \<noteq> None"
proof -
  have "inv s'"
    using inv_op [OF assms(1), of op] assms(3) by simp
  moreover have "found M s' (recvKey i) \<noteq> None"
  proof (cases op)
    case (OpStore k p)
    then have s': "s' = fst (pm_Store M s k p)"
      using assms(3) by simp
    show ?thesis
      using store_same [OF assms(1), of k p] store_other [OF assms(1), of "recvKey i" k p] assms(2) s'
      by (cases "k = recvKey i") auto
  next
    case (OpDelete k)
    then show ?thesis
      using assms delete [OF assms(1), of k s' "recvKey i"] delete_error [OF assms(1), of k s']
      by (cases e) auto
  next
    case OpDestroy
    then show ?thesis
      using assms(4) by simp
  qed
  ultimately show ?thesis
    by blast
qed

lemma kept_act:
  assumes "client_act M c a rest c' rest'" and "keeps_received a" and "kept inv M ids c"
  shows "kept inv M ids c'"
  using assms
proof (cases rule: client_act.cases)
  case (persist op s' e p)
  then have "op \<noteq> OpDestroy" "\<forall>j. op \<noteq> OpDelete (recvKey j)"
    using assms(2) by (auto simp: keeps_received_def)
  then show ?thesis
    using persist assms(3) inv_op [of "cl_persist c" op] kept_op [of "cl_persist c" _ op s' e]
    by (auto simp: kept_def)
qed (simp_all add: kept_def)

lemma kept_recv:
  assumes "recv_step g (c, n) (c', n')" and "kept inv M ids c" and "all_keep n"
  shows "kept inv M ids c' \<and> all_keep n'"
  using assms(1) by (cases rule: recv_step.cases) (use assms(2,3) in \<open>auto simp: kept_def all_keep_simps\<close>)

lemma kept_logic:
  assumes "logic_step M (c, n) (c', n')" and "kept inv M ids c" and "all_keep n"
  shows "kept inv M ids c' \<and> all_keep n'"
  using assms(1)
proof (cases rule: logic_step.cases)
  case (act a rest rest')
  then have "keeps_received a" "\<forall>a \<in> set rest. keeps_received a"
    using assms(3) by (simp_all add: all_keep_simps)
  then have "\<forall>a \<in> set rest'. keeps_received a" "kept inv M ids c'"
    using act assms(2) kept_act keeps_received_act by blast+
  then show ?thesis
    using act assms(3) by (simp add: all_keep_simps)
next
  case (ending a rest rest')
  then have "keeps_received a" "\<forall>a \<in> set rest. keeps_received a"
    using assms(3) by (simp_all add: all_keep_simps)
  then have "\<forall>a \<in> set rest'. keeps_received a" "kept inv M ids c'"
    using ending assms(2) kept_act keeps_received_act by blast+
  then show ?thesis
    using ending assms(3) by (simp add: all_keep_simps)
qed (use assms(2,3) in \<open>auto simp: all_keep_simps logic_exit_def notifyNetMsg_def keeps_received_logic\<close>)

lemma all_keep_taken:
  assumes "send_taken after n p = Some (n', p')" and "all_keep n"
    and "\<And>q a. a \<in> set (after q) \<Longrightarrow> keeps_received a"
  shows "all_keep n'"
  using assms by (auto simp: send_taken_def all_keep_simps split: prod.splits option.splits fault.splits)

lemma kept_send:
  assumes "send_step M (c, n) sent (c', n')" and "kept inv M ids c" and "all_keep n"
  shows "kept inv M ids c' \<and> all_keep n'"
  using assms(1)
proof (cases rule: send_step.cases)
  case (take p ps p')
  then show ?thesis
    using assms(2) all_keep_taken [OF _ assms(3)] keeps_received_send by (auto simp: kept_def)
next
  case (take_logic p ps n1 p')
  then have "all_keep n1"
    using all_keep_taken [OF _ assms(3)] keeps_received_send by blast
  then show ?thesis
    using take_logic assms(2) by (simp add: all_keep_simps)
next
  case (act a rest rest')
  then have "keeps_received a" "\<forall>a \<in> set rest. keeps_received a"
    using assms(3) by (simp_all add: all_keep_simps)
  then have "\<forall>a \<in> set rest'. keeps_received a" "kept inv M ids c'"
    using act assms(2) kept_act keeps_received_act by blast+
  then show ?thesis
    using act assms(3) by (simp add: all_keep_simps)
next
  case (ending a rest rest')
  then have "keeps_received a" "\<forall>a \<in> set rest. keeps_received a"
    using assms(3) by (simp_all add: all_keep_simps)
  then have "\<forall>a \<in> set rest'. keeps_received a" "kept inv M ids c'"
    using ending assms(2) kept_act keeps_received_act by blast+
  then show ?thesis
    using ending assms(3) by (simp add: all_keep_simps)
qed (use assms(2,3) in \<open>auto simp: all_keep_simps notifyNetMsg_def\<close>)

definition store_keeps :: "u16 set \<Rightarrow> 's sys \<Rightarrow> bool" where
  "store_keeps ids s \<longleftrightarrow> kept inv M ids (sy_client s) \<and> (\<forall>n \<in> set (sy_conns s). all_keep n) \<and>
     (\<forall>as \<in> set (sy_calls s). \<forall>a \<in> set as. keeps_received a)"

lemma store_keeps_conn:
  assumes "store_keeps ids s" and "k < length (sy_conns s)"
    and "kept inv M ids c' \<and> all_keep n'"
    and "sy_conns s' = (sy_conns s)[k := n']" and "sy_client s' = c'" and "sy_calls s' = sy_calls s"
  shows "store_keeps ids s'"
  using assms set_update_subset_insert [of "sy_conns s" k n'] by (auto simp: store_keeps_def)

lemma store_keeps_nth: "store_keeps ids s \<Longrightarrow> k < length (sy_conns s) \<Longrightarrow> all_keep (sy_conns s ! k)"
  by (simp add: store_keeps_def)

lemma store_keeps_step: "sys_step M s s' \<Longrightarrow> store_keeps ids s \<Longrightarrow> store_keeps ids s'"
proof (induction rule: sys_step.induct)
  case (publish s msg)
  then show ?case
    using keeps_received_calls(1) by (auto simp: store_keeps_def)
next
  case (subscribe s topics)
  then show ?case
    using keeps_received_calls(2) by (auto simp: store_keeps_def)
next
  case (unsubscribe s names)
  then show ?case
    using keeps_received_calls(3) by (auto simp: store_keeps_def)
next
  case (call k s a rest c' rest')
  have "a # rest \<in> set (sy_calls s)"
    using call(1,2) nth_mem by fastforce
  then have a: "keeps_received a" "\<forall>a \<in> set rest. keeps_received a"
    using call(4) by (auto simp: store_keeps_def)
  have "\<forall>a \<in> set rest'. keeps_received a"
    using keeps_received_act [OF call(3) a] .
  moreover have "kept inv M ids c'"
    using call(4) by (intro kept_act [OF call(3) a(1)]) (simp add: store_keeps_def)
  ultimately show ?case
    using call(4) set_update_subset_insert [of "sy_calls s" k rest'] by (auto simp: store_keeps_def)
next
  case (connect cp version wire s name stream keepalive)
  then show ?case
    by (auto simp: store_keeps_def all_keep_simps new_conn_def)
next
  case (recv k s c' n')
  then show ?case
    using kept_recv [OF recv(2) _ store_keeps_nth [OF recv(3,1)], of ids]
    by (intro store_keeps_conn [OF recv(3,1), of c' n']) (simp_all add: store_keeps_def)
next
  case (logic k s c' n')
  then show ?case
    using kept_logic [OF logic(2) _ store_keeps_nth [OF logic(3,1)], of ids]
    by (intro store_keeps_conn [OF logic(3,1), of c' n']) (simp_all add: store_keeps_def)
next
  case (send k s sent c' n')
  then show ?case
    using kept_send [OF send(2) _ store_keeps_nth [OF send(3,1)], of ids]
    by (intro store_keeps_conn [OF send(3,1), of c' n']) (simp_all add: store_keeps_def)
next
  case (keepalive k s n')
  have "all_keep n'"
    using keepalive(2) store_keeps_nth [OF keepalive(3,1)]
    by (cases rule: keepalive_step.cases) (auto simp: all_keep_simps)
  then show ?case
    using keepalive(3) by (intro store_keeps_conn [OF keepalive(3,1), of _ n']) (auto simp: store_keeps_def)
next
  case (disconnect k s d)
  let ?n = "(sy_conns s ! k)\<lparr>cn_logicSendC := cn_logicSendC (sy_conns s ! k) @ [DisconnPkt d]\<rparr>"
  have "all_keep ?n"
    using store_keeps_nth [OF disconnect(3,1)] by (simp add: all_keep_simps)
  then show ?case
    using disconnect(3) by (intro store_keeps_conn [OF disconnect(3,1), of _ ?n]) (auto simp: store_keeps_def)
next
  case (destroy s)
  then show ?case
    by (auto simp: store_keeps_def kept_def all_keep_simps)
qed (auto simp: store_keeps_def kept_def)

lemma store_keeps_steps: "(sys_step M)\<^sup>*\<^sup>* s s' \<Longrightarrow> store_keeps ids s \<Longrightarrow> store_keeps ids s'"
  by (erule run_invariant, assumption, rule store_keeps_step)

lemma received_stay:
  assumes "(sys_step M)\<^sup>*\<^sup>* (sys_init p0) s" and "inv p0"
    and "found M (cl_persist (sy_client s)) (recvKey i) \<noteq> None" and "(sys_step M)\<^sup>*\<^sup>* s s'"
  shows "found M (cl_persist (sy_client s')) (recvKey i) \<noteq> None"
proof -
  have "store_keeps {} (sys_init p0)"
    using assms(2) by (simp add: store_keeps_def kept_def sys_init_def defaultClient_def)
  then have "store_keeps {} s"
    using store_keeps_steps assms(1) by blast
  then have "store_keeps {i} s"
    using assms(3) by (simp add: store_keeps_def kept_def)
  then have "store_keeps {i} s'"
    using store_keeps_steps assms(4) by blast
  then show ?thesis
    by (simp add: store_keeps_def kept_def)
qed

end

interpretation mem_client: client_store MemPersist mem_ok
  by unfold_locales (simp add: mem_Delete_def)

text \<open>
  C36: with the memory store, what \<open>logic\<close> stored of a received message is never removed. Under every
  interleaving of the client's goroutines, calls and connections, once something is found under the
  receive key of an identifier it is found there in every later state.
\<close>
theorem received_messages_stay:
  assumes "(sys_step MemPersist)\<^sup>*\<^sup>* (sys_init (NewMemPersist strategy)) s"
    and "found MemPersist (cl_persist (sy_client s)) (recvKey i) \<noteq> None"
    and "(sys_step MemPersist)\<^sup>*\<^sup>* s s'"
  shows "found MemPersist (cl_persist (sy_client s')) (recvKey i) \<noteq> None"
proof -
  have "mem_ok (NewMemPersist strategy)"
    by (simp add: mem_ok_def NewMemPersist_def)
  then show ?thesis
    using mem_client.received_stay assms by blast
qed

text \<open>A run in which the server's QoS 1 message 7 on topic \<open>a\<close> arrives and is stored.\<close>

definition single :: "'s client \<Rightarrow> conn \<Rightarrow> 's sys" where
  "single c n = \<lparr>sy_client = c, sy_conns = [n], sy_calls = [], sy_vars = ping_vars_init,
     sy_topics = True, sy_msgs = True\<rparr>"

lemma single_recv: "recv_step ping_vars_init (c, n) (c', n') \<Longrightarrow> sys_step M (single c n) (single c' n')"
  using sys_step.recv [of 0 "single c n" c' n' M] by (simp add: single_def)

lemma single_logic: "logic_step M (c, n) (c', n') \<Longrightarrow> sys_step M (single c n) (single c' n')"
  using sys_step.logic [of 0 "single c n" M c' n'] by (simp add: single_def)

definition pub7 :: publish_packet where
  "pub7 = publish_packet_zero\<lparr>pub_TopicName := [0x61], pub_Qos := 1, pub_PacketID := 7\<rparr>"

definition conn7 :: conn where
  "conn7 = new_conn V311 [0x61] [0x32, 5, 0, 1, 0x61, 0, 7] empty_connect False"

lemma conn7_simps [simp]:
  "cn_receiving conn7" "cn_hold conn7 = None" "cn_version conn7 = V311"
  "cn_in conn7 = [0x32, 5, 0, 1, 0x61, 0, 7]" "cn_netRecvC conn7 = []" "cn_logicSendC conn7 = []"
  "cn_logic conn7 = Running []"
  by (simp_all add: conn7_def new_conn_def)

lemma recv_one_conn7:
  "recv_one ping_vars_init (cn_version conn7) (cn_in conn7) = (RecvPacket (PublishPkt pub7), Some [])"
  by code_simp

lemma logic_pub7:
  "logic_publish pub7 = [Deliver pub7, SendLogic (PubAckPkt (ack7 0)),
     Persist (PublishPkt pub7) (OpStore (recvKey 7) (Some (PublishPkt pub7)))]"
  by (simp add: logic_publish_def pub7_def)

lemma run_recv:
  "recv_step ping_vars_init (c, n) (c', n') \<Longrightarrow> (sys_step M)\<^sup>*\<^sup>* (single c' n') s \<Longrightarrow>
   (sys_step M)\<^sup>*\<^sup>* (single c n) s"
  using single_recv by (metis converse_rtranclp_into_rtranclp)

lemma run_logic:
  "logic_step M (c, n) (c', n') \<Longrightarrow> (sys_step M)\<^sup>*\<^sup>* (single c' n') s \<Longrightarrow>
   (sys_step M)\<^sup>*\<^sup>* (single c n) s"
  using single_logic by (metis converse_rtranclp_into_rtranclp)

lemma stored7:
  "\<exists>c n. (sys_step MemPersist)\<^sup>*\<^sup>* (single (defaultClient (NewMemPersist None)) conn7) (single c n) \<and>
     found MemPersist (cl_persist c) (recvKey 7) \<noteq> None"
  apply (rule exI, rule exI, rule conjI)
   apply (rule run_recv, rule recv_step.decode, simp, simp, rule recv_one_conn7)
   apply (rule run_recv, rule recv_step.packet [where p = "PublishPkt pub7"], simp, simp)
   apply (rule run_logic, rule logic_step.take [where p = "PublishPkt pub7" and ps = "[]"], simp, simp)
   apply (rule run_logic, rule logic_step.act [where a = "Deliver pub7"], simp add: logic_pub7,
      rule client_act.deliver, simp add: defaultClient_def)
   apply (rule run_logic, rule logic_step.send, simp, simp)
   apply (rule run_logic, rule logic_step.act [where a = "Persist (PublishPkt pub7)
      (OpStore (recvKey 7) (Some (PublishPkt pub7)))" and rest = "[]"], simp,
      rule client_act.persist, rule surjective_pairing)
   apply (rule rtranclp.rtrancl_refl)
  apply (simp add: found_MemPersist mem_Store_def defaultClient_def NewMemPersist_def mem_drops_def
      defaultPersistStrategy_def)
  done

lemma conn7_reachable:
  "sys_step M (sys_init p) (single (defaultClient p) conn7)"
  using sys_step.connect [OF written_empty_connect, of M "sys_init p"
      "[0x61]" "[0x32, 5, 0, 1, 0x61, 0, 7]" False]
  by (simp add: single_def conn7_def sys_init_def new_conn_def defaultClient_def)

lemma received_messages_stay_witness:
  "\<exists>s. (sys_step MemPersist)\<^sup>*\<^sup>* (sys_init (NewMemPersist None)) s \<and>
     found MemPersist (cl_persist (sy_client s)) (recvKey 7) \<noteq> None \<and>
     (let s' = s\<lparr>sy_client := (sy_client s)\<lparr>cl_closing := True\<rparr>,
          sy_conns := map (\<lambda>n. n\<lparr>cn_stopped := True\<rparr>) (sy_conns s)\<rparr>
      in found MemPersist (cl_persist (sy_client s')) (recvKey 7) \<noteq> None)"
proof -
  obtain c n where run: "(sys_step MemPersist)\<^sup>*\<^sup>* (single (defaultClient (NewMemPersist None)) conn7) (single c n)"
    and f: "found MemPersist (cl_persist c) (recvKey 7) \<noteq> None"
    using stored7 by blast
  have r: "(sys_step MemPersist)\<^sup>*\<^sup>* (sys_init (NewMemPersist None)) (single c n)"
    using conn7_reachable run by (rule converse_rtranclp_into_rtranclp)
  have f': "found MemPersist (cl_persist (sy_client (single c n))) (recvKey 7) \<noteq> None"
    using f by (simp add: single_def)
  show ?thesis
    using r f' received_messages_stay [OF r f' r_into_rtranclp [where r = "sys_step MemPersist", OF sys_step.destroy]]
    by (intro exI [of _ "single c n"]) simp
qed

section \<open>Where a goroutine gets stuck\<close>

text \<open>\<open>handleTopicMsg\<close> has stopped, \<open>recvCh\<close> is full, and \<open>logic\<close> of connection \<open>i\<close> has a message to hand over.\<close>

definition stuck :: "nat \<Rightarrow> publish_packet \<Rightarrow> action list \<Rightarrow> 's sys \<Rightarrow> bool" where
  "stuck i p rest s \<longleftrightarrow> \<not> sy_topics s \<and>
     cl_recvCap (sy_client s) \<le> length (cl_recvCh (sy_client s)) \<and> i < length (sy_conns s) \<and>
     cn_logic (sy_conns s ! i) = Running (Deliver p # rest)"

definition full :: "'s client \<Rightarrow> bool" where
  "full c \<longleftrightarrow> cl_recvCap c \<le> length (cl_recvCh c)"

lemma full_act: "client_act M c a rest c' rest' \<Longrightarrow> full c \<Longrightarrow> full c' \<and> (\<forall>p. a \<noteq> Deliver p)"
  by (induction rule: client_act.induct) (auto simp: full_def)

lemma full_recv: "recv_step g (c, n) (c', n') \<Longrightarrow> full c \<Longrightarrow> full c' \<and> cn_logic n' = cn_logic n"
  by (induction "(c, n)" "(c', n')" rule: recv_step.induct) (auto simp: full_def)

lemma full_send:
  assumes "send_step M (c, n) sent (c', n')" and "full c"
  shows "full c' \<and> cn_logic n' = cn_logic n"
  using assms(1)
proof (cases rule: send_step.cases)
  case (act a rest rest')
  then show ?thesis
    using full_act [OF _ assms(2)] by auto
next
  case (ending a rest rest')
  then show ?thesis
    using full_act [OF _ assms(2)] by auto
qed (use assms(2) in \<open>auto simp: full_def send_taken_def
      split: prod.splits option.splits fault.splits\<close>)

lemma full_keepalive: "keepalive_step g n n' \<Longrightarrow> cn_logic n' = cn_logic n"
  by (induction rule: keepalive_step.induct) auto

lemma full_logic:
  assumes "logic_step M (c, n) (c', n')" and "full c"
  shows "full c' \<and> (cn_logic n = Running (Deliver p # rest) \<longrightarrow> cn_logic n' = cn_logic n)"
  using assms(1) by (cases rule: logic_step.cases) (use assms(2) full_act in \<open>fastforce simp: full_def\<close>)+

lemma stuck_conn:
  assumes "stuck i p rest s" and "full c'" and "k < length (sy_conns s)"
    and "cn_logic (sy_conns s ! k) = Running (Deliver p # rest) \<longrightarrow> cn_logic n' = cn_logic (sy_conns s ! k)"
    and "sy_conns s' = (sy_conns s)[k := n']" and "sy_client s' = c'" and "sy_topics s' = sy_topics s"
  shows "stuck i p rest s'"
  using assms by (cases "k = i") (auto simp: stuck_def full_def)

lemma stuck_step: "sys_step M s s' \<Longrightarrow> stuck i p rest s \<Longrightarrow> stuck i p rest s'"
proof (induction rule: sys_step.induct)
  case (call k s a r c' r')
  then show ?case
    using full_act by (fastforce simp: stuck_def full_def)
next
  case (connect cp version wire s name stream keepalive)
  then show ?case
    by (auto simp: stuck_def nth_append)
next
  case (recv k s c' n')
  then have "full c' \<and> cn_logic n' = cn_logic (sy_conns s ! k)"
    using full_recv by (fastforce simp: stuck_def full_def)
  then show ?case
    by (intro stuck_conn [OF recv(3) _ recv(1), of c' n']) simp_all
next
  case (logic k s c' n')
  then have "full c' \<and> (cn_logic (sy_conns s ! k) = Running (Deliver p # rest) \<longrightarrow>
      cn_logic n' = cn_logic (sy_conns s ! k))"
    by (intro full_logic) (auto simp: stuck_def full_def)
  then show ?case
    by (intro stuck_conn [OF logic(3) _ logic(1), of c' n']) simp_all
next
  case (send k s sent c' n')
  then have "full c' \<and> cn_logic n' = cn_logic (sy_conns s ! k)"
    using full_send by (fastforce simp: stuck_def full_def)
  then show ?case
    by (intro stuck_conn [OF send(3) _ send(1), of c' n']) simp_all
next
  case (keepalive k s n')
  then have "full (sy_client s)" "cn_logic n' = cn_logic (sy_conns s ! k)"
    using full_keepalive by (auto simp: stuck_def full_def)
  then show ?case
    by (intro stuck_conn [OF keepalive(3) _ keepalive(1), of _ n']) simp_all
next
  case (disconnect k s d)
  then have "full (sy_client s)"
    by (simp add: stuck_def full_def)
  then show ?case
    by (intro stuck_conn [OF disconnect(3) _ disconnect(1), where n' = "(sy_conns s ! k)
      \<lparr>cn_logicSendC := cn_logicSendC (sy_conns s ! k) @ [DisconnPkt d]\<rparr>"]) simp_all
qed (auto simp: stuck_def)

text \<open>
  C40: a client that is destroyed with a full receive channel never gets rid of \<open>logic\<close>. The goroutine
  sends on \<open>recvCh\<close> without watching \<open>stopSig\<close>, and \<open>handleTopicMsg\<close>, which empties the channel, stops
  with the client: once \<open>handleTopicMsg\<close> is gone, \<open>logic\<close> stays at the send in every later state, so a
  \<open>Wait\<close> that was called before does not return.
\<close>
theorem logic_blocked_for_ever:
  assumes "\<not> sy_topics s"
    and "length (cl_recvCh (sy_client s)) = cl_recvCap (sy_client s)"
    and "i < length (sy_conns s)" and "cn_logic (sy_conns s ! i) = Running (Deliver p # rest)"
    and "(sys_step M)\<^sup>*\<^sup>* s s'"
  shows "cn_logic (sy_conns s' ! i) = Running (Deliver p # rest)"
proof -
  have "stuck i p rest s"
    using assms(1-4) by (simp add: stuck_def)
  then have "stuck i p rest s'"
    by (rule run_invariant [OF assms(5)]) (rule stuck_step)
  then show ?thesis
    by (simp add: stuck_def)
qed

definition destroyed :: "unit sys" where
  "destroyed = (single ((defaultClient ())\<lparr>cl_recvCh := [pub7], cl_closing := True\<rparr>)
     (conn7\<lparr>cn_stopped := True, cn_logic := Running (logic_publish pub7)\<rparr>))\<lparr>sy_topics := False\<rparr>"

lemma logic_blocked_for_ever_witness:
  "cn_logic (sy_conns (destroyed\<lparr>sy_calls := [[]]\<rparr>) ! 0) = Running (logic_publish pub7)"
proof -
  have "sys_step NonePersist destroyed (destroyed\<lparr>sy_calls := [[]]\<rparr>)"
    using sys_step.publish [of NonePersist destroyed "[None]"]
    by (simp add: destroyed_def single_def Publish_def)
  then have run: "(sys_step NonePersist)\<^sup>*\<^sup>* destroyed (destroyed\<lparr>sy_calls := [[]]\<rparr>)"
    by blast
  show ?thesis
    using logic_blocked_for_ever [OF _ _ _ _ run, of 0 pub7 "tl (logic_publish pub7)"]
    by (simp add: destroyed_def single_def defaultClient_def logic_pub7)
qed

end
