(* ===== verification/Options.thy ===== *)
theory Options
  imports Client Complex_Main
begin

text \<open>
  Options: \<open>src/client_options.go\<close>, and \<open>connectOptions\<close> with its \<open>clone\<close> and default of
  \<open>src/client_conn_options.go\<close>; the constructor \<open>NewClient\<close> and the option part of \<open>ConnectServer\<close>.

  Durations are integers (nanoseconds); a \<open>float64\<close> factor is a rational. \<open>connPacket\<close> is a pointer:
  an index into the list of connect packets that were allocated, because \<open>clone\<close> copies the pointer
  and the options write through it. TLS configurations, connectors, routers, handlers, loggers and
  packet stores are values of type variables. The options that read certificates from files or
  readers are in \<open>Transport\<close>.
\<close>

section \<open>State\<close>

abbreviation (input) Millisecond :: int where "Millisecond \<equiv> 1000000"
abbreviation (input) Second :: int where "Second \<equiv> 1000000000"
abbreviation (input) Minute :: int where "Minute \<equiv> 60 * Second"

record ('h, 't, 'n) connect_options =
  co_connHandler :: "'h option"
  co_dialTimeout :: int
  co_protoVersion :: byte
  co_protoCompromise :: bool
  co_tlsConfig :: "'t option"
  co_maxDelay :: int
  co_firstDelay :: int
  co_backOffFactor :: rat
  co_autoReconnect :: bool
  co_connPacket :: nat
  co_keepalive :: int
  co_keepaliveFactor :: rat
  co_newConnection :: 'n

definition defaultConnectOptions :: "nat \<Rightarrow> 'n \<Rightarrow> ('h, 't, 'n) connect_options" where
  "defaultConnectOptions addr tcp = \<lparr>co_connHandler = None, co_dialTimeout = 20 * Second,
     co_protoVersion = V311, co_protoCompromise = False, co_tlsConfig = None,
     co_maxDelay = 2 * Minute, co_firstDelay = 5 * Second, co_backOffFactor = 3 / 2,
     co_autoReconnect = False, co_connPacket = addr, co_keepalive = 2 * Minute,
     co_keepaliveFactor = 3 / 2, co_newConnection = tcp\<rparr>"

definition clone_options :: "('h, 't, 'n) connect_options \<Rightarrow> ('h, 't, 'n) connect_options" where
  "clone_options c = \<lparr>co_connHandler = co_connHandler c, co_dialTimeout = co_dialTimeout c,
     co_protoVersion = co_protoVersion c, co_protoCompromise = co_protoCompromise c,
     co_tlsConfig = co_tlsConfig c, co_maxDelay = co_maxDelay c, co_firstDelay = co_firstDelay c,
     co_backOffFactor = co_backOffFactor c, co_autoReconnect = co_autoReconnect c,
     co_connPacket = co_connPacket c, co_keepalive = co_keepalive c,
     co_keepaliveFactor = co_keepaliveFactor c, co_newConnection = co_newConnection c\<rparr>"

text \<open>The client's own fields that options set, next to the shared state of \<open>Client\<close>.\<close>

record ('s, 'h, 'r, 'l) async_client = "'s client" +
  ac_servers :: "gostring list"
  ac_secureServers :: "gostring list"
  ac_router :: 'r
  ac_handlers :: "'h handlers"
  ac_log :: "'l option"

record ('s, 'h, 'r, 'l, 't, 'n) opt_state =
  os_client :: "('s, 'h, 'r, 'l) async_client"
  os_options :: "('h, 't, 'n) connect_options"
  os_packets :: "conn_packet list"

datatype opt_error = ErrKeepaliveZero | ErrNotSupportedVersion

section \<open>The options\<close>

datatype ('s, 'h, 'r, 'l, 't, 'n) client_option =
    WithSecureServer "gostring list"
  | WithServer "gostring list"
  | WithBufSize int int
  | WithConnHandleFunc "'h option"
  | WithPubHandleFunc "'h option"
  | WithSubHandleFunc "'h option"
  | WithUnsubHandleFunc "'h option"
  | WithNetHandleFunc "'h option"
  | WithPersistHandleFunc "'h option"
  | WithLog 'l
  | WithPersist "'s option"
  | WithCleanSession bool
  | WithIdentity gostring gostring
  | WithKeepalive u16 rat
  | WithAutoReconnect bool
  | WithBackoffStrategy int int rat
  | WithClientID gostring
  | WithWill gostring byte bool bytes
  | WithCustomTLS "'t option"
  | WithDialTimeout u16
  | WithVersion byte bool
  | WithRouter "'r option"
  | WithConnPacket conn_packet
  | WithCustomConnector 'n

definition set_packet ::
  "(conn_packet \<Rightarrow> conn_packet) \<Rightarrow> ('s, 'h, 'r, 'l, 't, 'n) opt_state \<Rightarrow> ('s, 'h, 'r, 'l, 't, 'n) opt_state" where
  "set_packet f st = st\<lparr>os_packets := (os_packets st)
     [co_connPacket (os_options st) := f (os_packets st ! co_connPacket (os_options st))]\<rparr>"

definition set_options ::
  "(('h, 't, 'n) connect_options \<Rightarrow> ('h, 't, 'n) connect_options) \<Rightarrow>
   ('s, 'h, 'r, 'l, 't, 'n) opt_state \<Rightarrow> ('s, 'h, 'r, 'l, 't, 'n) opt_state" where
  "set_options f st = st\<lparr>os_options := f (os_options st)\<rparr>"

definition set_client ::
  "(('s, 'h, 'r, 'l) async_client \<Rightarrow> ('s, 'h, 'r, 'l) async_client) \<Rightarrow>
   ('s, 'h, 'r, 'l, 't, 'n) opt_state \<Rightarrow> ('s, 'h, 'r, 'l, 't, 'n) opt_state" where
  "set_client f st = st\<lparr>os_client := f (os_client st)\<rparr>"

text \<open>A handler option only fills an empty place.\<close>

definition first_of :: "'a option \<Rightarrow> 'a option \<Rightarrow> 'a option" where
  "first_of old new = (if old = None then new else old)"

definition set_handlers ::
  "('h handlers \<Rightarrow> 'h handlers) \<Rightarrow> ('s, 'h, 'r, 'l, 't, 'n) opt_state \<Rightarrow> ('s, 'h, 'r, 'l, 't, 'n) opt_state" where
  "set_handlers f = set_client (\<lambda>c. c\<lparr>ac_handlers := f (ac_handlers c)\<rparr>)"

text \<open>What each option does; every definition is named after its function in the source.\<close>

type_synonym ('s, 'h, 'r, 'l, 't, 'n) option_fun =
  "('s, 'h, 'r, 'l, 't, 'n) opt_state \<Rightarrow> opt_error + ('s, 'h, 'r, 'l, 't, 'n) opt_state"

definition do_WithSecureServer :: "gostring list \<Rightarrow> ('s, 'h, 'r, 'l, 't, 'n) option_fun" where
  "do_WithSecureServer ss st =
     Inr (set_client (\<lambda>c. c\<lparr>ac_secureServers := ac_secureServers c @ ss\<rparr>) st)"

definition do_WithServer :: "gostring list \<Rightarrow> ('s, 'h, 'r, 'l, 't, 'n) option_fun" where
  "do_WithServer ss st =
     Inr (set_client (\<lambda>c. c\<lparr>ac_servers := ac_servers c @ ss\<rparr>) st)"

definition do_WithBufSize :: "int \<Rightarrow> int \<Rightarrow> ('s, 'h, 'r, 'l, 't, 'n) option_fun" where
  "do_WithBufSize sendBufSize recvBufSize st =
     Inr (set_client (\<lambda>c. c
       \<lparr>cl_sendCh := [], cl_sendCap := nat (if sendBufSize < 1 then 1 else sendBufSize),
        cl_recvCh := [], cl_recvCap := nat (if recvBufSize < 1 then 1 else recvBufSize)\<rparr>) st)"

definition do_WithConnHandleFunc :: "'h option \<Rightarrow> ('s, 'h, 'r, 'l, 't, 'n) option_fun" where
  "do_WithConnHandleFunc h st =
     Inr (set_options (\<lambda>q. q\<lparr>co_connHandler := h\<rparr>) st)"

definition do_WithPubHandleFunc :: "'h option \<Rightarrow> ('s, 'h, 'r, 'l, 't, 'n) option_fun" where
  "do_WithPubHandleFunc h st =
     Inr (set_handlers (\<lambda>hs. hs\<lparr>pubHandler := first_of (pubHandler hs) h\<rparr>) st)"

definition do_WithSubHandleFunc :: "'h option \<Rightarrow> ('s, 'h, 'r, 'l, 't, 'n) option_fun" where
  "do_WithSubHandleFunc h st =
     Inr (set_handlers (\<lambda>hs. hs\<lparr>subHandler := first_of (subHandler hs) h\<rparr>) st)"

definition do_WithUnsubHandleFunc :: "'h option \<Rightarrow> ('s, 'h, 'r, 'l, 't, 'n) option_fun" where
  "do_WithUnsubHandleFunc h st =
     Inr (set_handlers (\<lambda>hs. hs\<lparr>unsubHandler := first_of (unsubHandler hs) h\<rparr>) st)"

definition do_WithNetHandleFunc :: "'h option \<Rightarrow> ('s, 'h, 'r, 'l, 't, 'n) option_fun" where
  "do_WithNetHandleFunc h st =
     Inr (set_handlers (\<lambda>hs. hs\<lparr>netHandler := first_of (netHandler hs) h\<rparr>) st)"

definition do_WithPersistHandleFunc :: "'h option \<Rightarrow> ('s, 'h, 'r, 'l, 't, 'n) option_fun" where
  "do_WithPersistHandleFunc h st =
     Inr (set_handlers (\<lambda>hs. hs\<lparr>persistHandler := first_of (persistHandler hs) h\<rparr>) st)"

definition do_WithLog :: "'l \<Rightarrow> ('s, 'h, 'r, 'l, 't, 'n) option_fun" where
  "do_WithLog l st =
     Inr (set_client (\<lambda>c. c\<lparr>ac_log := Some l\<rparr>) st)"

definition do_WithPersist :: "'s option \<Rightarrow> ('s, 'h, 'r, 'l, 't, 'n) option_fun" where
  "do_WithPersist method st =
     Inr (case method of None \<Rightarrow> st | Some m \<Rightarrow> set_client (\<lambda>c. c\<lparr>cl_persist := m\<rparr>) st)"

definition do_WithCleanSession :: "bool \<Rightarrow> ('s, 'h, 'r, 'l, 't, 'n) option_fun" where
  "do_WithCleanSession f st =
     Inr (set_packet (\<lambda>p. p\<lparr>conn_CleanSession := f\<rparr>) st)"

definition do_WithIdentity :: "gostring \<Rightarrow> gostring \<Rightarrow> ('s, 'h, 'r, 'l, 't, 'n) option_fun" where
  "do_WithIdentity username password st =
     Inr (set_packet (\<lambda>p. p\<lparr>conn_Username := username, conn_Password := password\<rparr>) st)"

definition do_WithKeepalive :: "u16 \<Rightarrow> rat \<Rightarrow> ('s, 'h, 'r, 'l, 't, 'n) option_fun" where
  "do_WithKeepalive keepalive factor st =
     (if keepalive \<le> 0 then Inl ErrKeepaliveZero
      else Inr (set_options (\<lambda>q. let q = q\<lparr>co_keepalive := int (unat keepalive) * Second\<rparr>
             in if factor > 1 then q\<lparr>co_keepaliveFactor := factor\<rparr> else q)
           (set_packet (\<lambda>p. p\<lparr>conn_Keepalive := keepalive\<rparr>) st)))"

definition do_WithAutoReconnect :: "bool \<Rightarrow> ('s, 'h, 'r, 'l, 't, 'n) option_fun" where
  "do_WithAutoReconnect a st =
     Inr (set_options (\<lambda>q. q\<lparr>co_autoReconnect := a\<rparr>) st)"

definition do_WithBackoffStrategy :: "int \<Rightarrow> int \<Rightarrow> rat \<Rightarrow> ('s, 'h, 'r, 'l, 't, 'n) option_fun" where
  "do_WithBackoffStrategy firstDelay maxDelay factor st =
     (let firstDelay = (if firstDelay < Millisecond then Millisecond else firstDelay);
          maxDelay = (if maxDelay < firstDelay then firstDelay else maxDelay);
          factor = (if factor < 1 then 1 else factor)
      in Inr (set_options (\<lambda>q. q\<lparr>co_firstDelay := firstDelay, co_maxDelay := maxDelay,
                               co_backOffFactor := factor\<rparr>) st))"

definition do_WithClientID :: "gostring \<Rightarrow> ('s, 'h, 'r, 'l, 't, 'n) option_fun" where
  "do_WithClientID clientID st =
     Inr (set_packet (\<lambda>p. p\<lparr>conn_ClientID := clientID\<rparr>) st)"

definition do_WithWill :: "gostring \<Rightarrow> byte \<Rightarrow> bool \<Rightarrow> bytes \<Rightarrow> ('s, 'h, 'r, 'l, 't, 'n) option_fun" where
  "do_WithWill topic qos retain payload st =
     Inr (set_packet (\<lambda>p. p\<lparr>conn_IsWill := True, conn_WillTopic := topic, conn_WillQos := qos,
       conn_WillRetain := retain, conn_WillMessage := payload\<rparr>) st)"

definition do_WithCustomTLS :: "'t option \<Rightarrow> ('s, 'h, 'r, 'l, 't, 'n) option_fun" where
  "do_WithCustomTLS config st =
     Inr (set_options (\<lambda>q. q\<lparr>co_tlsConfig := config\<rparr>) st)"

definition do_WithDialTimeout :: "u16 \<Rightarrow> ('s, 'h, 'r, 'l, 't, 'n) option_fun" where
  "do_WithDialTimeout timeout st =
     Inr (set_options (\<lambda>q. q\<lparr>co_dialTimeout := int (unat timeout) * Second\<rparr>) st)"

definition do_WithVersion :: "byte \<Rightarrow> bool \<Rightarrow> ('s, 'h, 'r, 'l, 't, 'n) option_fun" where
  "do_WithVersion version compromise st =
     (if version = V311 \<or> version = V5
      then Inr (set_options (\<lambda>q. q\<lparr>co_protoVersion := version, co_protoCompromise := compromise\<rparr>) st)
      else Inl ErrNotSupportedVersion)"

definition do_WithRouter :: "'r option \<Rightarrow> ('s, 'h, 'r, 'l, 't, 'n) option_fun" where
  "do_WithRouter r st =
     Inr (case r of None \<Rightarrow> st | Some r \<Rightarrow> set_client (\<lambda>c. c\<lparr>ac_router := r\<rparr>) st)"

definition do_WithConnPacket :: "conn_packet \<Rightarrow> ('s, 'h, 'r, 'l, 't, 'n) option_fun" where
  "do_WithConnPacket pkt st =
     Inr (st\<lparr>os_packets := os_packets st @ [pkt],
             os_options := (let q = (os_options st)\<lparr>co_connPacket := length (os_packets st)\<rparr>
               in if conn_Keepalive pkt > 0
                  then q\<lparr>co_keepalive := int (unat (conn_Keepalive pkt)) * Second\<rparr> else q)\<rparr>)"

definition do_WithCustomConnector :: "'n \<Rightarrow> ('s, 'h, 'r, 'l, 't, 'n) option_fun" where
  "do_WithCustomConnector n st =
     Inr (set_options (\<lambda>q. q\<lparr>co_newConnection := n\<rparr>) st)"

lemmas option_functions [simp] = do_WithSecureServer_def do_WithServer_def do_WithBufSize_def do_WithConnHandleFunc_def
  do_WithPubHandleFunc_def do_WithSubHandleFunc_def do_WithUnsubHandleFunc_def
  do_WithNetHandleFunc_def do_WithPersistHandleFunc_def do_WithLog_def do_WithPersist_def
  do_WithCleanSession_def do_WithIdentity_def do_WithKeepalive_def do_WithAutoReconnect_def
  do_WithBackoffStrategy_def do_WithClientID_def do_WithWill_def do_WithCustomTLS_def
  do_WithDialTimeout_def do_WithVersion_def do_WithRouter_def do_WithConnPacket_def
  do_WithCustomConnector_def

primrec apply_option ::
  "('s, 'h, 'r, 'l, 't, 'n) client_option \<Rightarrow> ('s, 'h, 'r, 'l, 't, 'n) option_fun" where
  "apply_option (WithSecureServer ss) st = do_WithSecureServer ss st"
| "apply_option (WithServer ss) st = do_WithServer ss st"
| "apply_option (WithBufSize sendBufSize recvBufSize) st = do_WithBufSize sendBufSize recvBufSize st"
| "apply_option (WithConnHandleFunc h) st = do_WithConnHandleFunc h st"
| "apply_option (WithPubHandleFunc h) st = do_WithPubHandleFunc h st"
| "apply_option (WithSubHandleFunc h) st = do_WithSubHandleFunc h st"
| "apply_option (WithUnsubHandleFunc h) st = do_WithUnsubHandleFunc h st"
| "apply_option (WithNetHandleFunc h) st = do_WithNetHandleFunc h st"
| "apply_option (WithPersistHandleFunc h) st = do_WithPersistHandleFunc h st"
| "apply_option (WithLog l) st = do_WithLog l st"
| "apply_option (WithPersist method) st = do_WithPersist method st"
| "apply_option (WithCleanSession f) st = do_WithCleanSession f st"
| "apply_option (WithIdentity username password) st = do_WithIdentity username password st"
| "apply_option (WithKeepalive keepalive factor) st = do_WithKeepalive keepalive factor st"
| "apply_option (WithAutoReconnect a) st = do_WithAutoReconnect a st"
| "apply_option (WithBackoffStrategy firstDelay maxDelay factor) st = do_WithBackoffStrategy firstDelay maxDelay factor st"
| "apply_option (WithClientID clientID) st = do_WithClientID clientID st"
| "apply_option (WithWill topic qos retain payload) st = do_WithWill topic qos retain payload st"
| "apply_option (WithCustomTLS config) st = do_WithCustomTLS config st"
| "apply_option (WithDialTimeout timeout) st = do_WithDialTimeout timeout st"
| "apply_option (WithVersion version compromise) st = do_WithVersion version compromise st"
| "apply_option (WithRouter r) st = do_WithRouter r st"
| "apply_option (WithConnPacket pkt) st = do_WithConnPacket pkt st"
| "apply_option (WithCustomConnector n) st = do_WithCustomConnector n st"

text \<open>The loop over the options. What the options before a refused one did stays done.\<close>

fun apply_options ::
  "('s, 'h, 'r, 'l, 't, 'n) client_option list \<Rightarrow> ('s, 'h, 'r, 'l, 't, 'n) opt_state \<Rightarrow>
   opt_error option \<times> ('s, 'h, 'r, 'l, 't, 'n) opt_state" where
  "apply_options [] st = (None, st)"
| "apply_options (opt # opts) st =
     (case apply_option opt st of Inl e \<Rightarrow> (Some e, st) | Inr st \<Rightarrow> apply_options opts st)"

text \<open>\<open>NewClient\<close>: the default client with a text router, \<open>NonePersist\<close> and TCP, and its options applied.\<close>

definition NewClient ::
  "'s \<Rightarrow> 'r \<Rightarrow> 'n \<Rightarrow> ('s, 'h, 'r, 'l, 't, 'n) client_option list \<Rightarrow>
   opt_error + ('s, 'h, 'r, 'l, 't, 'n) opt_state" where
  "NewClient none_persist text_router tcp options =
     (case apply_options options
       \<lparr>os_client = client.extend (defaultClient none_persist)
          (async_client.fields [] [] text_router \<lparr>pubHandler = None, subHandler = None,
             unsubHandler = None, netHandler = None, persistHandler = None\<rparr> None),
        os_options = defaultConnectOptions 0 tcp, os_packets = [conn_packet_zero]\<rparr> of
        (Some e, st) \<Rightarrow> Inl e
      | (None, st) \<Rightarrow> Inr st)"

text \<open>
  The options of one \<open>ConnectServer\<close> call: a clone of the client's, and the call's own applied to it.
  The result is the state with the clone in place of the client's options, which stay \<open>os_options st\<close>.
\<close>

definition server_options ::
  "('s, 'h, 'r, 'l, 't, 'n) opt_state \<Rightarrow> ('s, 'h, 'r, 'l, 't, 'n) client_option list \<Rightarrow>
   opt_error option \<times> ('s, 'h, 'r, 'l, 't, 'n) opt_state" where
  "server_options st connOptions =
     apply_options connOptions (st\<lparr>os_options := clone_options (os_options st)\<rparr>)"

section \<open>What every accepted set of options guarantees\<close>

definition sound_options :: "('h, 't, 'n) connect_options \<Rightarrow> bool" where
  "sound_options q \<longleftrightarrow> Millisecond \<le> co_firstDelay q \<and> co_firstDelay q \<le> co_maxDelay q \<and>
     1 \<le> co_backOffFactor q \<and> co_protoVersion q \<in> {V311, V5} \<and> 0 < co_keepalive q \<and>
     1 < co_keepaliveFactor q"

definition options_ok :: "('s, 'h, 'r, 'l, 't, 'n) opt_state \<Rightarrow> bool" where
  "options_ok st \<longleftrightarrow> sound_options (os_options st) \<and>
     co_connPacket (os_options st) < length (os_packets st) \<and>
     1 \<le> cl_sendCap (os_client st) \<and> 1 \<le> cl_recvCap (os_client st)"

lemmas option_setters = set_packet_def set_options_def set_client_def set_handlers_def

lemma positive_word: "0 < w \<Longrightarrow> 0 < uint (w :: u16)"
  by (simp add: word_less_alt)

text \<open>What an option has to keep: a change of the client keeps the capacities, one of the packet nothing.\<close>

lemma options_ok_set_packet [simp]: "options_ok (set_packet f st) = options_ok st"
  by (simp add: options_ok_def set_packet_def Let_def)

lemma options_ok_set_options:
  assumes "options_ok st" and "sound_options (f (os_options st))"
    and "co_connPacket (f (os_options st)) = co_connPacket (os_options st)"
  shows "options_ok (set_options f st)"
  using assms by (simp add: options_ok_def set_options_def)

lemma options_ok_set_client:
  assumes "options_ok st" and "1 \<le> cl_sendCap (f (os_client st))" and "1 \<le> cl_recvCap (f (os_client st))"
  shows "options_ok (set_client f st)"
  using assms by (simp add: options_ok_def set_client_def)

lemma options_okD:
  assumes "options_ok st"
  shows "sound_options (os_options st)" and "1 \<le> cl_sendCap (os_client st)" and "1 \<le> cl_recvCap (os_client st)"
  using assms by (simp_all add: options_ok_def)

lemma options_ok_with_keepalive:
  assumes "apply_option (WithKeepalive keepalive factor) st = Inr st'" and "options_ok st"
  shows "options_ok st'"
proof -
  have pos: "0 < uint keepalive"
    using assms(1) positive_word [of keepalive] by (auto simp: word_neq_0_conv split: if_splits)
  let ?f = "\<lambda>q :: ('b, 'e, 'f) connect_options. let q = q\<lparr>co_keepalive := int (unat keepalive) * Second\<rparr>
     in if factor > 1 then q\<lparr>co_keepaliveFactor := factor\<rparr> else q"
  have "sound_options (?f (os_options st))"
    using options_okD(1) [OF assms(2)] pos by (simp add: sound_options_def Let_def)
  moreover have "st' = set_options ?f (set_packet (\<lambda>p. p\<lparr>conn_Keepalive := keepalive\<rparr>) st)"
    using assms(1) by (simp split: if_splits)
  ultimately show ?thesis
    using assms(2) by (auto simp: options_ok_def set_options_def set_packet_def Let_def split: if_splits)
qed

lemma options_ok_with_backoff:
  assumes "apply_option (WithBackoffStrategy d1 d2 factor) st = Inr st'" and "options_ok st"
  shows "options_ok st'"
  using assms by (auto simp: options_ok_def set_options_def sound_options_def Let_def)

lemma options_ok_with_packet:
  assumes "apply_option (WithConnPacket pkt) st = Inr st'" and "options_ok st"
  shows "options_ok st'"
  using assms positive_word [of "conn_Keepalive pkt"]
  by (auto simp: options_ok_def sound_options_def Let_def split: if_splits)

lemma options_ok_with_version:
  assumes "apply_option (WithVersion version compromise) st = Inr st'" and "options_ok st"
  shows "options_ok st'"
  using assms by (auto simp: options_ok_def set_options_def sound_options_def split: if_splits)

text \<open>The other options leave alone what the guarantee speaks of.\<close>

lemma options_ok_apply:
  assumes "apply_option opt st = Inr st'" and "options_ok st"
  shows "options_ok st'"
proof (cases opt)
  case (WithKeepalive keepalive factor)
  then show ?thesis
    using assms options_ok_with_keepalive by blast
next
  case (WithBackoffStrategy d1 d2 factor)
  then show ?thesis
    using assms options_ok_with_backoff by blast
next
  case (WithConnPacket pkt)
  then show ?thesis
    using assms options_ok_with_packet by blast
next
  case (WithVersion version compromise)
  then show ?thesis
    using assms options_ok_with_version by blast
next
  case (WithPersist m)
  then show ?thesis
    using assms by (cases m) (auto simp: set_client_def options_ok_def)
next
  case (WithRouter r)
  then show ?thesis
    using assms by (cases r) (auto simp: set_client_def options_ok_def)
next
  case (WithBufSize a b)
  then show ?thesis
    using assms by (auto simp: set_client_def options_ok_def)
qed (use assms in \<open>auto simp: set_packet_def set_client_def set_handlers_def set_options_def options_ok_def sound_options_def Let_def\<close>)

lemma options_ok_applies: "options_ok st \<Longrightarrow> options_ok (snd (apply_options opts st))"
proof (induction opts arbitrary: st)
  case (Cons opt opts)
  then show ?case
    using options_ok_apply by (auto split: sum.splits)
qed simp

lemma options_ok_NewClient:
  assumes "NewClient none_persist text_router tcp options = Inr st"
  shows "options_ok st"
proof -
  let ?st = "\<lparr>os_client = client.extend (defaultClient none_persist)
      (async_client.fields [] [] text_router \<lparr>pubHandler = None, subHandler = None,
         unsubHandler = None, netHandler = None, persistHandler = None\<rparr> None),
    os_options = defaultConnectOptions 0 tcp, os_packets = [conn_packet_zero]\<rparr>"
  have "options_ok ?st"
    by (simp add: options_ok_def sound_options_def defaultConnectOptions_def defaultClient_def client.defs
        async_client.defs Let_def)
  then show ?thesis
    using assms options_ok_applies [of ?st options]
    by (auto simp: NewClient_def split: prod.splits option.splits)
qed


type_synonym plain_state = "(unit, unit, unit, unit, unit, unit) opt_state"

definition some_client :: plain_state where
  "some_client = (case NewClient () () () [WithBackoffStrategy 0 0 0, WithBufSize 0 5] of Inr st \<Rightarrow> st)"

lemma some_client: "NewClient () () () [WithBackoffStrategy 0 0 0, WithBufSize 0 5] = Inr some_client"
  by (simp add: some_client_def NewClient_def)


text \<open>
  Options given to one \<open>ConnectServer\<close> call leak into the client and into every other connection.
  The clone shares the connect packet with the client's options, so setting the client identifier,
  the identity, the will or the clean-session flag for one server changes the packet of all.
\<close>
theorem server_options_leak:
  assumes "options_ok st" and "server_options st [WithClientID clientID] = (None, st')"
  shows "os_packets st' ! co_connPacket (os_options st) =
      (os_packets st ! co_connPacket (os_options st))\<lparr>conn_ClientID := clientID\<rparr> \<and>
    co_connPacket (os_options st') = co_connPacket (os_options st)"
  using assms
  by (auto simp: server_options_def clone_options_def option_setters options_ok_def sound_options_def Let_def)

lemma server_options_leak_witness:
  "os_packets (set_packet (\<lambda>p. p\<lparr>conn_ClientID := [0x61]\<rparr>) some_client) ! 0 =
     conn_packet_zero\<lparr>conn_ClientID := [0x61]\<rparr>"
proof -
  have init: "os_packets some_client = [conn_packet_zero] \<and> co_connPacket (os_options some_client) = 0 \<and>
      clone_options (os_options some_client) = os_options some_client"
    by (simp add: some_client_def NewClient_def set_client_def set_options_def clone_options_def
        defaultConnectOptions_def)
  moreover have "options_ok some_client"
    using options_ok_NewClient [OF some_client] .
  moreover have "server_options some_client [WithClientID [0x61]] =
      (None, set_packet (\<lambda>p. p\<lparr>conn_ClientID := [0x61]\<rparr>) some_client)"
    using init by (simp add: server_options_def)
  ultimately show ?thesis
    using server_options_leak by fastforce
qed

end
