(* ===== verification/Sessions.thy ===== *)
theory Sessions
  imports Options System Codec_V5
begin

text \<open>
  Connecting: \<open>connectOptions.connect\<close> of \<open>src/client_conn_options.go\<close> with its reconnect loop, \<open>sendRaw\<close>
  of \<open>src/client_conn.go\<close>, and the calls of \<open>src/client_async.go\<close> that start and end connections.

  One run of \<open>connect\<close> is a function of its arguments and of what its environment does: the dialled
  connection, the first packet, the moments at which the client stops. Its result is the list of
  events it causes, in order. A goroutine started with \<open>addWorker\<close> is one event. \<open>connect\<close> starts its
  successor as a goroutine too, so a session is a sequence of runs.
\<close>

section \<open>One run of connect\<close>

abbreviation (input) MaxUint8 :: byte where "MaxUint8 \<equiv> 255"

text \<open>What the \<open>select\<close> after the \<open>CONNECT\<close> finds: a packet, \<open>netRecvC\<close> closed, or \<open>stopSig\<close> closed.\<close>

datatype first_event = FirstPacket packet | RecvClosed | ConnStopped

text \<open>
  The places at which \<open>isClosing\<close> is read: by \<open>addWorker\<close> for a handler, for a goroutine of the
  connection or for the next run, by the code itself after the dial and the logic, and before a retry.
\<close>

datatype closing_point = AtHandler | AtWorker | AtConnect | AfterDial | AfterLogic | BeforeRetry

record connect_env =
  ce_dial :: "goerr option"              \<comment> \<open>error of \<open>newConnection\<close>\<close>
  ce_flush :: "goerr option"             \<comment> \<open>error of flushing the \<open>CONNECT\<close>\<close>
  ce_first :: first_event
  ce_closing :: "closing_point \<Rightarrow> bool"  \<comment> \<open>\<open>isClosing\<close> at that point\<close>
  ce_parentExit :: bool                  \<comment> \<open>\<open>Disconnect\<close> was called before \<open>logic\<close> returned\<close>
  ce_timer :: bool                       \<comment> \<open>the reconnect timer fires before the client stops\<close>

datatype 'h connect_event =
    Handler 'h byte "goerr option"   \<comment> \<open>goroutine: the connection handler with a code and an error\<close>
  | Store                            \<comment> \<open>\<open>connectedServers.Store\<close>\<close>
  | StartRecv                        \<comment> \<open>goroutine: \<open>handleNetRecv\<close>\<close>
  | NetErr goerr                     \<comment> \<open>\<open>notifyNetMsg\<close>\<close>
  | CloseLogicSend                   \<comment> \<open>\<open>close(logicSendC)\<close>\<close>
  | StartSend                        \<comment> \<open>goroutine: \<open>handleSend\<close>\<close>
  | Logic                            \<comment> \<open>a complete run of \<open>logic\<close>\<close>
  | Wait int                         \<comment> \<open>the reconnect timer\<close>
  | Connect byte int                 \<comment> \<open>goroutine: the next run, with its version and delay\<close>
  | CloseConn                        \<comment> \<open>deferred \<open>conn.Close\<close>\<close>
  | Unstore                          \<comment> \<open>deferred \<open>connectedServers.Delete\<close>\<close>

definition addWorker :: "bool \<Rightarrow> 'h connect_event list \<Rightarrow> 'h connect_event list" where
  "addWorker closing workerFunc = (if closing then [] else workerFunc)"

text \<open>
  The next delay. \<open>fmul d f\<close> is the conversion to \<open>time.Duration\<close> of the \<open>float64\<close> product of \<open>d\<close>
  nanoseconds and the factor \<open>f\<close>.
\<close>

definition next_delay :: "(int \<Rightarrow> rat \<Rightarrow> int) \<Rightarrow> ('h, 't, 'n) connect_options \<Rightarrow> int \<Rightarrow> int" where
  "next_delay fmul c reconnectDelay =
     (let reconnectDelay = fmul reconnectDelay (co_backOffFactor c)
      in if reconnectDelay > co_maxDelay c then co_maxDelay c else reconnectDelay)"

text \<open>The code from the label \<open>reconnect\<close> on, and the jump to it after a failed handshake.\<close>

definition reconnect ::
  "(int \<Rightarrow> rat \<Rightarrow> int) \<Rightarrow> ('h, 't, 'n) connect_options \<Rightarrow> byte \<Rightarrow> int \<Rightarrow> connect_env \<Rightarrow> 'h connect_event list" where
  "reconnect fmul c version reconnectDelay env = Wait reconnectDelay #
     (if ce_timer env
      then addWorker (ce_closing env AtConnect) [Connect version (next_delay fmul c reconnectDelay)]
      else [])"

definition retry ::
  "(int \<Rightarrow> rat \<Rightarrow> int) \<Rightarrow> ('h, 't, 'n) connect_options \<Rightarrow> byte \<Rightarrow> int \<Rightarrow> connect_env \<Rightarrow> 'h connect_event list" where
  "retry fmul c version reconnectDelay env =
     (if co_autoReconnect c \<and> \<not> ce_closing env BeforeRetry
      then reconnect fmul c version reconnectDelay env else [])"

definition call_connHandler ::
  "('h, 't, 'n) connect_options \<Rightarrow> connect_env \<Rightarrow> byte \<Rightarrow> goerr option \<Rightarrow> 'h connect_event list" where
  "call_connHandler c env code err = (case co_connHandler c of
       None \<Rightarrow> []
     | Some h \<Rightarrow> addWorker (ce_closing env AtHandler) [Handler h code err])"

text \<open>\<open>sendRaw\<close> on a new connection: the error it returns and the report it makes; the encoder may panic.\<close>

definition sendRaw :: "packet \<Rightarrow> goerr option \<Rightarrow> (goerr option \<times> 'h connect_event list) res" where
  "sendRaw pkt flush = (case packet_WriteTo bytes_Buffer [] pkt of
       ((b, Some (GoErr e)), _) \<Rightarrow> Inr (Some e, [])
     | ((b, Some f), _) \<Rightarrow> Inl f
     | ((b, None), _) \<Rightarrow> (case flush of None \<Rightarrow> Inr (None, []) | Some e \<Rightarrow> Inr (Some e, [NetErr e])))"

text \<open>The \<open>select\<close> and what follows, with the deferred calls of the connection left out.\<close>

definition after_connect ::
  "(int \<Rightarrow> rat \<Rightarrow> int) \<Rightarrow> ('h, 't, 'n) connect_options \<Rightarrow> byte \<Rightarrow> int \<Rightarrow> connect_env \<Rightarrow> 'h connect_event list" where
  "after_connect fmul c version reconnectDelay env = (case ce_first env of
       RecvClosed \<Rightarrow>
         call_connHandler c env MaxUint8 (Some ErrDecodeBadPacket) @ [CloseLogicSend] @
         retry fmul c version reconnectDelay env
     | FirstPacket (ConnAckPkt p) \<Rightarrow>
         if connack_Code p \<noteq> CodeSuccess then
           CloseLogicSend #
           (if version > V311 \<and> co_protoCompromise c \<and> connack_Code p = CodeUnsupportedProtoVersion
            then addWorker (ce_closing env AtConnect) [Connect (version - 1) reconnectDelay]
            else call_connHandler c env (connack_Code p) None @
                 retry fmul c version reconnectDelay env)
         else
           call_connHandler c env CodeSuccess None @ addWorker (ce_closing env AtWorker) [StartSend] @
           Logic # (if ce_closing env AfterLogic \<or> ce_parentExit env then []
                    else reconnect fmul c version reconnectDelay env)
     | FirstPacket _ \<Rightarrow>
         CloseLogicSend # call_connHandler c env MaxUint8 (Some ErrDecodeBadPacket) @
         retry fmul c version reconnectDelay env
     | ConnStopped \<Rightarrow> retry fmul c version reconnectDelay env)"

definition connect ::
  "(int \<Rightarrow> rat \<Rightarrow> int) \<Rightarrow> ('h, 't, 'n) connect_options \<Rightarrow> conn_packet \<Rightarrow> byte \<Rightarrow> int \<Rightarrow> connect_env \<Rightarrow>
   'h connect_event list res" where
  "connect fmul c connPacket version reconnectDelay env = (case ce_dial env of
       Some err \<Rightarrow>
         Inr (call_connHandler c env MaxUint8 (Some err) @ retry fmul c version reconnectDelay env @ [Unstore])
     | None \<Rightarrow>
         if ce_closing env AfterDial then Inr [CloseConn, Unstore]
         else
           rbind (conn_clone connPacket) (\<lambda>connPkt.
           rbind (sendRaw (ConnPkt (connPkt\<lparr>conn_ProtoVersion := version\<rparr>)) (ce_flush env)) (\<lambda>(err, report).
           Inr (Store # addWorker (ce_closing env AtWorker) [StartRecv] @ report @
             (if err \<noteq> None then retry fmul c version reconnectDelay env
              else after_connect fmul c version reconnectDelay env) @ [CloseConn, Unstore]))))"

section \<open>Sessions\<close>

fun next_run :: "'h connect_event list \<Rightarrow> (byte \<times> int) option" where
  "next_run [] = None"
| "next_run (Connect version delay # es) = Some (version, delay)"
| "next_run (e # es) = next_run es"

text \<open>
  The runs of one \<open>ConnectServer\<close> call, for a list of environments: each with its version, its delay and
  its events. A panic ends the program.
\<close>

fun session ::
  "(int \<Rightarrow> rat \<Rightarrow> int) \<Rightarrow> ('h, 't, 'n) connect_options \<Rightarrow> conn_packet \<Rightarrow> byte \<Rightarrow> int \<Rightarrow> connect_env list \<Rightarrow>
   (byte \<times> int \<times> 'h connect_event list) list" where
  "session fmul c pkt version delay [] = []"
| "session fmul c pkt version delay (env # envs) =
     (case connect fmul c pkt version delay env of
        Inl f \<Rightarrow> []
      | Inr es \<Rightarrow> (version, delay, es) #
          (case next_run es of
             None \<Rightarrow> []
           | Some (version, delay) \<Rightarrow> session fmul c pkt version delay envs))"

section \<open>Facts about a run\<close>

lemma next_run_append: "next_run (es @ fs) = (case next_run es of None \<Rightarrow> next_run fs | Some r \<Rightarrow> Some r)"
  by (induction es rule: next_run.induct) simp_all

lemma next_run_handler [simp]: "next_run (call_connHandler c env code err) = None"
  by (simp add: call_connHandler_def addWorker_def split: option.split)

lemma next_run_worker [simp]: "next_run (addWorker b [StartRecv]) = None" "next_run (addWorker b [StartSend]) = None"
  by (simp_all add: addWorker_def)

lemma next_run_reconnect:
  "next_run (reconnect fmul c version delay env) =
     (if ce_timer env \<and> \<not> ce_closing env AtConnect then Some (version, next_delay fmul c delay) else None)"
  by (simp add: reconnect_def addWorker_def)

lemma next_run_retry:
  "next_run (retry fmul c version delay env) =
     (if co_autoReconnect c \<and> \<not> ce_closing env BeforeRetry \<and> ce_timer env \<and> \<not> ce_closing env AtConnect
      then Some (version, next_delay fmul c delay) else None)"
  by (simp add: retry_def next_run_reconnect)

text \<open>A server's refusal of the version, which makes the client try the version below.\<close>

definition refuses_version :: "connect_env \<Rightarrow> bool" where
  "refuses_version env = (case ce_first env of
       FirstPacket (ConnAckPkt p) \<Rightarrow> connack_Code p = CodeUnsupportedProtoVersion
     | _ \<Rightarrow> False)"

lemma after_connect_cases [case_names closed stopped refused accepted other]:
  assumes "ce_first env = RecvClosed \<Longrightarrow> after_connect fmul c version delay env =
      call_connHandler c env MaxUint8 (Some ErrDecodeBadPacket) @ [CloseLogicSend] @
      retry fmul c version delay env \<Longrightarrow> P"
    and "ce_first env = ConnStopped \<Longrightarrow>
      after_connect fmul c version delay env = retry fmul c version delay env \<Longrightarrow> P"
    and "\<And>p. ce_first env = FirstPacket (ConnAckPkt p) \<Longrightarrow> connack_Code p \<noteq> CodeSuccess \<Longrightarrow>
      after_connect fmul c version delay env = CloseLogicSend #
        (if version > V311 \<and> co_protoCompromise c \<and> connack_Code p = CodeUnsupportedProtoVersion
         then addWorker (ce_closing env AtConnect) [Connect (version - 1) delay]
         else call_connHandler c env (connack_Code p) None @ retry fmul c version delay env) \<Longrightarrow> P"
    and "\<And>p. ce_first env = FirstPacket (ConnAckPkt p) \<Longrightarrow> connack_Code p = CodeSuccess \<Longrightarrow>
      after_connect fmul c version delay env =
        call_connHandler c env CodeSuccess None @ addWorker (ce_closing env AtWorker) [StartSend] @
        Logic # (if ce_closing env AfterLogic \<or> ce_parentExit env then []
                 else reconnect fmul c version delay env) \<Longrightarrow> P"
    and "\<And>p. ce_first env = FirstPacket p \<Longrightarrow> (\<And>a. p \<noteq> ConnAckPkt a) \<Longrightarrow>
      after_connect fmul c version delay env =
        CloseLogicSend # call_connHandler c env MaxUint8 (Some ErrDecodeBadPacket) @
        retry fmul c version delay env \<Longrightarrow> P"
  shows P
proof (cases "ce_first env")
  case (FirstPacket p)
  show ?thesis
  proof (cases p)
    case (ConnAckPkt a)
    then show ?thesis
      using assms(3,4) [of a] FirstPacket by (cases "connack_Code a = CodeSuccess") (simp_all add: after_connect_def)
  qed (use assms(5) [of p] FirstPacket in \<open>simp_all add: after_connect_def\<close>)
qed (use assms(1,2) in \<open>simp_all add: after_connect_def\<close>)

lemma next_run_after_connect:
  assumes "next_run (after_connect fmul c version delay env) = Some (v, d)"
  shows "v = version \<and> d = next_delay fmul c delay \<or>
    v = version - 1 \<and> d = delay \<and> version > V311 \<and> co_protoCompromise c \<and> refuses_version env"
  using assms
  by (cases fmul c version delay env rule: after_connect_cases)
    (auto simp: refuses_version_def next_run_retry next_run_reconnect next_run_append addWorker_def
      split: if_splits)

lemma sendRaw_Inr:
  assumes "sendRaw pkt flush = Inr (err, report)"
  shows "report = [] \<or> (\<exists>e. report = [NetErr e])" and "err = None \<Longrightarrow> report = []"
  using assms by (auto simp: sendRaw_def split: prod.splits option.splits fault.splits)

lemma connect_cases [consumes 1, case_names failed closing unsent sent]:
  assumes "connect fmul c pkt version delay env = Inr es"
    and "\<And>err. ce_dial env = Some err \<Longrightarrow>
      es = call_connHandler c env MaxUint8 (Some err) @ retry fmul c version delay env @ [Unstore] \<Longrightarrow> P"
    and "ce_dial env = None \<Longrightarrow> ce_closing env AfterDial \<Longrightarrow> es = [CloseConn, Unstore] \<Longrightarrow> P"
    and "\<And>report. ce_dial env = None \<Longrightarrow> \<not> ce_closing env AfterDial \<Longrightarrow>
      report = [] \<or> (\<exists>e. report = [NetErr e]) \<Longrightarrow>
      es = Store # addWorker (ce_closing env AtWorker) [StartRecv] @ report @
             retry fmul c version delay env @ [CloseConn, Unstore] \<Longrightarrow> P"
    and "ce_dial env = None \<Longrightarrow> \<not> ce_closing env AfterDial \<Longrightarrow>
      es = Store # addWorker (ce_closing env AtWorker) [StartRecv] @
             after_connect fmul c version delay env @ [CloseConn, Unstore] \<Longrightarrow> P"
  shows P
proof (cases "ce_dial env = None \<and> \<not> ce_closing env AfterDial")
  case True
  then obtain connPkt err report where
    s: "sendRaw (ConnPkt (connPkt\<lparr>conn_ProtoVersion := version\<rparr>)) (ce_flush env) = Inr (err, report)"
    and es: "es = Store # addWorker (ce_closing env AtWorker) [StartRecv] @ report @
      (if err \<noteq> None then retry fmul c version delay env
       else after_connect fmul c version delay env) @ [CloseConn, Unstore]"
    using assms(1) by (auto simp: connect_def rbind_Inr_iff)
  show ?thesis
    using assms(4) [of report] assms(5) sendRaw_Inr [OF s] True es by (cases err) simp_all
next
  case False
  then show ?thesis
    using assms(1-3) by (cases "ce_dial env") (simp_all add: connect_def)
qed

lemma next_run_connect:
  assumes "connect fmul c pkt version delay env = Inr es" and "next_run es = Some (v, d)"
  shows "v = version \<and> d = next_delay fmul c delay \<or>
    v = version - 1 \<and> d = delay \<and> version > V311 \<and> co_protoCompromise c \<and> refuses_version env"
  using assms(1)
proof (cases rule: connect_cases)
  case sent
  then have "next_run (after_connect fmul c version delay env) = Some (v, d)"
    using assms(2) by (auto simp: next_run_append split: option.splits)
  then show ?thesis
    by (rule next_run_after_connect)
qed (use assms(2) in \<open>auto simp: next_run_append next_run_retry split: option.splits if_splits\<close>)

section \<open>Sessions: delays and versions\<close>

lemma session_induct_step:
  assumes "session fmul c pkt version delay envs = (v, d, es) # runs"
  shows "v = version \<and> d = delay"
    and "runs \<noteq> [] \<Longrightarrow> \<exists>env envs' v' d'. envs = env # envs' \<and> connect fmul c pkt version delay env = Inr es \<and>
      next_run es = Some (v', d') \<and> runs = session fmul c pkt v' d' envs'"
  using assms by (cases envs; auto split: sum.splits option.splits)+

text \<open>What holds of the arguments of the first run and is passed on by every run holds of all runs.\<close>

lemma session_invariant:
  assumes "P version delay"
    and "\<And>v d v' d' env es. P v d \<Longrightarrow> connect fmul c pkt v d env = Inr es \<Longrightarrow>
      next_run es = Some (v', d') \<Longrightarrow> P v' d' \<and> R (v, d) (v', d')"
    and "transp R"
  shows "(\<forall>(v, d, es) \<in> set (session fmul c pkt version delay envs). P v d) \<and>
    sorted_wrt R (map (\<lambda>(v, d, es). (v, d)) (session fmul c pkt version delay envs)) \<and>
    (\<forall>(v, d, es) \<in> set (tl (session fmul c pkt version delay envs)). R (version, delay) (v, d))"
  using assms(1)
proof (induction envs arbitrary: version delay)
  case Nil
  then show ?case
    by simp
next
  case (Cons env envs)
  show ?case
  proof (cases "\<exists>es v d. connect fmul c pkt version delay env = Inr es \<and> next_run es = Some (v, d)")
    case False
    then show ?thesis
      using Cons.prems by (auto split: sum.split option.split)
  next
    case True
    then obtain es v d where es: "connect fmul c pkt version delay env = Inr es" "next_run es = Some (v, d)"
      by blast
    let ?runs = "session fmul c pkt v d envs"
    have step: "P v d" "R (version, delay) (v, d)"
      using assms(2) [OF Cons.prems es] by simp_all
    note IH = Cons.IH [OF step(1)]
    have "R (version, delay) (v', d')" if "(v', d', es') \<in> set ?runs" for v' d' es'
    proof (cases ?runs)
      case (Cons r rs)
      then obtain es1 where r: "r = (v, d, es1)"
        using session_induct_step(1) by (metis prod_cases3)
      have "(v', d') = (v, d) \<or> R (v, d) (v', d')"
        using that IH Cons r by auto
      then show ?thesis
        using step(2) assms(3) by (metis transpD)
    qed (use that in simp)
    then show ?thesis
      using IH es Cons.prems by auto
  qed
qed




text \<open>Exact products, rounded down, satisfy the hypothesis on \<open>fmul\<close>.\<close>

definition exact_mul :: "int \<Rightarrow> rat \<Rightarrow> int" where
  "exact_mul d f = \<lfloor>of_int d * f\<rfloor>"


definition retrying :: "(unit, unit, unit) connect_options" where
  "retrying = (defaultConnectOptions 0 ())\<lparr>co_autoReconnect := True, co_protoVersion := V5,
     co_protoCompromise := True, co_connHandler := Some ()\<rparr>"

abbreviation (input) running :: "closing_point \<Rightarrow> bool" where
  "running \<equiv> \<lambda>_. False"

abbreviation (input) no_server :: connect_env where
  "no_server \<equiv> \<lparr>ce_dial = Some ErrEOF, ce_flush = None, ce_first = ConnStopped, ce_closing = running,
     ce_parentExit = False, ce_timer = True\<rparr>"

abbreviation (input) connack :: "byte \<Rightarrow> connack_packet" where
  "connack code \<equiv> \<lparr>connack_ProtoVersion = 5, connack_Present = False, connack_Code = code, connack_Props = None\<rparr>"

abbreviation (input) answering :: "byte \<Rightarrow> connect_env" where
  "answering code \<equiv> \<lparr>ce_dial = None, ce_flush = None, ce_first = FirstPacket (ConnAckPkt (connack code)),
     ce_closing = running, ce_parentExit = False, ce_timer = True\<rparr>"

abbreviation (input) four_runs :: "(byte \<times> int \<times> unit connect_event list) list" where
  "four_runs \<equiv> session exact_mul retrying conn_packet_zero (co_protoVersion retrying) (co_firstDelay retrying)
     [no_server, answering 132, no_server, answering 0]"

lemma four_runs: "map (\<lambda>(v, d, es). (v, d)) four_runs =
    [(5, 5 * Second), (5, 7500000000), (4, 7500000000), (4, 11250000000)]"
  by code_simp



text \<open>
  C20: the protocol version of a session is the configured one, and at most once it is lowered, from MQTT
  5 to 3.1.1, which needs \<open>protoCompromise\<close>. It is never raised again.
\<close>
theorem session_versions:
  assumes "co_protoVersion c \<in> {V311, V5}"
  shows "(\<forall>(v, d, es) \<in> set (session fmul c pkt (co_protoVersion c) delay envs).
      v = co_protoVersion c \<or> v = V311 \<and> co_protoVersion c = V5 \<and> co_protoCompromise c) \<and>
    sorted_wrt (\<ge>) (map (\<lambda>(v, d, es). v) (session fmul c pkt (co_protoVersion c) delay envs))"
proof -
  define P where "P = (\<lambda>v (d :: int). v = co_protoVersion c \<or> v = V311 \<and> co_protoVersion c = V5 \<and> co_protoCompromise c)"
  define R where "R = (\<lambda>(a :: byte \<times> int) (b :: byte \<times> int). fst b \<le> fst a)"
  let ?runs = "session fmul c pkt (co_protoVersion c) delay envs"
  have "P v' d' \<and> R (v, d) (v', d')"
    if "P v d" "connect fmul c pkt v d env = Inr es" "next_run es = Some (v', d')" for v d v' d' env es
    using that(1) assms next_run_connect [OF that(2,3)] by (auto simp: P_def R_def)
  moreover have "P (co_protoVersion c) delay" "transp R"
    by (auto simp: P_def R_def transp_def)
  ultimately have inv: "(\<forall>(v, d, es) \<in> set ?runs. P v d)" "sorted_wrt R (map (\<lambda>(v, d, es). (v, d)) ?runs)"
    using session_invariant [of P _ _ fmul c pkt R envs] by blast+
  have "sorted_wrt (\<ge>) (map (\<lambda>(v, d, es). v) ?runs)"
    using inv(2) by (simp add: sorted_wrt_map R_def split_beta)
  then show ?thesis
    using inv(1) by (auto simp: P_def)
qed

lemma session_versions_witness:
  "sorted_wrt (\<ge>) (map (\<lambda>(v, d, es). v) four_runs) \<and> map (\<lambda>(v, d, es). (v, d)) four_runs =
    [(5, 5 * Second), (5, 7500000000), (4, 7500000000), (4, 11250000000)]"
  by (intro conjI session_versions [THEN conjunct2] four_runs) (simp add: retrying_def)

section \<open>What the application is told\<close>

fun handler_calls :: "'h connect_event list \<Rightarrow> ('h \<times> byte \<times> goerr option) list" where
  "handler_calls [] = []"
| "handler_calls (Handler h code err # es) = (h, code, err) # handler_calls es"
| "handler_calls (e # es) = handler_calls es"

lemma handler_calls_append [simp]: "handler_calls (es @ fs) = handler_calls es @ handler_calls fs"
  by (induction es rule: handler_calls.induct) simp_all

lemma handler_calls_simps [simp]:
  "handler_calls (addWorker b [StartRecv]) = []" "handler_calls (addWorker b [StartSend]) = []"
  "handler_calls (addWorker b [Connect v d]) = []" "handler_calls (reconnect fmul c version delay env) = []"
  "handler_calls (retry fmul c version delay env) = []"
  "handler_calls (call_connHandler c env code err) = (case co_connHandler c of None \<Rightarrow> []
     | Some h \<Rightarrow> if ce_closing env AtHandler then [] else [(h, code, err)])"
  by (simp_all add: addWorker_def retry_def reconnect_def call_connHandler_def split: option.split)

lemma no_Logic [simp]:
  "Logic \<notin> set (addWorker b [StartRecv])" "Logic \<notin> set (addWorker b [StartSend])"
  "Logic \<notin> set (addWorker b [Connect v d])" "Logic \<notin> set (reconnect fmul c version delay env)"
  "Logic \<notin> set (retry fmul c version delay env)" "Logic \<notin> set (call_connHandler c env code err)"
  by (simp_all add: addWorker_def retry_def reconnect_def call_connHandler_def split: option.split)

text \<open>
  C22: a run of \<open>connect\<close> calls the connection handler at most once. If the connection was established
  (\<open>logic\<close> ran), it was called with the code for success, and otherwise never with it; it is not called
  at all when the connection is stopped before the first packet.
\<close>
theorem connHandler_calls:
  assumes "connect fmul c pkt version delay env = Inr es"
  shows "length (handler_calls es) \<le> 1 \<and>
    (Logic \<in> set es \<longrightarrow> handler_calls es = (case co_connHandler c of None \<Rightarrow> []
       | Some h \<Rightarrow> if ce_closing env AtHandler then [] else [(h, CodeSuccess, None)])) \<and>
    (Logic \<notin> set es \<longrightarrow> (\<forall>(h, code, err) \<in> set (handler_calls es). code \<noteq> CodeSuccess)) \<and>
    (ce_dial env = None \<and> ce_first env = ConnStopped \<longrightarrow> handler_calls es = [])"
  using assms
proof (cases rule: connect_cases)
  case sent
  then show ?thesis
    by (cases fmul c version delay env rule: after_connect_cases) (auto split: option.splits if_splits)
qed (auto split: option.splits if_splits)

lemma connHandler_calls_witness:
  "\<exists>es. connect exact_mul retrying conn_packet_zero V5 Second (answering 0) = Inr es \<and>
     handler_calls es = [((), 0, None)]"
proof -
  let ?r = "connect exact_mul retrying conn_packet_zero V5 Second (answering 0)"
  have "case ?r of Inr es \<Rightarrow> Logic \<in> set es | _ \<Rightarrow> False"
    by code_simp
  then obtain es where es: "?r = Inr es" "Logic \<in> set es"
    by (cases ?r) auto
  show ?thesis
    using connHandler_calls [OF es(1)] es by (simp add: retrying_def)
qed

section \<open>When a session goes on\<close>

lemma lost_connection_goes_on:
  assumes "connect fmul c pkt version delay env = Inr es" and "Logic \<in> set es"
  shows "next_run es =
    (if ce_closing env AfterLogic \<or> ce_parentExit env \<or> \<not> ce_timer env \<or> ce_closing env AtConnect then None
     else Some (version, next_delay fmul c delay))"
  using assms(1)
proof (cases rule: connect_cases)
  case sent
  then show ?thesis
    using assms(2)
    by (cases fmul c version delay env rule: after_connect_cases)
      (auto simp: next_run_append next_run_reconnect split: if_splits)
qed (use assms(2) in \<open>auto split: if_splits\<close>)

text \<open>
  A connection that was established and then lost is retried whatever \<open>autoReconnect\<close> says, at the
  same version, unless the client stops or \<open>Disconnect\<close> was called before \<open>logic\<close> returned.
\<close>
theorem lost_connection_retried:
  assumes "connect fmul c pkt version delay env = Inr es" and "Logic \<in> set es"
  shows "next_run es =
    (if ce_closing env AfterLogic \<or> ce_parentExit env \<or> \<not> ce_timer env \<or> ce_closing env AtConnect then None
     else Some (version, next_delay fmul c delay))"
  using lost_connection_goes_on [OF assms] .

lemma lost_connection_retried_witness:
  "\<exists>es. connect exact_mul (retrying\<lparr>co_autoReconnect := False\<rparr>) conn_packet_zero V5 Second (answering 0) =
     Inr es \<and> next_run es = Some (V5, 1500000000)"
proof -
  let ?r = "connect exact_mul (retrying\<lparr>co_autoReconnect := False\<rparr>) conn_packet_zero V5 Second (answering 0)"
  have "case ?r of Inr es \<Rightarrow> Logic \<in> set es | _ \<Rightarrow> False"
    by code_simp
  then obtain es where es: "?r = Inr es" "Logic \<in> set es"
    by (cases ?r) auto
  have "next_delay exact_mul (retrying\<lparr>co_autoReconnect := False\<rparr>) Second = 1500000000"
    by code_simp
  then show ?thesis
    using lost_connection_retried [OF es] es(1) by simp
qed

lemma unestablished_next_run:
  assumes "connect fmul c pkt version delay env = Inr es" and "Logic \<notin> set es"
    and "\<not> co_autoReconnect c" and "next_run es = Some (v, d)"
  shows "v = version - 1 \<and> version > V311"
  using assms(1)
proof (cases rule: connect_cases)
  case sent
  then show ?thesis
    using assms(2-4)
    by (cases fmul c version delay env rule: after_connect_cases)
      (auto simp: next_run_append next_run_retry addWorker_def split: if_splits)
qed (use assms(2-4) in \<open>auto simp: next_run_append next_run_retry split: if_splits\<close>)

text \<open>Such a session at 3.1.1 has one run.\<close>

lemma one_run_v311:
  assumes "\<not> co_autoReconnect c" and "\<forall>(v, d, es) \<in> set (session fmul c pkt V311 delay envs). Logic \<notin> set es"
  shows "length (session fmul c pkt V311 delay envs) \<le> 1"
proof (cases envs)
  case (Cons env envs')
  show ?thesis
  proof (cases "connect fmul c pkt V311 delay env")
    case (Inr es)
    then have "Logic \<notin> set es"
      using assms(2) Cons by simp
    then have "next_run es = None"
      using unestablished_next_run [OF Inr _ assms(1)] by (cases "next_run es") auto
    then show ?thesis
      using Cons Inr by simp
  qed (use Cons in simp)
qed simp

text \<open>
  C29: without \<open>autoReconnect\<close> a session whose handshakes all fail ends by itself: it has at most one run
  at MQTT 3.1.1, and at most one more for the lowered version when it starts at MQTT 5.
\<close>
theorem session_gives_up:
  assumes "\<not> co_autoReconnect c" and "version \<in> {V311, V5}"
    and "\<forall>(v, d, es) \<in> set (session fmul c pkt version delay envs). Logic \<notin> set es"
  shows "length (session fmul c pkt version delay envs) \<le> (if version = V311 then 1 else 2)"
proof (cases "version = V311")
  case True
  then show ?thesis
    using one_run_v311 assms(1,3) by simp
next
  case False
  then have v: "version = V5"
    using assms(2) by simp
  show ?thesis
  proof (cases envs)
    case (Cons env envs')
    show ?thesis
    proof (cases "\<exists>es d. connect fmul c pkt version delay env = Inr es \<and> next_run es = Some (V311, d)")
      case True
      then obtain es d where es: "connect fmul c pkt version delay env = Inr es" "next_run es = Some (V311, d)"
        by blast
      then have "length (session fmul c pkt V311 d envs') \<le> 1"
        using one_run_v311 [OF assms(1)] assms(3) Cons by simp
      then show ?thesis
        using es Cons v by simp
    next
      case False
      then have "length (session fmul c pkt version delay envs) \<le> 1"
        using unestablished_next_run [of fmul c pkt version delay env] assms(1,3) Cons v
        by (fastforce split: sum.splits option.splits)
      then show ?thesis
        using v by simp
    qed
  qed simp
qed

lemma session_gives_up_witness:
  "length (session exact_mul (retrying\<lparr>co_autoReconnect := False\<rparr>) conn_packet_zero V5 Second
     [answering 132, no_server, answering 0]) \<le> 2"
proof -
  have "list_all (\<lambda>(v, d, es). Logic \<notin> set es) (session exact_mul (retrying\<lparr>co_autoReconnect := False\<rparr>)
      conn_packet_zero V5 Second [answering 132, no_server, answering 0])"
    by code_simp
  then show ?thesis
    using session_gives_up [of "retrying\<lparr>co_autoReconnect := False\<rparr>" V5 exact_mul conn_packet_zero Second
        "[answering 132, no_server, answering 0]"]
    by (simp add: list_all_iff)
qed

section \<open>Panics\<close>

lemma sendRaw_plain:
  assumes "conn_Props p = None"
  shows "\<exists>r. sendRaw (ConnPkt p) flush = Inr r"
proof -
  let ?p = "snd (conn_flags p)"
  obtain pl where "conn_payload ?p = Inr pl"
    using conn_payload_returns by blast
  moreover have "conn_Props ?p = None"
    using assms by (simp add: conn_flags_def Let_def)
  ultimately have "snd (fst (packet_WriteTo bytes_Buffer [] (ConnPkt p))) \<in> insert None (range (Some \<circ> GoErr))"
    by (auto simp: conn_WriteTo_def split_beta by_version_def base_writeV5_def buffer.base_write_result
        Let_def split: sum.split)
  then show ?thesis
    by (auto simp: sendRaw_def split: prod.splits option.splits)
qed

text \<open>
  C35: \<open>connect\<close> panics exactly when the connect packet carries MQTT 5 properties, as soon as the server
  has been reached: \<open>ConnProps.clone\<close> unlocks a mutex it did not lock. No other run fails so.
\<close>
theorem connect_panics_iff:
  "(\<exists>f. connect fmul c pkt version delay env = Inl f) \<longleftrightarrow>
   ce_dial env = None \<and> \<not> ce_closing env AfterDial \<and> conn_Props pkt \<noteq> None"
proof (cases "ce_dial env = None \<and> \<not> ce_closing env AfterDial")
  case True
  show ?thesis
  proof (cases "conn_Props pkt")
    case None
    then obtain p where p: "conn_clone pkt = Inr p" "conn_Props p = None"
      by (simp add: conn_clone_def connProps_clone_def)
    then obtain r where "sendRaw (ConnPkt (p\<lparr>conn_ProtoVersion := version\<rparr>)) (ce_flush env) =
        (Inr r :: (goerr option \<times> 'a connect_event list) res)"
      using sendRaw_plain [of "p\<lparr>conn_ProtoVersion := version\<rparr>" "ce_flush env"] by auto
    then show ?thesis
      using None True p by (auto simp: connect_def split: prod.splits)
  qed (use True in \<open>simp add: connect_def conn_clone_def connProps_clone_def\<close>)
qed (auto simp: connect_def split: option.splits)

section \<open>A server that speaks only MQTT 3.1.1\<close>

lemma recv_v311_connack:
  "handleNetRecv g V5 ([0x20, 2, 0, code] @ rest) =
     RecvPacket (ConnAckPkt \<lparr>connack_ProtoVersion = V5, connack_Present = False, connack_Code = code,
       connack_Props = Some connack_props_zero\<rparr>) # handleNetRecv g V5 rest"
proof -
  have "enc 0x20 [0, code] = [0x20, 2, 0, code]"
    by (simp add: enc_def frame_def varIntBytes_def maxMsgSize_def)
  moreover have "decodeV5Packet 0x20 [0, code] = Inr (ConnAckPkt \<lparr>connack_ProtoVersion = V5,
      connack_Present = False, connack_Code = code, connack_Props = Some connack_props_zero\<rparr>)"
    by (simp add: decodeV5Packet_def decodeV5_connack_def go_index_def slice_from_def go_slice_def)
  ultimately have "Decode g V5 ([0x20, 2, 0, code] @ rest) = (Inr (ConnAckPkt \<lparr>connack_ProtoVersion = V5,
      connack_Present = False, connack_Code = code, connack_Props = Some connack_props_zero\<rparr>), rest)"
    using Decode_enc [where body = "[0, code]" and first = 32 and rest = rest] by (simp add: maxMsgSize_def)
  then have "recv_one g V5 ([0x20, 2, 0, code] @ rest) = (RecvPacket (ConnAckPkt \<lparr>connack_ProtoVersion = V5,
      connack_Present = False, connack_Code = code, connack_Props = Some connack_props_zero\<rparr>), Some rest)"
    by (simp add: recv_one_def packet_Version_def base_Version_def)
  then show ?thesis
    by (subst handleNetRecv.simps) simp
qed

text \<open>
  \<open>protoCompromise\<close> does not help with a server that only speaks MQTT 3.1.1. Such a server refuses the
  version with return code 1 of its own protocol; the MQTT 5 decoder accepts the packet and reports
  code 1, but the client lowers the version for code 132 only: the next run, if any, is MQTT 5 again.
\<close>
theorem v311_refusal_keeps_version:
  assumes "handleNetRecv g V5 ([0x20, 2, 0, code] @ rest) = RecvPacket p # evs" and "code \<in> {1..5}"
    and "ce_first env = FirstPacket p" and "connect fmul c pkt V5 delay env = Inr es"
  shows "next_run es \<in> {None, Some (V5, next_delay fmul c delay)}"
proof -
  have "\<not> refuses_version env"
    using assms(1-3) unfolding recv_v311_connack by (auto simp: refuses_version_def)
  then show ?thesis
    using next_run_connect [OF assms(4)] by (cases "next_run es") auto
qed

lemma v311_refusal_keeps_version_witness:
  "\<exists>es. connect exact_mul retrying conn_packet_zero V5 Second ((answering 1)
       \<lparr>ce_first := FirstPacket (ConnAckPkt \<lparr>connack_ProtoVersion = V5, connack_Present = False,
          connack_Code = 1, connack_Props = Some connack_props_zero\<rparr>)\<rparr>) = Inr es \<and>
     next_run es \<in> {None, Some (V5, 1500000000)} \<and> next_run es \<noteq> None"
proof -
  let ?env = "(answering 1)\<lparr>ce_first := FirstPacket (ConnAckPkt \<lparr>connack_ProtoVersion = V5,
    connack_Present = False, connack_Code = 1, connack_Props = Some connack_props_zero\<rparr>)\<rparr>"
  let ?r = "connect exact_mul retrying conn_packet_zero V5 Second ?env"
  have "case ?r of Inr es \<Rightarrow> next_run es \<noteq> None | _ \<Rightarrow> False"
    by code_simp
  then obtain es where es: "?r = Inr es" "next_run es \<noteq> None"
    by (cases ?r) auto
  have "next_delay exact_mul retrying Second = 1500000000"
    by code_simp
  then show ?thesis
    using v311_refusal_keeps_version [OF recv_v311_connack [of ping_vars_init 1 "[]"] _ _ es(1)] es by auto
qed

end
