(* ===== verification/Teardown.thy ===== *)
theory Teardown
  imports Sessions
begin

text \<open>
  The calls of \<open>src/client_async.go\<close> that start and end connections: \<open>ConnectServer\<close>, \<open>Connect\<close>,
  \<open>Disconnect\<close>, \<open>Destroy\<close> and \<open>Wait\<close>, the table \<open>connectedServers\<close> they share with the runs of \<open>connect\<close>, and the
  dispatch of received messages.
\<close>

section \<open>Starting connections\<close>

text \<open>A goroutine that runs \<open>connect\<close>: server, options, version and delay.\<close>

type_synonym ('h, 't, 'n) connect_call = "gostring \<times> ('h, 't, 'n) connect_options \<times> byte \<times> int"

definition ConnectServer ::
  "('s, 'h, 'r, 'l, 't, 'n) opt_state \<Rightarrow> gostring \<Rightarrow> ('s, 'h, 'r, 'l, 't, 'n) client_option list \<Rightarrow>
   opt_error option \<times> ('s, 'h, 'r, 'l, 't, 'n) opt_state \<times> ('h, 't, 'n) connect_call list" where
  "ConnectServer st server connOptions =
     (let (err, st') = server_options st connOptions;
          options = os_options st'
      in (err, st'\<lparr>os_options := os_options st\<rparr>,
          if err \<noteq> None \<or> cl_closing (os_client st') then []
          else [(server, options, co_protoVersion options, co_firstDelay options)]))"

text \<open>\<open>strings.SplitN\<close> with a separator of one byte.\<close>

fun SplitN :: "gostring \<Rightarrow> byte \<Rightarrow> nat \<Rightarrow> gostring list" where
  "SplitN s sep 0 = []"
| "SplitN s sep (Suc 0) = [s]"
| "SplitN s sep (Suc (Suc n)) =
     (if sep \<in> set s then takeWhile (\<lambda>b. b \<noteq> sep) s # SplitN (tl (dropWhile (\<lambda>b. b \<noteq> sep) s)) sep (Suc n)
      else [s])"

text \<open>\<open>server_tls name\<close> is a TLS configuration with that server name and nothing else.\<close>

definition Client_Connect ::
  "(gostring \<Rightarrow> 't) \<Rightarrow> ('s, 'h, 'r, 'l, 't, 'n) opt_state \<Rightarrow> 'h \<Rightarrow> ('h, 't, 'n) connect_call list" where
  "Client_Connect server_tls st connHandler =
     (if cl_closing (os_client st) then []
      else map (\<lambda>s. (s, (clone_options (os_options st))\<lparr>co_connHandler := Some connHandler\<rparr>,
                  co_protoVersion (os_options st), co_firstDelay (os_options st)))
             (ac_servers (os_client st)) @
           map (\<lambda>s. let secureOptions = (clone_options (os_options st))
                    \<lparr>co_connHandler := Some connHandler,
                     co_tlsConfig := Some (server_tls (hd (SplitN s 0x3A 1)))\<rparr>
                  in (s, secureOptions, co_protoVersion secureOptions, co_firstDelay secureOptions))
             (ac_secureServers (os_client st)))"

text \<open>
  \<open>Connect\<close> gives every secure server the whole address, port included, as the name its certificate
  is checked for: \<open>SplitN\<close> with limit 1 does not split. Each server gets one goroutine, in the order of
  the options, with the client's version and first delay.
\<close>
theorem secure_server_name_has_port:
  assumes "\<not> cl_closing (os_client st)" and "server \<in> set (ac_secureServers (os_client st))"
  shows "(\<exists>options. (server, options, co_protoVersion (os_options st), co_firstDelay (os_options st))
        \<in> set (Client_Connect server_tls st h) \<and> co_tlsConfig options = Some (server_tls server)) \<and>
    map fst (Client_Connect server_tls st h) = ac_servers (os_client st) @ ac_secureServers (os_client st)"
  using assms by (auto simp: Client_Connect_def Let_def clone_options_def comp_def)

definition secure_client :: "(unit, unit, unit, unit, gostring, unit) opt_state" where
  "secure_client = (case NewClient () () () [WithSecureServer [[0x61, 0x3A, 0x31]]] of Inr st \<Rightarrow> st)"

lemma secure_client_state [simp]:
  "cl_closing (os_client secure_client) = False" "ac_servers (os_client secure_client) = []"
  "ac_secureServers (os_client secure_client) = [[0x61, 0x3A, 0x31]]"
  "co_protoVersion (os_options secure_client) = V311" "co_firstDelay (os_options secure_client) = 5 * Second"
  by (simp_all add: secure_client_def NewClient_def set_client_def defaultConnectOptions_def
      defaultClient_def client.defs async_client.defs)

lemma secure_server_name_has_port_witness:
  "(\<exists>options. ([0x61, 0x3A, 0x31], options, V311, 5 * Second) \<in> set (Client_Connect id secure_client ()) \<and>
     co_tlsConfig options = Some [0x61, 0x3A, 0x31]) \<and>
   map fst (Client_Connect id secure_client ()) = [[0x61, 0x3A, 0x31]]"
  using secure_server_name_has_port [of secure_client "[0x61, 0x3A, 0x31]" id "()"] by simp

section \<open>The table of connections\<close>

text \<open>What other goroutines see of a connection: its entry of \<open>connectedServers\<close>.\<close>

record server_conn =
  sc_parentExit :: bool
  sc_logicClosed :: bool          \<comment> \<open>\<open>logicSendC\<close> is closed\<close>
  sc_stopped :: bool              \<comment> \<open>\<open>stopSig\<close> is closed\<close>
  sc_logicSend :: "packet list"   \<comment> \<open>what \<open>logicSendC\<close> holds\<close>

text \<open>
  The effect of a run of \<open>connect\<close> on the entry of its server. \<open>logic\<close> only returns after \<open>stopSig\<close> was
  closed: \<open>handleNetRecv\<close> calls \<open>exit\<close> before it closes \<open>netRecvC\<close>.
\<close>

fun server_event :: "'h connect_event \<Rightarrow> server_conn option \<Rightarrow> server_conn option" where
  "server_event Store n = Some \<lparr>sc_parentExit = False, sc_logicClosed = False, sc_stopped = False, sc_logicSend = []\<rparr>"
| "server_event CloseLogicSend n = map_option (\<lambda>n. n\<lparr>sc_logicClosed := True\<rparr>) n"
| "server_event Logic n = map_option (\<lambda>n. n\<lparr>sc_stopped := True\<rparr>) n"
| "server_event Unstore n = None"
| "server_event _ n = n"

definition server_after :: "'h connect_event list \<Rightarrow> server_conn option \<Rightarrow> server_conn option" where
  "server_after es n = fold server_event es n"

text \<open>
  The ways \<open>clientConn.send\<close> can go: a \<open>select\<close> takes any ready case, sending on a closed channel is ready
  and panics. No way means that the call blocks.
\<close>

datatype 'a send_result = SentOrSkipped 'a | SendPanics

definition conn_send :: "server_conn \<Rightarrow> packet \<Rightarrow> server_conn send_result list" where
  "conn_send n pkt =
     (if sc_logicClosed n then [SendPanics]
      else if length (sc_logicSend n) < logicCap
      then [SentOrSkipped (n\<lparr>sc_logicSend := sc_logicSend n @ [pkt]\<rparr>)] else []) @
     (if sc_stopped n then [SentOrSkipped n] else [])"

text \<open>
  \<open>Disconnect\<close>, up to the \<open>select\<close> that waits for a stop signal, as the list of ways it can go: it
  returns a boolean, waits for the connection or the client to stop, or panics; each with the table.
\<close>

datatype disconnect_result = Returns bool | Waits | Panics

definition stop_choices :: "bool \<Rightarrow> server_conn \<Rightarrow> disconnect_result list" where
  "stop_choices closing n =
     (if sc_stopped n then [Returns True] else []) @ (if closing then [Returns False] else []) @
     (if \<not> sc_stopped n \<and> \<not> closing then [Waits] else [])"

definition Disconnect ::
  "bool \<Rightarrow> (gostring \<rightharpoonup> server_conn) \<Rightarrow> gostring \<Rightarrow> disconn_packet option \<Rightarrow>
   (disconnect_result \<times> (gostring \<rightharpoonup> server_conn)) list" where
  "Disconnect closing servers server packet =
     (let packet = (case packet of None \<Rightarrow> \<lparr>disconn_ProtoVersion = 0, disconn_Code = 0, disconn_Props = None\<rparr>
                    | Some p \<Rightarrow> p) in
      case servers server of
        None \<Rightarrow> [(Returns False, servers)]
      | Some conn \<Rightarrow>
          let conn = conn\<lparr>sc_parentExit := True\<rparr> in
          concat (map (\<lambda>r. case r of
              SendPanics \<Rightarrow> [(Panics, servers(server \<mapsto> conn))]
            | SentOrSkipped conn \<Rightarrow>
                map (\<lambda>r. (r, servers(server \<mapsto> conn))) (stop_choices closing conn))
            (conn_send conn (DisconnPkt packet))))"

text \<open>\<open>Destroy\<close>: the servers it calls \<open>Disconnect\<close> for, one after the other, before \<open>exit\<close>.\<close>

definition Destroy :: "bool \<Rightarrow> gostring list \<Rightarrow> (gostring \<times> disconn_packet option) list" where
  "Destroy force servers = (if force then [] else map (\<lambda>server. (server, None)) servers)"

section \<open>Disconnecting while a run waits to reconnect\<close>

fun is_Wait :: "'h connect_event \<Rightarrow> bool" where
  "is_Wait (Wait d) = True"
| "is_Wait e = False"

definition until_wait :: "'h connect_event list \<Rightarrow> 'h connect_event list" where
  "until_wait es = takeWhile (\<lambda>e. \<not> is_Wait e) es"

lemma server_after_simps [simp]:
  "server_after [] n = n"
  "server_after (e # es) n = server_after es (server_event e n)"
  "server_after (es @ fs) n = server_after fs (server_after es n)"
  "server_after (call_connHandler c env code err) n = n"
  "server_after (addWorker b [StartRecv]) n = n"
  "server_after (addWorker b [StartSend]) n = n"
  by (simp_all add: server_after_def call_connHandler_def addWorker_def split: option.split)

text \<open>The entry a refused run leaves while it waits, and the entry of a lost connection.\<close>

lemma server_refused:
  assumes "connect fmul c pkt version delay env = Inr es" and "CloseLogicSend \<in> set es" and "Wait d \<in> set es"
  shows "server_after (until_wait es) None =
    Some \<lparr>sc_parentExit = False, sc_logicClosed = True, sc_stopped = False, sc_logicSend = []\<rparr>"
  using assms(1)
proof (cases rule: connect_cases)
  case sent
  then show ?thesis
    using assms(2,3)
    by (cases fmul c version delay env rule: after_connect_cases)
      (auto simp: retry_def addWorker_def call_connHandler_def reconnect_def until_wait_def split: if_splits option.splits)
qed (use assms(2,3) in \<open>auto simp: retry_def addWorker_def call_connHandler_def reconnect_def
    split: if_splits option.splits\<close>)

lemma server_lost:
  assumes "connect fmul c pkt version delay env = Inr es" and "Logic \<in> set es" and "Wait d \<in> set es"
  shows "server_after (until_wait es) None =
    Some \<lparr>sc_parentExit = False, sc_logicClosed = False, sc_stopped = True, sc_logicSend = []\<rparr>"
  using assms(1)
proof (cases rule: connect_cases)
  case sent
  then show ?thesis
    using assms(2,3)
    by (cases fmul c version delay env rule: after_connect_cases)
      (auto simp: retry_def addWorker_def call_connHandler_def reconnect_def until_wait_def split: if_splits option.splits)
qed (use assms(2,3) in \<open>auto simp: retry_def addWorker_def call_connHandler_def reconnect_def
    split: if_splits option.splits\<close>)

text \<open>
  \<open>Disconnect\<close> can panic while the client waits to reconnect. After a handshake that failed on the
  first packet the run has closed \<open>logicSendC\<close>, but the connection stays in the table until the wait is
  over, and \<open>Disconnect\<close> sends on the closed channel. If the server leaves the connection open
  (\<open>stopSig\<close> is not closed) the panic is certain.
\<close>
theorem disconnect_panics_in_backoff:
  assumes "connect fmul c pkt version delay env = Inr es" and "CloseLogicSend \<in> set es" and "Wait d \<in> set es"
  shows "\<exists>n. server_after (until_wait es) None = Some n \<and>
    Panics \<in> fst ` set (Disconnect closing [server \<mapsto> n\<lparr>sc_stopped := b\<rparr>] server packet) \<and>
    fst ` set (Disconnect closing [server \<mapsto> n\<lparr>sc_stopped := False\<rparr>] server packet) = {Panics}"
  using server_refused [OF assms] by (simp add: Disconnect_def conn_send_def Let_def)

lemma disconnect_panics_in_backoff_witness:
  "\<exists>es n. connect exact_mul retrying conn_packet_zero V311 Second (answering 5) = Inr es \<and>
     server_after (until_wait es) None = Some n \<and>
     Panics \<in> fst ` set (Disconnect False [[0x61] \<mapsto> n\<lparr>sc_stopped := True\<rparr>] [0x61] None)"
proof -
  let ?r = "connect exact_mul retrying conn_packet_zero V311 Second (answering 5)"
  have "case ?r of Inr es \<Rightarrow> CloseLogicSend \<in> set es \<and> Wait Second \<in> set es | _ \<Rightarrow> False"
    by code_simp
  then obtain es where "?r = Inr es" "CloseLogicSend \<in> set es" "Wait Second \<in> set es"
    by (cases ?r) auto
  then show ?thesis
    using disconnect_panics_in_backoff [of exact_mul retrying conn_packet_zero V311 Second "answering 5" es Second
        False "[0x61]" True None] by blast
qed

text \<open>
  \<open>Disconnect\<close> does not stop a client that waits to reconnect after it lost the connection. It
  returns true, which promises a \<open>DISCONNECT\<close> packet that nobody will send, and the run goes on: it has
  read \<open>parentExit\<close> before the wait, so the next run follows as if \<open>Disconnect\<close> had not been called.
\<close>
theorem disconnect_ignored_in_backoff:
  assumes "connect fmul c pkt version delay env = Inr es" and "Logic \<in> set es" and "Wait d \<in> set es"
  shows "\<exists>n. server_after (until_wait es) None = Some n \<and>
    fst ` set (Disconnect False [server \<mapsto> n\<lparr>sc_logicSend := q\<rparr>] server packet) = {Returns True} \<and>
    next_run es = (if ce_timer env \<and> \<not> ce_closing env AtConnect
      then Some (version, next_delay fmul c delay) else None)"
proof -
  have "\<not> ce_closing env AfterLogic \<and> \<not> ce_parentExit env"
    using assms(1)
  proof (cases rule: connect_cases)
    case sent
    then show ?thesis
      using assms(2,3)
      by (cases fmul c version delay env rule: after_connect_cases)
        (auto simp: retry_def addWorker_def call_connHandler_def reconnect_def split: if_splits option.splits)
  qed (use assms(2,3) in \<open>auto split: if_splits\<close>)
  then show ?thesis
    using server_lost [OF assms] lost_connection_goes_on [OF assms(1,2)]
    by (auto simp: Disconnect_def conn_send_def stop_choices_def Let_def)
qed

lemma disconnect_ignored_in_backoff_witness:
  "\<exists>es n. connect exact_mul retrying conn_packet_zero V311 Second (answering 0) = Inr es \<and>
     server_after (until_wait es) None = Some n \<and>
     fst ` set (Disconnect False [[0x61] \<mapsto> n\<lparr>sc_logicSend := []\<rparr>] [0x61] None) = {Returns True}"
proof -
  let ?r = "connect exact_mul retrying conn_packet_zero V311 Second (answering 0)"
  have "case ?r of Inr es \<Rightarrow> Logic \<in> set es \<and> Wait Second \<in> set es | _ \<Rightarrow> False"
    by code_simp
  then obtain es where "?r = Inr es" "Logic \<in> set es" "Wait Second \<in> set es"
    by (cases ?r) auto
  then show ?thesis
    using disconnect_ignored_in_backoff [of exact_mul retrying conn_packet_zero V311 Second "answering 0" es Second
        "[0x61]" "[]" None] by blast
qed

end
