(* ===== verification/Transport.thy ===== *)
theory Transport
  imports Options
begin

text \<open>
  The transport: the two options of \<open>src/client_options.go\<close> that read certificates, and \<open>tcpConnect\<close> and
  \<open>wsConn\<close> of \<open>src/client_connector.go\<close>.

  The operations of \<open>io\<close>, \<open>net\<close>, \<open>crypto/tls\<close> and \<open>crypto/x509\<close> that the code calls are a record of
  functions. A reader is what is still unread in it; \<open>ioutil.ReadAll\<close> returns all of it and leaves none.
\<close>

section \<open>Certificates\<close>

datatype tls_error = TlsError string

record ('pool, 'cert, 'tls) tls_lib =
  tl_ReadFile :: "gostring \<Rightarrow> tls_error + bytes"
  tl_AppendCertsFromPEM :: "bytes \<Rightarrow> 'pool option"    \<comment> \<open>a new pool, if a certificate was found\<close>
  tl_X509KeyPair :: "bytes \<Rightarrow> bytes \<Rightarrow> tls_error + 'cert"
  tl_LoadX509KeyPair :: "gostring \<Rightarrow> gostring \<Rightarrow> tls_error + 'cert"
  tl_Config :: "'cert \<Rightarrow> bool \<Rightarrow> 'pool \<Rightarrow> gostring \<Rightarrow> 'tls"

text \<open>A reader: its unread bytes, and the error it ends with when that is not \<open>io.EOF\<close>.\<close>

type_synonym reader = "bytes \<times> tls_error option"

definition ReadAll :: "reader \<Rightarrow> (tls_error + bytes) \<times> reader" where
  "ReadAll r = (case snd r of None \<Rightarrow> Inr (fst r) | Some e \<Rightarrow> Inl e, ([], snd r))"

text \<open>
  \<open>WithTLSReader\<close> and \<open>WithTLS\<close>: the error returned, and the state. Where the pool stays empty the code
  returns \<open>err\<close>, which is nil at that point.
\<close>

definition WithTLSReader ::
  "('pool, 'cert, 't) tls_lib \<Rightarrow> reader \<Rightarrow> reader \<Rightarrow> reader \<Rightarrow> gostring \<Rightarrow> bool \<Rightarrow>
   ('s, 'h, 'r, 'l, 't, 'n) opt_state \<Rightarrow> tls_error option \<times> ('s, 'h, 'r, 'l, 't, 'n) opt_state" where
  "WithTLSReader L certReader keyReader caReader serverNameOverride skipVerify st =
     (let (b, certReader) = ReadAll certReader in
      case b of Inl err \<Rightarrow> (Some err, st) | Inr b \<Rightarrow>
      case tl_AppendCertsFromPEM L b of None \<Rightarrow> (None, st) | Some cp \<Rightarrow>
      let (certBytes, certReader) = ReadAll certReader in
      case certBytes of Inl err \<Rightarrow> (Some err, st) | Inr certBytes \<Rightarrow>
      let (keyBytes, keyReader) = ReadAll keyReader in
      case keyBytes of Inl err \<Rightarrow> (Some err, st) | Inr keyBytes \<Rightarrow>
      case tl_X509KeyPair L certBytes keyBytes of Inl err \<Rightarrow> (Some err, st) | Inr cert \<Rightarrow>
      (None, set_options (\<lambda>q. q\<lparr>co_tlsConfig := Some (tl_Config L cert skipVerify cp serverNameOverride)\<rparr>) st))"

definition WithTLS ::
  "('pool, 'cert, 't) tls_lib \<Rightarrow> gostring \<Rightarrow> gostring \<Rightarrow> gostring \<Rightarrow> gostring \<Rightarrow> bool \<Rightarrow>
   ('s, 'h, 'r, 'l, 't, 'n) opt_state \<Rightarrow> tls_error option \<times> ('s, 'h, 'r, 'l, 't, 'n) opt_state" where
  "WithTLS L certFile keyFile caCert serverNameOverride skipVerify st =
     (case tl_ReadFile L caCert of Inl err \<Rightarrow> (Some err, st) | Inr b \<Rightarrow>
      case tl_AppendCertsFromPEM L b of None \<Rightarrow> (None, st) | Some cp \<Rightarrow>
      case tl_LoadX509KeyPair L certFile keyFile of Inl err \<Rightarrow> (Some err, st) | Inr cert \<Rightarrow>
      (None, set_options (\<lambda>q. q\<lparr>co_tlsConfig := Some (tl_Config L cert skipVerify cp serverNameOverride)\<rparr>) st))"

section \<open>TCP\<close>

text \<open>
  The network, as \<open>tcpConnect\<close> sees it: the dial, and the handshake, which returns after some time or
  never. A configuration is its server name and the rest. Times are nanoseconds from the start of the
  handshake.
\<close>

record ('t, 'c) net_env =
  ne_dial :: "tls_error + 'c"
  ne_ServerName :: "'t \<Rightarrow> gostring"
  ne_set_name :: "'t \<Rightarrow> gostring \<Rightarrow> 't"                       \<comment> \<open>a clone with that name\<close>
  ne_handshake :: "'t \<Rightarrow> (int \<times> tls_error option) option"     \<comment> \<open>\<open>None\<close>: it never returns\<close>

datatype ('t, 'c) tcp_result =
    Refused tls_error
  | Plain 'c
  | Secured 'c 't
  | NeverReturns

text \<open>\<open>address[:colonPos]\<close> with \<open>strings.LastIndex(address, ":")\<close>.\<close>

definition hostname :: "gostring \<Rightarrow> gostring" where
  "hostname address = (if 0x3A \<in> set address
     then rev (tl (dropWhile (\<lambda>b. b \<noteq> 0x3A) (rev address))) else address)"

definition tlsTimeoutError :: tls_error where
  "tlsTimeoutError = TlsError ''tls: timed out''"

text \<open>
  The first value on \<open>errChannel\<close>: the timer sends one after \<open>handshakeTimeout\<close> if that is set, the
  handshake its result when it runs in a goroutine. \<open>None\<close> is that the receive blocks for ever.
\<close>

definition first_error ::
  "int \<Rightarrow> (int \<times> tls_error option) option \<Rightarrow> tls_error option option" where
  "first_error handshakeTimeout handshake = (case handshake of
       None \<Rightarrow> if handshakeTimeout \<noteq> 0 then Some (Some tlsTimeoutError) else None
     | Some (t, err) \<Rightarrow>
         if handshakeTimeout \<noteq> 0 \<and> handshakeTimeout < t then Some (Some tlsTimeoutError) else Some err)"

definition tcpConnect ::
  "('t, 'c) net_env \<Rightarrow> gostring \<Rightarrow> int \<Rightarrow> int \<Rightarrow> 't option \<Rightarrow> ('t, 'c) tcp_result" where
  "tcpConnect env address timeout handshakeTimeout tlsConfig = (case ne_dial env of
       Inl err \<Rightarrow> Refused err
     | Inr conn \<Rightarrow> (case tlsConfig of
         None \<Rightarrow> Plain conn
       | Some config \<Rightarrow>
           let config = (if ne_ServerName env config = [] then ne_set_name env config (hostname address) else config);
               err = (if timeout = 0 then map_option snd (ne_handshake env config)
                      else first_error handshakeTimeout (ne_handshake env config))
           in case err of
                None \<Rightarrow> NeverReturns
              | Some (Some err) \<Rightarrow> Refused err
              | Some None \<Rightarrow> Secured conn config))"

section \<open>WebSocket\<close>

text \<open>
  \<open>wsConn\<close>: its read buffer and the messages that will arrive, the last of them possibly an error. A
  \<open>Read\<close> takes the next message, whatever the buffer holds. An empty \<open>bytes.Buffer\<close> reads as \<open>io.EOF\<close>.
\<close>

type_synonym ws_conn = "bytes \<times> (goerr + bytes) list"

datatype ws_result = WsData bytes | WsErr goerr | WsBlocks

definition ws_Read :: "nat \<Rightarrow> ws_conn \<Rightarrow> ws_result \<times> ws_conn" where
  "ws_Read n c = (case c of
       (readBuf, []) \<Rightarrow> (WsBlocks, (readBuf, []))
     | (readBuf, Inl err # msgs) \<Rightarrow> (WsErr err, (readBuf, msgs))
     | (readBuf, Inr data # msgs) \<Rightarrow>
         let readBuf = readBuf @ data in
         if readBuf = [] \<and> n > 0 then (WsErr ErrEOF, ([], msgs))
         else (WsData (take n readBuf), (drop n readBuf, msgs)))"

text \<open>\<open>Write\<close> sends one message; an error sends nothing.\<close>

definition ws_Write :: "bytes list \<Rightarrow> goerr option \<Rightarrow> bytes \<Rightarrow> bytes list \<times> nat \<times> goerr option" where
  "ws_Write out err b = (case err of Some e \<Rightarrow> (out, 0, Some e) | None \<Rightarrow> (out @ [b], length b, None))"

text \<open>Reading with a buffer of \<open>n\<close> bytes until a read fails or blocks: the data, and what is left.\<close>

function ws_read_all :: "nat \<Rightarrow> ws_conn \<Rightarrow> bytes \<times> ws_result \<times> ws_conn" where
  "ws_read_all n c = (case ws_Read n c of
       (WsData d, c) \<Rightarrow> (case ws_read_all n c of (ds, r) \<Rightarrow> (d @ ds, r))
     | (r, c) \<Rightarrow> ([], r, c))"
  by pat_completeness auto
termination
  by (relation "measure (\<lambda>(n, c). length (snd c))")
    (auto simp: ws_Read_def Let_def split: prod.splits list.splits sum.splits if_splits)

declare ws_read_all.simps [simp del]

lemma ws_read_all_simps [simp]:
  "ws_read_all n (buf, []) = ([], WsBlocks, (buf, []))"
  "ws_read_all n (buf, Inl err # msgs) = ([], WsErr err, (buf, msgs))"
  "ws_read_all n (buf, Inr data # msgs) =
     (if buf @ data = [] \<and> n > 0 then ([], WsErr ErrEOF, ([], msgs))
      else case ws_read_all n (drop n (buf @ data), msgs) of (ds, r) \<Rightarrow> (take n (buf @ data) @ ds, r))"
  by (simp_all add: ws_read_all.simps [of n "(buf, _)"] ws_Read_def Let_def del: append_is_Nil_conv)

lemma ws_read_all_split:
  assumes "list_all (\<lambda>m. m \<noteq> []) ms" and "ws_read_all n (buf, map Inr ms) = (ds, r, c)"
  shows "r = WsBlocks \<and> snd c = [] \<and> ds @ fst c = buf @ concat ms \<and> length ds \<le> n * length ms"
  using assms
proof (induction ms arbitrary: buf ds)
  case (Cons m ms)
  obtain ds' r' c' where step: "ws_read_all n (drop n (buf @ m), map Inr ms) = (ds', r', c')"
    by (metis prod_cases3)
  then have ds: "ds = take n (buf @ m) @ ds'" "r = r'" "c = c'"
    using Cons.prems by (auto split: if_splits)
  have "r = WsBlocks \<and> snd c = [] \<and> ds' @ fst c = drop n (buf @ m) @ concat ms \<and> length ds' \<le> n * length ms"
    using Cons.IH [of "drop n (buf @ m)" ds'] step Cons.prems(1) ds by simp
  moreover have "take n (buf @ m) @ drop n (buf @ m) = buf @ m"
    by (rule append_take_drop_id)
  ultimately show ?case
    unfolding ds by (metis append.assoc concat.simps(2) length_append length_Cons length_take
        mult_Suc_right add_mono min.cobounded2)
qed auto

text \<open>
  C39: a WebSocket connection delivers a prefix of what arrived, but it can withhold the end for ever. A
  read returns at most its buffer's length for every message it takes; as it always waits for another
  message first, whatever exceeds that stays in the read buffer while the read blocks.
\<close>
theorem ws_read_strands:
  assumes "list_all (\<lambda>m. m \<noteq> []) ms" and "ws_read_all n ([], map Inr ms) = (ds, r, c)"
    and "n * length ms < length (concat ms)"
  shows "r = WsBlocks \<and> ds @ fst c = concat ms \<and> length ds \<le> n * length ms \<and> fst c \<noteq> []"
  using ws_read_all_split [OF assms(1,2)] assms(3) by auto

lemma ws_read_strands_witness:
  "ws_read_all 4 ([], map Inr [[1, 2, 3, 4, 5, 6]]) = ([1, 2, 3, 4], WsBlocks, ([5, 6], [])) \<and>
   [5, 6] \<noteq> ([] :: bytes)"
  using ws_read_strands [of "[[1, 2, 3, 4, 5, 6]]" 4 "[1, 2, 3, 4]" WsBlocks "([5, 6], [])"] by simp

text \<open>
  The methods of \<open>wsConn\<close> that only answer: both addresses are the empty address made at the dial, and no
  deadline can be set. \<open>Close\<close> says that this end goes away.
\<close>

datatype ws_address = EmptyTCPAddr

definition errNotSupported :: tls_error where
  "errNotSupported = TlsError ''operation not supported''"

definition ws_LocalAddr :: "ws_conn \<Rightarrow> ws_address" where
  "ws_LocalAddr c = EmptyTCPAddr"

definition ws_RemoteAddr :: "ws_conn \<Rightarrow> ws_address" where
  "ws_RemoteAddr c = EmptyTCPAddr"

definition ws_SetDeadline :: "int \<Rightarrow> ws_conn \<Rightarrow> tls_error option" where
  "ws_SetDeadline t c = Some errNotSupported"

definition ws_SetReadDeadline :: "int \<Rightarrow> ws_conn \<Rightarrow> tls_error option" where
  "ws_SetReadDeadline t c = Some errNotSupported"

definition ws_SetWriteDeadline :: "int \<Rightarrow> ws_conn \<Rightarrow> tls_error option" where
  "ws_SetWriteDeadline t c = Some errNotSupported"

abbreviation (input) StatusGoingAway :: nat where "StatusGoingAway \<equiv> 1001"

definition ws_Close :: "(nat \<Rightarrow> string \<Rightarrow> tls_error option) \<Rightarrow> tls_error option" where
  "ws_Close conn_Close = conn_Close StatusGoingAway []"

text \<open>
  \<open>websocketConnect\<close>: \<open>dial\<close> is \<open>websocket.Dial\<close> with the URL and the options the code fills in; what it
  returns for the connection is the stream of messages.
\<close>

record ('t, 'hd) ws_dial_options =
  wd_HTTPHeader :: 'hd
  wd_Subprotocols :: "string list"
  wd_dialTimeout :: int
  wd_TLSHandshakeTimeout :: int
  wd_TLSClientConfig :: "'t option"

definition websocketConnect ::
  "(gostring \<Rightarrow> ('t, 'hd) ws_dial_options \<Rightarrow> tls_error + (goerr + bytes) list) \<Rightarrow>
   gostring \<Rightarrow> int \<Rightarrow> int \<Rightarrow> 'hd \<Rightarrow> 't option \<Rightarrow> tls_error + ws_conn" where
  "websocketConnect dial address dialTimeout handShakeTimeout headers tlsConfig =
     (let urlSchema = (if tlsConfig \<noteq> None then ''wss'' else ''ws'') in
      case dial (ascii (urlSchema @ ''://'') @ address)
          \<lparr>wd_HTTPHeader = headers, wd_Subprotocols = [''mqtt''], wd_dialTimeout = dialTimeout,
           wd_TLSHandshakeTimeout = handShakeTimeout, wd_TLSClientConfig = tlsConfig\<rparr> of
        Inl err \<Rightarrow> Inl err
      | Inr conn \<Rightarrow> Inr ([], conn))"

text \<open>The build for browsers passes the URL and the subprotocol only; headers, timeouts and the configuration are dropped.\<close>

definition websocketConnect_js ::
  "(gostring \<Rightarrow> string list \<Rightarrow> tls_error + (goerr + bytes) list) \<Rightarrow>
   gostring \<Rightarrow> int \<Rightarrow> int \<Rightarrow> 'hd \<Rightarrow> 't option \<Rightarrow> tls_error + ws_conn" where
  "websocketConnect_js dial address dialTimeout handShakeTimeout headers tlsConfig =
     (let urlSchema = (if tlsConfig \<noteq> None then ''wss'' else ''ws'') in
      case dial (ascii (urlSchema @ ''://'') @ address) [''mqtt''] of
        Inl err \<Rightarrow> Inl err
      | Inr conn \<Rightarrow> Inr ([], conn))"

lemma websocketConnect_js_eq:
  "websocketConnect_js dial address dialTimeout handShakeTimeout headers tlsConfig =
   websocketConnect (\<lambda>url options. dial url (wd_Subprotocols options))
     address dialTimeout handShakeTimeout headers tlsConfig"
  by (simp add: websocketConnect_js_def websocketConnect_def)

section \<open>Connectors\<close>

text \<open>
  A connector takes the address, the dial timeout and the TLS configuration. The two options close over
  their own arguments; \<open>WithCustomConnector\<close> of \<open>Options\<close> sets any connector.
\<close>

type_synonym ('t, 'res) connector = "gostring \<Rightarrow> int \<Rightarrow> 't option \<Rightarrow> 'res"

definition WithTCPConnector ::
  "('t, 'c) net_env \<Rightarrow> int \<Rightarrow> ('s, 'h, 'r, 'l, 't, ('t, ('t, 'c) tcp_result) connector) opt_state \<Rightarrow>
   opt_error + ('s, 'h, 'r, 'l, 't, ('t, ('t, 'c) tcp_result) connector) opt_state" where
  "WithTCPConnector env handshakeTimeout st =
     Inr (set_options (\<lambda>q. q\<lparr>co_newConnection :=
       (\<lambda>address timeout tlsConfig. tcpConnect env address timeout handshakeTimeout tlsConfig)\<rparr>) st)"

definition WithWebSocketConnector ::
  "(gostring \<Rightarrow> ('t, 'hd) ws_dial_options \<Rightarrow> tls_error + (goerr + bytes) list) \<Rightarrow> int \<Rightarrow> 'hd \<Rightarrow>
   ('s, 'h, 'r, 'l, 't, ('t, tls_error + ws_conn) connector) opt_state \<Rightarrow>
   opt_error + ('s, 'h, 'r, 'l, 't, ('t, tls_error + ws_conn) connector) opt_state" where
  "WithWebSocketConnector dial handshakeTimeout headers st =
     Inr (set_options (\<lambda>q. q\<lparr>co_newConnection :=
       (\<lambda>address timeout tlsConfig. websocketConnect dial address timeout handshakeTimeout headers tlsConfig)\<rparr>) st)"

text \<open>\<open>quicConnector\<close>: neither a connection nor an error.\<close>

definition quicConnector :: "gostring \<Rightarrow> int \<Rightarrow> int \<Rightarrow> 't option \<Rightarrow> 'c option \<times> tls_error option" where
  "quicConnector address timeout handshakeTimeout tlsConfig = (None, None)"

text \<open>A connection of the WebSocket connector starts with an empty buffer, at a URL whose scheme says if it is secured.\<close>

lemma websocket_connector_dials:
  assumes "WithWebSocketConnector dial handshakeTimeout headers st = Inr st'"
    and "co_newConnection (os_options st') address timeout tlsConfig = Inr c"
  shows "fst c = [] \<and> (\<exists>options. wd_TLSClientConfig options = tlsConfig \<and>
    dial (ascii (if tlsConfig = None then ''ws://'' else ''wss://'') @ address) options = Inr (snd c))"
proof -
  have "st' = set_options (\<lambda>q. q\<lparr>co_newConnection := \<lambda>address timeout tlsConfig.
      websocketConnect dial address timeout handshakeTimeout headers tlsConfig\<rparr>) st"
    using assms(1) by (simp add: WithWebSocketConnector_def)
  then have "websocketConnect dial address timeout handshakeTimeout headers tlsConfig = Inr c"
    using assms(2) by (simp add: set_options_def)
  then show ?thesis
    by (auto simp: websocketConnect_def Let_def split: sum.splits if_splits
        intro!: exI [of _ "\<lparr>wd_HTTPHeader = headers, wd_Subprotocols = [''mqtt''], wd_dialTimeout = timeout,
           wd_TLSHandshakeTimeout = handshakeTimeout, wd_TLSClientConfig = tlsConfig\<rparr>"])
qed

section \<open>Certificate options that do nothing\<close>

text \<open>
  A certificate option can be accepted and leave the connection unencrypted. If the authority file
  (or, for the reader option, the certificate itself, which is read in its place) holds no certificate,
  the option reports no error and sets nothing, and \<open>tcpConnect\<close> without a configuration returns the
  plain connection.
\<close>
theorem tls_option_silent:
  assumes "tl_ReadFile L caCert = Inr b" and "tl_AppendCertsFromPEM L b = None"
    and "tl_AppendCertsFromPEM L b' = None"
    and "co_tlsConfig (os_options st) = None" and "ne_dial env = Inr conn"
  shows "\<exists>st'. WithTLS L certFile keyFile caCert name skip st = (None, st') \<and>
      WithTLSReader L (b', None) keyReader caReader name skip st = (None, st') \<and>
      tcpConnect env address timeout handshakeTimeout (co_tlsConfig (os_options st')) = Plain conn"
  using assms by (simp add: WithTLS_def WithTLSReader_def ReadAll_def tcpConnect_def)

definition no_certs :: "(unit, unit, unit) tls_lib" where
  "no_certs = \<lparr>tl_ReadFile = \<lambda>_. Inr [0x61], tl_AppendCertsFromPEM = \<lambda>_. None,
     tl_X509KeyPair = \<lambda>_ _. Inr (), tl_LoadX509KeyPair = \<lambda>_ _. Inr (), tl_Config = \<lambda>_ _ _ _. ()\<rparr>"

definition open_net :: "(unit, unit) net_env" where
  "open_net = \<lparr>ne_dial = Inr (), ne_ServerName = \<lambda>_. [], ne_set_name = \<lambda>t _. t, ne_handshake = \<lambda>_. None\<rparr>"

lemma tls_option_silent_witness:
  "WithTLS no_certs [1] [2] [3] [4] False some_client = (None, some_client) \<and>
   tcpConnect open_net [0x61] Second 0 (co_tlsConfig (os_options some_client)) = Plain ()"
proof -
  have "co_tlsConfig (os_options some_client) = None"
    by (simp add: some_client_def NewClient_def set_client_def set_options_def defaultConnectOptions_def)
  then show ?thesis
    using tls_option_silent [of no_certs "[3]" "[0x61]" "[0x61]" some_client open_net "()" "[1]" "[2]" "[4]" False
        "([], None)" "([], None)" "[0x61]" Second 0]
    by (auto simp: no_certs_def open_net_def WithTLS_def)
qed

text \<open>
  The reader option never configures anything: it reads the certificate twice, so the second time
  there is nothing left. The hypothesis is \<open>X509KeyPair\<close> refusing empty input.
\<close>

lemma WithTLSReader_never_configures:
  assumes "\<And>key. \<exists>err. tl_X509KeyPair L [] key = Inl err"
  shows "snd (WithTLSReader L certReader keyReader caReader name skip st) = st"
  using assms [of "fst keyReader"]
  by (auto simp: WithTLSReader_def ReadAll_def split: option.splits)

text \<open>
  A TLS handshake has a limit only if both timeouts are set: the default connector passes 0 for the
  handshake's, and a dial timeout of 0 makes the code ignore it.
\<close>

lemma handshake_unbounded:
  assumes "ne_dial env = Inr conn" and "\<And>t. ne_handshake env t = None"
  shows "(tcpConnect env address timeout handshakeTimeout (Some config) = NeverReturns) =
    (timeout = 0 \<or> handshakeTimeout = 0)"
  using assms by (simp add: tcpConnect_def first_error_def Let_def)

end
