(* ===== verification/Channels.thy ===== *)
theory Channels
  imports System
begin




section \<open>One goroutine\<close>







section \<open>The system\<close>







end
