(* ===== verification/Requests.thy ===== *)
theory Requests
  imports Flows
begin

text \<open>
  The life of a request: \<open>Publish\<close>, \<open>Subscribe\<close> and \<open>Unsubscribe\<close> make it pending under a fresh identifier
  (\<open>src/client_async.go\<close>), and the packet that answers it lets \<open>logic\<close> (\<open>src/client_conn.go\<close>) report
  success, release the identifier and delete the stored copy.
\<close>

section \<open>A request becomes pending\<close>

definition answer_type :: "packet \<Rightarrow> byte option" where
  "answer_type p = (case p of
       SubscribePkt s \<Rightarrow> Some CtrlSubAck
     | UnsubPkt u \<Rightarrow> Some CtrlUnSubAck
     | PublishPkt q \<Rightarrow> if pub_Qos q = Qos1 then Some CtrlPubAck else if pub_Qos q = Qos2 then Some CtrlPubComp else None
     | _ \<Rightarrow> None)"

lemma answers_iff: "answers (Some p) pkt \<longleftrightarrow> answer_type p = Some (packet_Type pkt)"
  by (auto simp: answers_def answer_type_def split: packet.split)

lemma answer_type_set_packetID [simp]: "answer_type (set_packetID p pid) = answer_type p"
  by (cases p) (simp_all add: answer_type_def)

text \<open>
  A request can be answered as soon as it has its identifier. After the allocation of a packet, if
  the generator's candidate was free, the packet is pending under it, and a packet with that
  identifier answers it exactly if it is of the type MQTT prescribes: SUBACK for SUBSCRIBE, UNSUBACK
  for UNSUBSCRIBE, PUBACK or PUBCOMP for a PUBLISH of QoS 1 or 2.
\<close>
theorem allocated_request_pending:
  assumes "client_act M c (Alloc p) rest c' rest'" and "getExtra (cl_idGen c) (candidate (cl_idGen c)) = None"
  shows "ack_id pkt = candidate (cl_idGen c) \<longrightarrow>
    (answers (getExtra (cl_idGen c') (ack_id pkt)) pkt \<longleftrightarrow> answer_type p = Some (packet_Type pkt)) \<and>
    rest' = after_alloc (set_packetID p (ack_id pkt)) @ rest"
proof -
  obtain p' g' where a: "alloc_id (cl_idGen c) p = (p', g')" and c': "c' = c\<lparr>cl_idGen := g'\<rparr>"
    and r: "rest' = after_alloc p' @ rest"
    using assms(1) by (auto elim: client_actE)
  show ?thesis
    using alloc_id_fresh [OF a assms(2)] c' r by (auto simp: answers_iff)
qed

lemma allocated_request_pending_witness:
  "\<exists>c' rest'. client_act NonePersist (defaultClient ()) (Alloc (PublishPkt (publish_packet_zero\<lparr>pub_Qos := 1\<rparr>)))
       [] c' rest' \<and>
     answers (getExtra (cl_idGen c') 1)
       (PubAckPkt \<lparr>puback_ProtoVersion = 0, puback_PacketID = 1, puback_Code = 0, puback_Props = None\<rparr>)"
proof -
  let ?c = "defaultClient () :: unit client"
  let ?p = "PublishPkt (publish_packet_zero\<lparr>pub_Qos := 1\<rparr>)"
  let ?ack = "PubAckPkt \<lparr>puback_ProtoVersion = 0, puback_PacketID = 1, puback_Code = 0, puback_Props = None\<rparr>"
  obtain p' g' where a: "alloc_id (cl_idGen ?c) ?p = (p', g')"
    by fastforce
  have cand: "candidate (cl_idGen ?c) = 1" "getExtra (cl_idGen ?c) 1 = None"
    by (simp_all add: defaultClient_def newIDGenerator_def candidate_def getExtra_def)
  have act: "client_act NonePersist ?c (Alloc ?p) [] (?c\<lparr>cl_idGen := g'\<rparr>) (after_alloc p' @ [])"
    using client_act.alloc [OF a] .
  have "answers (getExtra (cl_idGen (?c\<lparr>cl_idGen := g'\<rparr>)) 1) ?ack"
    using allocated_request_pending [OF act, of ?ack] cand by (simp add: answer_type_def publish_packet_zero_def)
  then show ?thesis
    using act by blast
qed

section \<open>Its answer finishes it\<close>






end
