(* ===== verification/Ordering.thy ===== *)
theory Ordering
  imports System "HOL-Library.Sublist"
begin

text \<open>
  The way of a packet through a connection (\<open>src/client_conn.go\<close>): \<open>handleNetRecv\<close> decodes it, hands it over
  on \<open>netRecvC\<close>, and \<open>logic\<close> takes it. The specification is the sequence of packets the stream decodes to;
  the connection, with its goroutines interleaved in any way, is shown to follow it.
\<close>

section \<open>Specification\<close>

text \<open>
  \<open>decoded version r ps r'\<close>: decoding the stream \<open>r\<close> packet by packet gives \<open>ps\<close>, ping responses left
  out, and leaves \<open>r'\<close>. The package variables of the ping packets may differ from packet to packet.
\<close>

inductive decoded :: "byte \<Rightarrow> bytes \<Rightarrow> packet list \<Rightarrow> bytes \<Rightarrow> bool" for version where
  none: "decoded version r [] r"
| packet: "decoded version r ps r1 \<Longrightarrow> recv_one g version r1 = (RecvPacket p, Some r2) \<Longrightarrow>
    decoded version r (ps @ [p]) r2"
| pong: "decoded version r ps r1 \<Longrightarrow> recv_one g version r1 = (RecvPong, Some r2) \<Longrightarrow>
    decoded version r ps r2"

section \<open>One connection and its surroundings\<close>

text \<open>
  A step that a connection sees: of one of its goroutines, of the client around it, or of a caller that
  stops it or disconnects it. The label is the packet that \<open>logic\<close> takes in this step.
\<close>

inductive conn_event ::
  "('s, packet) persist_method \<Rightarrow> 's client \<times> conn \<Rightarrow> packet option \<Rightarrow> 's client \<times> conn \<Rightarrow> bool" for M where
  recv: "recv_step g (c, n) (c', n') \<Longrightarrow> conn_event M (c, n) None (c', n')"
| take: "logic_step M (c, n) (c', n') \<Longrightarrow> cn_netRecvC n = p # cn_netRecvC n' \<Longrightarrow>
    conn_event M (c, n) (Some p) (c', n')"
| logic: "logic_step M (c, n) (c', n') \<Longrightarrow> cn_netRecvC n' = cn_netRecvC n \<Longrightarrow>
    conn_event M (c, n) None (c', n')"
| send: "send_step M (c, n) sent (c', n') \<Longrightarrow> conn_event M (c, n) None (c', n')"
| keepalive: "keepalive_step g n n' \<Longrightarrow> conn_event M (c, n) None (c, n')"
| client: "conn_event M (c, n) None (c', n)"
| stop: "conn_event M (c, n) None (c', n\<lparr>cn_stopped := True\<rparr>)"
| disconnect: "conn_event M (c, n) None (c, n\<lparr>cn_logicSendC := cn_logicSendC n @ [DisconnPkt d]\<rparr>)"

inductive conn_trace ::
  "('s, packet) persist_method \<Rightarrow> 's client \<times> conn \<Rightarrow> packet list \<Rightarrow> 's client \<times> conn \<Rightarrow> bool" for M where
  start: "conn_trace M s [] s"
| event: "conn_trace M s ps s1 \<Longrightarrow> conn_event M s1 l s2 \<Longrightarrow> conn_trace M s (ps @ (case l of None \<Rightarrow> [] | Some p \<Rightarrow> [p])) s2"

lemma logic_step_netRecvC:
  assumes "logic_step M (c, n) (c', n')"
  shows "cn_netRecvC n' = cn_netRecvC n \<or> (\<exists>p. cn_netRecvC n = p # cn_netRecvC n')"
  using assms by (cases rule: logic_step.cases) auto

text \<open>Every step of the system is such a step for each of its connections.\<close>

lemma sys_step_conn_event:
  assumes "sys_step M s s'" and "i < length (sy_conns s)"
  shows "\<exists>l. conn_event M (sy_client s, sy_conns s ! i) l (sy_client s', sy_conns s' ! i)"
  using assms(1)
proof (cases rule: sys_step.cases)
  case (recv k c' n')
  then show ?thesis
    using assms(2) by (cases "k = i") (auto intro: conn_event.recv conn_event.client)
next
  case (logic k c' n')
  then show ?thesis
    using assms(2) logic_step_netRecvC [of M "sy_client s" "sy_conns s ! k" c' n']
    by (cases "k = i") (auto intro: conn_event.logic conn_event.take conn_event.client)
next
  case (send k sent c' n')
  then show ?thesis
    using assms(2) by (cases "k = i") (auto intro: conn_event.send conn_event.client)
next
  case (keepalive k n')
  then show ?thesis
    using assms(2) by (cases "k = i") (auto intro: conn_event.keepalive conn_event.client)
next
  case (disconnect k d)
  then show ?thesis
    using assms(2) by (cases "k = i") (auto intro: conn_event.disconnect conn_event.client)
qed (use assms(2) in \<open>auto simp: nth_append intro: conn_event.client conn_event.stop\<close>)

section \<open>The connection follows the specification\<close>

definition held :: "conn \<Rightarrow> packet list" where
  "held n = (case cn_hold n of Some (RecvPacket p) \<Rightarrow> [p] | _ \<Rightarrow> [])"

text \<open>What \<open>logic\<close> took, what waits for it and what is being handed over is what was decoded.\<close>

definition follows :: "byte \<Rightarrow> bytes \<Rightarrow> packet list \<Rightarrow> conn \<Rightarrow> bool" where
  "follows version stream ps n \<longleftrightarrow> cn_version n = version \<and>
     (\<exists>qs. decoded version stream qs (cn_in n) \<and> subseq (ps @ cn_netRecvC n @ held n) qs \<and>
        (\<not> cn_stopped n \<longrightarrow> qs = ps @ cn_netRecvC n @ held n))"

lemma follows_cong:
  assumes "follows version stream ps n"
    and "cn_version n' = cn_version n" "cn_in n' = cn_in n" "cn_netRecvC n' = cn_netRecvC n"
      "cn_hold n' = cn_hold n" and "cn_stopped n \<Longrightarrow> cn_stopped n'"
  shows "follows version stream ps n'"
  using assms by (auto simp: follows_def held_def)

lemma follows_decode:
  assumes "follows version stream ps n" and "cn_hold n = None"
    and "recv_one g (cn_version n) (cn_in n) = (e, r)"
  shows "follows version stream ps (n\<lparr>cn_hold := Some e, cn_in := (case r of None \<Rightarrow> cn_in n | Some r \<Rightarrow> r)\<rparr>)"
proof -
  obtain qs where v: "cn_version n = version" and qs: "decoded version stream qs (cn_in n)"
      "subseq (ps @ cn_netRecvC n) qs" "\<not> cn_stopped n \<Longrightarrow> qs = ps @ cn_netRecvC n"
    using assms(1,2) by (auto simp: follows_def held_def)
  show ?thesis
  proof (cases r)
    case None
    then have "(\<exists>err. e = RecvError (GoErr err)) \<or> e = RecvVersionMismatch"
      using assms(3) recv_one_event(1) by blast
    then show ?thesis
      using None v qs by (auto simp: follows_def held_def)
  next
    case (Some r')
    then consider p where "e = RecvPacket p" | "e = RecvPong"
      using assms(3) recv_one_event(2) by blast
    then show ?thesis
    proof cases
      case 1
      then have "decoded version stream (qs @ [p]) r'"
        using decoded.packet [OF qs(1)] assms(3) Some v by simp
      moreover have "subseq (ps @ cn_netRecvC n @ [p]) (qs @ [p])"
        using list_emb_append_mono [OF qs(2), of "[p]" "[p]"] by simp
      ultimately show ?thesis
        using 1 Some v qs(3) by (auto simp: follows_def held_def)
    next
      case 2
      then have "decoded version stream qs r'"
        using decoded.pong [OF qs(1)] assms(3) Some v by simp
      then show ?thesis
        using 2 Some v qs(2,3) by (auto simp: follows_def held_def)
    qed
  qed
qed

lemma follows_recv:
  assumes "recv_step g (c, n) (c', n')" and "follows version stream ps n"
  shows "follows version stream ps n'"
  using assms(1)
proof (cases rule: recv_step.cases)
  case (decode e r)
  then show ?thesis
    using follows_decode [OF assms(2)] by blast
next
  case drop
  have "subseq (ps @ cn_netRecvC n) (ps @ cn_netRecvC n @ held n)"
    unfolding append.assoc [symmetric] by (rule list_emb_prefix) simp
  then show ?thesis
    using drop assms(2) unfolding follows_def held_def
    by (auto intro: subseq_order.order_trans)
qed (use assms(2) in \<open>auto simp: follows_def held_def\<close>)

lemma logic_step_receiver:
  assumes "logic_step M (c, n) (c', n')"
  shows "cn_version n' = cn_version n \<and> cn_in n' = cn_in n \<and> cn_hold n' = cn_hold n \<and>
    cn_stopped n' = cn_stopped n"
  using assms by (cases rule: logic_step.cases) simp_all

lemma follows_logic:
  assumes "logic_step M (c, n) (c', n')" and "cn_netRecvC n' = cn_netRecvC n" and "follows version stream ps n"
  shows "follows version stream ps n'"
  using logic_step_receiver [OF assms(1)] assms(2) by (intro follows_cong [OF assms(3)]) simp_all

lemma follows_take:
  assumes "logic_step M (c, n) (c', n')" and "cn_netRecvC n = p # cn_netRecvC n'" and "follows version stream ps n"
  shows "follows version stream (ps @ [p]) n'"
  using logic_step_receiver [OF assms(1)] assms(2,3) unfolding follows_def held_def by simp

lemma send_taken_receiver:
  assumes "send_taken after n p = Some (n', p')"
  shows "cn_version n' = cn_version n \<and> cn_in n' = cn_in n \<and> cn_netRecvC n' = cn_netRecvC n \<and>
    cn_hold n' = cn_hold n \<and> cn_stopped n' = cn_stopped n"
  using assms by (auto simp: send_taken_def split: prod.splits option.splits fault.splits)

lemma send_step_receiver:
  assumes "send_step M (c, n) sent (c', n')"
  shows "cn_version n' = cn_version n \<and> cn_in n' = cn_in n \<and> cn_netRecvC n' = cn_netRecvC n \<and>
    cn_hold n' = cn_hold n \<and> (cn_stopped n \<longrightarrow> cn_stopped n')"
  using assms by (cases rule: send_step.cases) (auto dest: send_taken_receiver)

lemma follows_send:
  assumes "send_step M (c, n) sent (c', n')" and "follows version stream ps n"
  shows "follows version stream ps n'"
  using send_step_receiver [OF assms(1)] by (intro follows_cong [OF assms(2)]) simp_all

lemma follows_keepalive: "keepalive_step g n n' \<Longrightarrow> follows version stream ps n \<Longrightarrow> follows version stream ps n'"
  by (induction rule: keepalive_step.induct) (erule follows_cong; simp)+

lemma follows_event:
  assumes "conn_event M (c, n) l (c', n')" and "follows version stream ps n"
  shows "follows version stream (ps @ (case l of None \<Rightarrow> [] | Some p \<Rightarrow> [p])) n'"
  using assms
proof (cases rule: conn_event.cases)
  case stop
  then show ?thesis
    using follows_cong [OF assms(2)] by simp
next
  case (disconnect d)
  then show ?thesis
    using follows_cong [OF assms(2)] by simp
qed (simp_all add: follows_recv follows_take follows_logic follows_send follows_keepalive)

lemma follows_trace:
  assumes "conn_trace M s ps s'" and "follows version stream [] (snd s)"
  shows "follows version stream ps (snd s')"
  using assms
proof (induction rule: conn_trace.induct)
  case (event s ps s1 l s2)
  then show ?case
    using follows_event [of M "fst s1" "snd s1" l "fst s2" "snd s2"] by simp
qed

text \<open>
  C10: the protocol logic handles what the server sent, in order and without gaps. Whatever the
  interleaving, the packets \<open>logic\<close> has taken are a subsequence of the packets the stream decodes to; as
  long as the connection is not stopped they are a prefix, and what is missing waits in \<open>netRecvC\<close> or in
  the receiver's hand. Only a stopped connection drops packets.
\<close>
theorem packets_handled_in_order:
  assumes "conn_trace M (c, new_conn version name stream wire k) ps (c', n')"
  shows "\<exists>qs. decoded version stream qs (cn_in n') \<and> subseq ps qs \<and>
    (\<not> cn_stopped n' \<longrightarrow> qs = ps @ cn_netRecvC n' @ held n')"
proof -
  have "follows version stream [] (new_conn version name stream wire k)"
    by (auto simp: follows_def new_conn_def held_def intro: decoded.none)
  then obtain qs where "decoded version stream qs (cn_in n')" "subseq (ps @ cn_netRecvC n' @ held n') qs"
      "\<not> cn_stopped n' \<longrightarrow> qs = ps @ cn_netRecvC n' @ held n'"
    using follows_trace [OF assms] by (auto simp: follows_def)
  moreover have "subseq ps (ps @ cn_netRecvC n' @ held n')"
    by (rule list_emb_prefix) simp
  ultimately show ?thesis
    using subseq_order.order_trans by blast
qed

text \<open>A run in which one \<open>PUBLISH\<close> arrives and is taken.\<close>

lemma packets_handled_in_order_witness:
  "\<exists>n'. conn_trace NonePersist (defaultClient (), new_conn V311 [0x61] [0x30, 3, 0, 1, 0x61] [] False)
       [PublishPkt (publish_packet_zero\<lparr>pub_TopicName := [0x61]\<rparr>)] (defaultClient (), n') \<and>
     (\<exists>qs. decoded V311 [0x30, 3, 0, 1, 0x61] qs (cn_in n') \<and>
        subseq [PublishPkt (publish_packet_zero\<lparr>pub_TopicName := [0x61]\<rparr>)] qs)"
proof -
  let ?p = "PublishPkt (publish_packet_zero\<lparr>pub_TopicName := [0x61]\<rparr>)"
  let ?n = "new_conn V311 [0x61] [0x30, 3, 0, 1, 0x61] [] False"
  let ?n1 = "?n\<lparr>cn_hold := Some (RecvPacket ?p), cn_in := []\<rparr>"
  let ?n2 = "?n1\<lparr>cn_hold := None, cn_netRecvC := [?p]\<rparr>"
  let ?n3 = "?n2\<lparr>cn_netRecvC := [], cn_logic := Running (logic_actions (cl_idGen (defaultClient ())) ?p)\<rparr>"
  have d: "recv_one ping_vars_init V311 [0x30, 3, 0, 1, 0x61] = (RecvPacket ?p, Some [])"
    by code_simp
  have s1: "conn_event NonePersist (defaultClient (), ?n) None (defaultClient (), ?n1)"
    using recv_step.decode [of ?n ping_vars_init "RecvPacket ?p" "Some []" "defaultClient ()"] d
    by (intro conn_event.recv [of ping_vars_init]) (simp add: new_conn_def)
  have s2: "conn_event NonePersist (defaultClient (), ?n1) None (defaultClient (), ?n2)"
    using recv_step.packet [of ?n1 ?p ping_vars_init "defaultClient ()"]
    by (intro conn_event.recv [of ping_vars_init]) (simp add: new_conn_def)
  have s3: "conn_event NonePersist (defaultClient (), ?n2) (Some ?p) (defaultClient (), ?n3)"
    using logic_step.take [of ?n2 ?p "[]" NonePersist "defaultClient ()"]
    by (intro conn_event.take) (simp_all add: new_conn_def)
  have "conn_trace NonePersist (defaultClient (), ?n) [?p] (defaultClient (), ?n3)"
    using conn_trace.event [OF conn_trace.event [OF conn_trace.event [OF conn_trace.start s1] s2] s3] by simp
  then show ?thesis
    using packets_handled_in_order by blast
qed

end
