(* ===== verification/End_To_End.thy ===== *)
theory End_To_End
  imports Ordering
begin

text \<open>
  From the channels of a connection to its peer: \<open>handleSend\<close> of \<open>src/client_conn.go\<close> composed with the
  encoder and the decoder. The specification is the sequence of packets that \<open>handleSend\<close> took; a peer that
  decodes what was written gets exactly these.
\<close>

section \<open>What a connection sends\<close>

text \<open>
  The steps of \<open>Ordering\<close>, labelled with the packet that \<open>handleSend\<close> wrote in the step, if any: the packet
  with the version it was given.
\<close>

inductive link_event ::
  "('s, packet) persist_method \<Rightarrow> 's client \<times> conn \<Rightarrow> packet option \<Rightarrow> 's client \<times> conn \<Rightarrow> bool" for M where
  send: "send_step M (c, n) sent (c', n') \<Longrightarrow> link_event M (c, n) sent (c', n')"
| recv: "recv_step g (c, n) (c', n') \<Longrightarrow> link_event M (c, n) None (c', n')"
| logic: "logic_step M (c, n) (c', n') \<Longrightarrow> link_event M (c, n) None (c', n')"
| keepalive: "keepalive_step g n n' \<Longrightarrow> link_event M (c, n) None (c, n')"
| client: "link_event M (c, n) None (c', n)"
| stop: "link_event M (c, n) None (c', n\<lparr>cn_stopped := True\<rparr>)"
| disconnect: "link_event M (c, n) None (c, n\<lparr>cn_logicSendC := cn_logicSendC n @ [DisconnPkt d]\<rparr>)"

inductive sent_trace ::
  "('s, packet) persist_method \<Rightarrow> 's client \<times> conn \<Rightarrow> packet list \<Rightarrow> 's client \<times> conn \<Rightarrow> bool" for M where
  start: "sent_trace M s [] s"
| event: "sent_trace M s ps s1 \<Longrightarrow> link_event M s1 l s2 \<Longrightarrow>
    sent_trace M s (ps @ (case l of None \<Rightarrow> [] | Some p \<Rightarrow> [p])) s2"

text \<open>Every step of the system is such a step for each of its connections.\<close>

lemma sys_step_link_event:
  assumes "sys_step M s s'" and "i < length (sy_conns s)"
  shows "\<exists>l. link_event M (sy_client s, sy_conns s ! i) l (sy_client s', sy_conns s' ! i)"
  using assms(1)
proof (cases rule: sys_step.cases)
  case (recv k c' n')
  then show ?thesis
    using assms(2) by (cases "k = i") (auto intro: link_event.recv link_event.client)
next
  case (logic k c' n')
  then show ?thesis
    using assms(2) by (cases "k = i") (auto intro: link_event.logic link_event.client)
next
  case (send k sent c' n')
  then show ?thesis
    using assms(2) by (cases "k = i") (auto intro: link_event.send link_event.client)
next
  case (keepalive k n')
  then show ?thesis
    using assms(2) by (cases "k = i") (auto intro: link_event.keepalive link_event.client)
next
  case (disconnect k d)
  then show ?thesis
    using assms(2) by (cases "k = i") (auto intro: link_event.disconnect link_event.client)
qed (use assms(2) in \<open>auto simp: nth_append intro: link_event.client link_event.stop\<close>)

section \<open>The bytes of the packets sent\<close>

lemma written_v311:
  assumes "written p = Some b" and "sendable p"
  shows "b = v311_bytes p"
proof -
  have "packet_Bytes p = Inr b"
    using assms(1) by (auto simp: written_def packet_Bytes_def split: prod.splits option.splits)
  then show ?thesis
    using packet_Bytes_v311 [of p] assms(2) by (simp add: sendable_def v311_bytes_def)
qed

lemma packet_WriteTo_same: "packet_Type p \<noteq> CtrlConn \<Longrightarrow> snd (packet_WriteTo W w p) = p"
  by (cases p) simp_all

lemma packet_WriteTo_type: "packet_Type (snd (packet_WriteTo W w p)) = packet_Type p"
  by (cases p) (auto split: prod.split option.split)

text \<open>A packet a client may send after its first one.\<close>

definition later_packet :: "packet \<Rightarrow> bool" where
  "later_packet p \<longleftrightarrow> sendable p \<and> packet_Type p \<noteq> CtrlConn"

lemma send_packet_v311:
  assumes "send_packet V311 buf p = ((buf', None), p')" and "later_packet p'"
  shows "buf' = buf @ v311_bytes p'"
proof -
  have p': "p' = snd (packet_WriteTo bytes_Buffer buf (packet_SetVersion p V311))"
    using assms(1) by (simp add: send_packet_def)
  then have "packet_Type (packet_SetVersion p V311) \<noteq> CtrlConn"
    using assms(2) packet_WriteTo_type [of bytes_Buffer buf "packet_SetVersion p V311"]
    by (simp add: later_packet_def)
  then have "p' = packet_SetVersion p V311"
    using p' by (simp add: packet_WriteTo_same)
  then show ?thesis
    using send_packet_written [OF assms(1)] written_v311 [of p'] assms(2) by (auto simp: later_packet_def)
qed

text \<open>The invariant: what was written is the \<open>CONNECT\<close> and the packets sent, as long as \<open>handleSend\<close> has not left its loop.\<close>

definition transmits :: "bytes \<Rightarrow> packet list \<Rightarrow> conn \<Rightarrow> bool" where
  "transmits connect ps n \<longleftrightarrow> cn_version n = V311 \<and>
     (\<forall>as. cn_sender n = Running as \<longrightarrow> cn_wire n @ cn_buf n = connect @ concat (map v311_bytes ps))"

lemma transmits_cong:
  assumes "transmits connect ps n" and "cn_version n' = cn_version n"
    and "cn_wire n' @ cn_buf n' = cn_wire n @ cn_buf n"
    and "\<And>as. cn_sender n' = Running as \<Longrightarrow> \<exists>as. cn_sender n = Running as"
  shows "transmits connect ps n'"
  using assms unfolding transmits_def by metis

lemma transmits_taken:
  assumes "transmits connect ps n" and "cn_sender n = Running as" and "send_taken after n p = Some (n', p')"
    and "later_packet p'"
  shows "transmits connect (ps @ [p']) n'"
proof (cases "cn_sender n'")
  case (Running as')
  then obtain buf' where s: "send_packet (cn_version n) (cn_buf n) p = ((buf', None), p')"
    and n': "n' = n\<lparr>cn_buf := buf', cn_sender := Running (after p')\<rparr>"
    using assms(3) by (auto simp: send_taken_def split: prod.splits option.splits fault.splits)
  then have "buf' = cn_buf n @ v311_bytes p'"
    using send_packet_v311 assms(1,4) by (simp add: transmits_def)
  then show ?thesis
    using assms(1,2) n' by (simp add: transmits_def)
next
  case (Ending as')
  then show ?thesis
    using assms(1,3) by (auto simp: transmits_def send_taken_def split: prod.splits option.splits fault.splits)
qed

lemma transmits_send:
  assumes "send_step M (c, n) sent (c', n')" and "transmits connect ps n" and "\<forall>p \<in> set_option sent. later_packet p"
  shows "transmits connect (ps @ (case sent of None \<Rightarrow> [] | Some p \<Rightarrow> [p])) n'"
  using assms(1)
proof (cases rule: send_step.cases)
  case (take p ps' p')
  then show ?thesis
    using transmits_taken assms(2,3) by simp
next
  case (take_logic p ps' n1 p')
  then have "transmits connect (ps @ [p']) n1"
    using transmits_taken assms(2,3) by simp
  then show ?thesis
    using take_logic by (auto elim: transmits_cong)
qed (use assms(2) in \<open>auto elim!: transmits_cong\<close>)

lemma transmits_event:
  assumes "link_event M (c, n) l (c', n')" and "transmits connect ps n" and "\<forall>p \<in> set_option l. later_packet p"
  shows "transmits connect (ps @ (case l of None \<Rightarrow> [] | Some p \<Rightarrow> [p])) n'"
  using assms(1)
proof (cases rule: link_event.cases)
  case send
  then show ?thesis
    using transmits_send assms(2,3) by blast
next
  case (recv g)
  from recv(2) show ?thesis
    using assms(2) recv(1) by (cases rule: recv_step.cases) (auto elim: transmits_cong)
next
  case logic
  from logic(2) show ?thesis
    using assms(2) logic(1) by (cases rule: logic_step.cases) (auto elim: transmits_cong)
next
  case (keepalive g)
  from keepalive(3) show ?thesis
    using assms(2) keepalive(1) by (cases rule: keepalive_step.cases) (auto elim: transmits_cong)
qed (use assms(2) in \<open>auto elim: transmits_cong\<close>)

lemma transmits_trace:
  assumes "sent_trace M s ps s'" and "transmits connect [] (snd s)" and "\<forall>p \<in> set ps. later_packet p"
  shows "transmits connect ps (snd s')"
  using assms
proof (induction rule: sent_trace.induct)
  case (event s ps s1 l s2)
  then show ?case
    using transmits_event [of M "fst s1" "snd s1" l "fst s2" "snd s2" connect ps] by (cases l) auto
qed

section \<open>The peer\<close>

lemma peer_reads:
  assumes "sent_trace M (c, new_conn V311 name stream (v311_bytes (ConnPkt cp)) k) ps (c', n')"
    and "cn_sender n' = Running as" and "sendable (ConnPkt cp)" and "\<forall>p \<in> set ps. later_packet p"
    and "base_Version (PingReqPacket_version g) = V311" and "base_Version (PingRespPacket_version g) = V311"
  shows "handleNetRecv g V311 (cn_wire n' @ cn_buf n') =
    RecvPacket (v311_view g (ConnPkt cp)) # map (v311_event g) ps @ [RecvError (GoErr ErrEOF)]"
proof -
  have "transmits (v311_bytes (ConnPkt cp)) [] (new_conn V311 name stream (v311_bytes (ConnPkt cp)) k)"
    by (simp add: transmits_def new_conn_def)
  then have "transmits (v311_bytes (ConnPkt cp)) ps n'"
    using transmits_trace [OF assms(1) _ assms(4)] by simp
  then have bytes: "cn_wire n' @ cn_buf n' = v311_bytes (ConnPkt cp) @ concat (map v311_bytes ps)"
    using assms(2) by (simp add: transmits_def)
  have "handleNetRecv g V311 (concat (map v311_bytes (ConnPkt cp # ps))) =
      map (v311_event g) (ConnPkt cp # ps) @ [RecvError (GoErr ErrEOF)]"
    by (rule handleNetRecv_v311) (use assms in \<open>auto simp: later_packet_def\<close>)
  then show ?thesis
    using bytes by (simp add: v311_event_def)
qed

text \<open>
  C7: what a 3.1.1 connection writes, its peer reads. Under every interleaving of the connection's
  goroutines and the client, as long as \<open>handleSend\<close> runs, decoding the bytes on the wire and in the
  buffer gives the \<open>CONNECT\<close> and then exactly the packets \<open>handleSend\<close> took, in the order it took them, with
  the fields they had, and nothing else.
\<close>
theorem peer_reads_what_was_sent:
  assumes "sent_trace M (c, new_conn V311 name stream (v311_bytes (ConnPkt cp)) k) ps (c', n')"
    and "cn_sender n' = Running as" and "sendable (ConnPkt cp)" and "\<forall>p \<in> set ps. later_packet p"
    and "base_Version (PingReqPacket_version g) = V311" and "base_Version (PingRespPacket_version g) = V311"
  shows "handleNetRecv g V311 (cn_wire n' @ cn_buf n') =
    RecvPacket (v311_view g (ConnPkt cp)) # map (v311_event g) ps @ [RecvError (GoErr ErrEOF)]"
  using assms by (rule peer_reads)

text \<open>A run in which \<open>handleSend\<close> takes one packet from \<open>sendCh\<close>.\<close>

lemma peer_reads_what_was_sent_witness:
  "handleNetRecv ping_vars_init V311 (v311_bytes (ConnPkt conn_packet_zero) @
       v311_bytes (PubAckPkt \<lparr>puback_ProtoVersion = V311, puback_PacketID = 7, puback_Code = 0, puback_Props = None\<rparr>)) =
     [RecvPacket (v311_view ping_vars_init (ConnPkt conn_packet_zero)),
      RecvPacket (v311_view ping_vars_init
        (PubAckPkt \<lparr>puback_ProtoVersion = V311, puback_PacketID = 7, puback_Code = 0, puback_Props = None\<rparr>)),
      RecvError (GoErr ErrEOF)]"
proof -
  let ?c = "v311_bytes (ConnPkt conn_packet_zero)"
  let ?p = "PubAckPkt \<lparr>puback_ProtoVersion = V311, puback_PacketID = 7, puback_Code = 0, puback_Props = None\<rparr>"
  let ?n = "new_conn V311 [0x61] [] ?c False"
  let ?c0 = "(defaultClient ())\<lparr>cl_sendCh := [?p]\<rparr>"
  have s: "send_packet V311 [] ?p = ((v311_bytes ?p, None), ?p)"
    by code_simp
  let ?n2 = "?n\<lparr>cn_buf := v311_bytes ?p, cn_sender := Running (after_send ?p)\<rparr>"
  have taken: "send_taken after_send ?n ?p = Some (?n2, ?p)"
    using s by (simp add: send_taken_def new_conn_def)
  have "send_step NonePersist (?c0, ?n) (Some ?p) (?c0\<lparr>cl_sendCh := []\<rparr>, ?n2)"
    by (rule send_step.take [OF _ _ taken]) (simp_all add: new_conn_def)
  then have "sent_trace NonePersist (?c0, ?n) [?p] (?c0\<lparr>cl_sendCh := []\<rparr>, ?n2)"
    using sent_trace.event [OF sent_trace.start link_event.send] by fastforce
  from peer_reads_what_was_sent [OF this, of "after_send ?p" ping_vars_init]
  have "handleNetRecv ping_vars_init V311 (cn_wire ?n2 @ cn_buf ?n2) =
      RecvPacket (v311_view ping_vars_init (ConnPkt conn_packet_zero)) #
      map (v311_event ping_vars_init) [?p] @ [RecvError (GoErr ErrEOF)]"
    by (simp add: later_packet_def sendable_def is_v311_def packet_Version_def base_Version_def maxMsgSize_def
        ping_vars_init_def conn_packet_zero_def conn_body_def be16_def encodeBytesWithLen_def putUint16_def)
  then show ?thesis
    by (simp add: new_conn_def v311_event_def)
qed

end
