(* ===== verification/Bytes_Methods.thy ===== *)
theory Bytes_Methods
  imports Packets
begin

text \<open>
  The \<open>Bytes\<close> methods of the packet types (\<open>src/pkt_*.go\<close>): each writes its packet into a new buffer, drops the
  error, and returns what the buffer holds; a nil pointer gives no bytes. \<open>packet_Bytes\<close> of \<open>Packets\<close> is the
  call through the interface \<open>Packet\<close>.
\<close>

text \<open>\<open>w.Bytes()\<close> after \<open>_ = p.WriteTo(w)\<close>.\<close>

definition buffer_bytes :: "bytes wres \<Rightarrow> bytes res" where
  "buffer_bytes r = (case snd r of
       Some Panic \<Rightarrow> Inl Panic | Some Hang \<Rightarrow> Inl Hang | _ \<Rightarrow> Inr (fst r))"

definition conn_Bytes :: "conn_packet option \<Rightarrow> bytes res" where
  "conn_Bytes p = (if p = None then Inr [] else buffer_bytes (fst (conn_WriteTo bytes_Buffer [] p)))"

definition connack_Bytes :: "connack_packet option \<Rightarrow> bytes res" where
  "connack_Bytes p = (if p = None then Inr [] else buffer_bytes (connack_WriteTo bytes_Buffer [] p))"

definition disconn_Bytes :: "disconn_packet option \<Rightarrow> bytes res" where
  "disconn_Bytes p = (if p = None then Inr [] else buffer_bytes (disconn_WriteTo bytes_Buffer [] p))"

definition publish_Bytes :: "publish_packet option \<Rightarrow> bytes res" where
  "publish_Bytes p = (if p = None then Inr [] else buffer_bytes (publish_WriteTo bytes_Buffer [] p))"

definition puback_Bytes :: "puback_packet option \<Rightarrow> bytes res" where
  "puback_Bytes p = (if p = None then Inr [] else buffer_bytes (puback_WriteTo bytes_Buffer [] p))"

definition pubrecv_Bytes :: "pubrecv_packet option \<Rightarrow> bytes res" where
  "pubrecv_Bytes p = (if p = None then Inr [] else buffer_bytes (pubrecv_WriteTo bytes_Buffer [] p))"

definition pubrel_Bytes :: "pubrel_packet option \<Rightarrow> bytes res" where
  "pubrel_Bytes p = (if p = None then Inr [] else buffer_bytes (pubrel_WriteTo bytes_Buffer [] p))"

definition pubcomp_Bytes :: "pubcomp_packet option \<Rightarrow> bytes res" where
  "pubcomp_Bytes p = (if p = None then Inr [] else buffer_bytes (pubcomp_WriteTo bytes_Buffer [] p))"

definition subscribe_Bytes :: "subscribe_packet option \<Rightarrow> bytes res" where
  "subscribe_Bytes p = (if p = None then Inr [] else buffer_bytes (subscribe_WriteTo bytes_Buffer [] p))"

definition suback_Bytes :: "suback_packet option \<Rightarrow> bytes res" where
  "suback_Bytes p = (if p = None then Inr [] else buffer_bytes (suback_WriteTo bytes_Buffer [] p))"

definition unsub_Bytes :: "unsub_packet option \<Rightarrow> bytes res" where
  "unsub_Bytes p = (if p = None then Inr [] else buffer_bytes (unsub_WriteTo bytes_Buffer [] p))"

definition unsuback_Bytes :: "unsuback_packet option \<Rightarrow> bytes res" where
  "unsuback_Bytes p = (if p = None then Inr [] else buffer_bytes (unsuback_WriteTo bytes_Buffer [] p))"

definition auth_Bytes :: "auth_packet option \<Rightarrow> bytes res" where
  "auth_Bytes p = (if p = None then Inr [] else buffer_bytes (auth_WriteTo bytes_Buffer [] p))"

definition pingreq_Bytes :: "byte option \<Rightarrow> bytes res" where
  "pingreq_Bytes p = (if p = None then Inr [] else buffer_bytes (pingreq_WriteTo bytes_Buffer [] p))"

definition pingresp_Bytes :: "byte option \<Rightarrow> bytes res" where
  "pingresp_Bytes p = (if p = None then Inr [] else buffer_bytes (pingresp_WriteTo bytes_Buffer [] p))"

lemmas Bytes_defs =
  conn_Bytes_def connack_Bytes_def disconn_Bytes_def publish_Bytes_def puback_Bytes_def
  pubrecv_Bytes_def pubrel_Bytes_def pubcomp_Bytes_def subscribe_Bytes_def suback_Bytes_def
  unsub_Bytes_def unsuback_Bytes_def auth_Bytes_def pingreq_Bytes_def pingresp_Bytes_def

lemma packet_Bytes_buffer: "packet_Bytes p = buffer_bytes (fst (packet_WriteTo bytes_Buffer [] p))"
  by (cases "packet_WriteTo bytes_Buffer [] p") (auto simp: packet_Bytes_def buffer_bytes_def split: option.split fault.split)

text \<open>The call through the interface is the method of the packet's type.\<close>

lemma packet_Bytes_method:
  "packet_Bytes (ConnPkt p0) = conn_Bytes (Some p0)"
  "packet_Bytes (ConnAckPkt p1) = connack_Bytes (Some p1)"
  "packet_Bytes (DisconnPkt p2) = disconn_Bytes (Some p2)"
  "packet_Bytes (PublishPkt p3) = publish_Bytes (Some p3)"
  "packet_Bytes (PubAckPkt p4) = puback_Bytes (Some p4)"
  "packet_Bytes (PubRecvPkt p5) = pubrecv_Bytes (Some p5)"
  "packet_Bytes (PubRelPkt p6) = pubrel_Bytes (Some p6)"
  "packet_Bytes (PubCompPkt p7) = pubcomp_Bytes (Some p7)"
  "packet_Bytes (SubscribePkt p8) = subscribe_Bytes (Some p8)"
  "packet_Bytes (SubAckPkt p9) = suback_Bytes (Some p9)"
  "packet_Bytes (UnsubPkt p10) = unsub_Bytes (Some p10)"
  "packet_Bytes (UnsubAckPkt p11) = unsuback_Bytes (Some p11)"
  "packet_Bytes (AuthPkt p12) = auth_Bytes (Some p12)"
  "packet_Bytes (PingReqPkt v) = pingreq_Bytes (Some v)"
  "packet_Bytes (PingRespPkt v) = pingresp_Bytes (Some v)"
  by (simp_all add: packet_Bytes_buffer Bytes_defs split: prod.split)

text \<open>A nil packet has no bytes, whatever its type.\<close>

lemma nil_Bytes [simp]:
  "conn_Bytes None = Inr []"
  "connack_Bytes None = Inr []"
  "disconn_Bytes None = Inr []"
  "publish_Bytes None = Inr []"
  "puback_Bytes None = Inr []"
  "pubrecv_Bytes None = Inr []"
  "pubrel_Bytes None = Inr []"
  "pubcomp_Bytes None = Inr []"
  "subscribe_Bytes None = Inr []"
  "suback_Bytes None = Inr []"
  "unsub_Bytes None = Inr []"
  "unsuback_Bytes None = Inr []"
  "auth_Bytes None = Inr []"
  "pingreq_Bytes None = Inr []"
  "pingresp_Bytes None = Inr []"
  by (simp_all add: Bytes_defs)

end
