(* ===== verification/Api.thy ===== *)
theory Api
  imports Transport Router
begin

text \<open>
  The remaining calls of the API: the deprecated handler setters of \<open>src/handler.go\<close>, \<open>Handle\<close>,
  \<open>HandleTopic\<close>, \<open>UnSubscribe\<close>, \<open>Wait\<close> and \<open>NewClient\<close> with certificate options of \<open>src/client_async.go\<close>,
  and the logger of \<open>src/log.go\<close>.
\<close>

section \<open>Handlers\<close>

text \<open>
  A handler is a function of the current API, or the closure a deprecated setter makes around a
  function without the client argument. The setters do not look whether that function is nil.
\<close>

datatype ('h, 'g) api_handler = Func 'h | Closure "'g option"

definition HandlePub :: "'g option \<Rightarrow> ('h, 'g) api_handler handlers \<Rightarrow> ('h, 'g) api_handler handlers" where
  "HandlePub h hs = hs\<lparr>pubHandler := Some (Closure h)\<rparr>"

definition HandleSub :: "'g option \<Rightarrow> ('h, 'g) api_handler handlers \<Rightarrow> ('h, 'g) api_handler handlers" where
  "HandleSub h hs = hs\<lparr>subHandler := Some (Closure h)\<rparr>"

definition HandleUnSub :: "'g option \<Rightarrow> ('h, 'g) api_handler handlers \<Rightarrow> ('h, 'g) api_handler handlers" where
  "HandleUnSub h hs = hs\<lparr>unsubHandler := Some (Closure h)\<rparr>"

definition HandleNet :: "'g option \<Rightarrow> ('h, 'g) api_handler handlers \<Rightarrow> ('h, 'g) api_handler handlers" where
  "HandleNet h hs = hs\<lparr>netHandler := Some (Closure h)\<rparr>"

definition HandlePersist :: "'g option \<Rightarrow> ('h, 'g) api_handler handlers \<Rightarrow> ('h, 'g) api_handler handlers" where
  "HandlePersist h hs = hs\<lparr>persistHandler := Some (Closure h)\<rparr>"

text \<open>
  A goroutine that \<open>handleMsg\<close> started: the function it ends up calling with the message. Calling a nil
  function is a panic, which nobody recovers.
\<close>

definition call_api_handler :: "('h, 'g) api_handler \<times> message \<Rightarrow> (('h + 'g) \<times> message) res" where
  "call_api_handler c = (case c of
       (Func h, m) \<Rightarrow> Inr (Inl h, m)
     | (Closure (Some g), m) \<Rightarrow> Inr (Inr g, m)
     | (Closure None, m) \<Rightarrow> Inl Panic)"

text \<open>A setter replaces what an option set; an option never replaces what is there.\<close>

lemma handler_of_setters [simp]:
  "handler_of (HandlePub h hs) (PubMsg t e) = Some (Closure h)"
  "handler_of (HandleSub h hs) (SubMsg ts e) = Some (Closure h)"
  "handler_of (HandleUnSub h hs) (UnSubMsg ns e) = Some (Closure h)"
  "handler_of (HandleNet h hs) (NetMsg t e) = Some (Closure h)"
  "handler_of (HandlePersist h hs) (PersistMsg p e) = Some (Closure h)"
  by (simp_all add: handler_of_def HandlePub_def HandleSub_def HandleUnSub_def HandleNet_def HandlePersist_def)

lemma nil_handler_panics:
  assumes "handler_of hs m = Some (Closure None)" and "\<not> closing"
  shows "map call_api_handler (handleMsg closing hs m) = [Inl Panic]"
  using assms by (simp add: handleMsg_def call_api_handler_def)

section \<open>Topic handlers\<close>

text \<open>\<open>HandleTopic\<close> and the deprecated \<open>Handle\<close>, which ignore a nil handler; \<open>route\<close> is the router's operation.\<close>

definition HandleTopic :: "('r \<Rightarrow> gostring \<Rightarrow> 'k \<Rightarrow> 'r) \<Rightarrow> 'r \<Rightarrow> gostring \<Rightarrow> 'k option \<Rightarrow> 'r" where
  "HandleTopic route r topic h = (case h of None \<Rightarrow> r | Some h \<Rightarrow> route r topic h)"

definition Handle ::
  "('r \<Rightarrow> gostring \<Rightarrow> ('h, 'g) api_handler \<Rightarrow> 'r) \<Rightarrow> 'r \<Rightarrow> gostring \<Rightarrow> 'g option \<Rightarrow> 'r" where
  "Handle route r topic h =
     (if h \<noteq> None then route r topic (Closure h) else r)"

text \<open>
  The topic handlers of a client with a text router, after any sequence of the two calls: the last one
  with a handler for the topic counts, and a dispatched message never calls a nil function.
\<close>

datatype ('h, 'g) handle_call = CallHandle gostring "'g option" | CallHandleTopic gostring "'h option"

fun run_handle_call :: "('h, 'g) api_handler text_router \<Rightarrow> ('h, 'g) handle_call \<Rightarrow> ('h, 'g) api_handler text_router" where
  "run_handle_call r (CallHandle topic h) = Handle text_Handle r topic h"
| "run_handle_call r (CallHandleTopic topic h) = HandleTopic text_Handle r topic (map_option Func h)"

fun registers :: "('h, 'g) handle_call \<Rightarrow> (gostring \<times> ('h, 'g) api_handler) option" where
  "registers (CallHandle topic (Some g)) = Some (topic, Closure (Some g))"
| "registers (CallHandleTopic topic (Some h)) = Some (topic, Func h)"
| "registers _ = None"

lemma run_handle_call_registers:
  "run_handle_call r call = (case registers call of None \<Rightarrow> r | Some (topic, h) \<Rightarrow> text_Handle r topic h)"
  by (cases call rule: registers.cases) (auto simp: Handle_def HandleTopic_def)

lemma handle_calls_registers:
  "foldl run_handle_call r calls = foldl (\<lambda>r (topic, h). text_Handle r topic h) r (List.map_filter registers calls)"
  by (induction calls arbitrary: r) (auto simp: run_handle_call_registers List.map_filter_simps split: option.split)

section \<open>Clients with certificates\<close>

text \<open>
  \<open>NewClient\<close> for option lists that may hold \<open>WithTLS\<close>, which reads files while the options are applied.
\<close>

datatype ('s, 'h, 'r, 'l, 't, 'n) api_option =
    Plain_Option "('s, 'h, 'r, 'l, 't, 'n) client_option"
  | TLS_Option gostring gostring gostring gostring bool

datatype api_error = Option_Error opt_error | TLS_Error tls_error

text \<open>\<open>Error()\<close> of these errors.\<close>

definition api_error_text :: "api_error \<Rightarrow> gostring" where
  "api_error_text e = (case e of
       TLS_Error (TlsError s) \<Rightarrow> ascii s
     | Option_Error ErrKeepaliveZero \<Rightarrow> ascii ''keepalive provided must be greater than 0''
     | Option_Error ErrNotSupportedVersion \<Rightarrow> ascii ''mqtt version not supported '')"

definition apply_api_option ::
  "('pool, 'cert, 't) tls_lib \<Rightarrow> ('s, 'h, 'r, 'l, 't, 'n) api_option \<Rightarrow>
   ('s, 'h, 'r, 'l, 't, 'n) opt_state \<Rightarrow> api_error option \<times> ('s, 'h, 'r, 'l, 't, 'n) opt_state" where
  "apply_api_option L opt st = (case opt of
       Plain_Option opt \<Rightarrow>
         (case apply_option opt st of Inl e \<Rightarrow> (Some (Option_Error e), st) | Inr st \<Rightarrow> (None, st))
     | TLS_Option certFile keyFile caCert name skip \<Rightarrow>
         map_prod (map_option TLS_Error) id (WithTLS L certFile keyFile caCert name skip st))"

fun apply_api_options ::
  "('pool, 'cert, 't) tls_lib \<Rightarrow> ('s, 'h, 'r, 'l, 't, 'n) api_option list \<Rightarrow>
   ('s, 'h, 'r, 'l, 't, 'n) opt_state \<Rightarrow> api_error option \<times> ('s, 'h, 'r, 'l, 't, 'n) opt_state" where
  "apply_api_options L [] st = (None, st)"
| "apply_api_options L (opt # opts) st =
     (case apply_api_option L opt st of
        (Some e, st) \<Rightarrow> (Some e, st) | (None, st) \<Rightarrow> apply_api_options L opts st)"

definition default_state :: "'s \<Rightarrow> 'r \<Rightarrow> 'n \<Rightarrow> ('s, 'h, 'r, 'l, 't, 'n) opt_state" where
  "default_state none_persist text_router tcp =
     \<lparr>os_client = client.extend (defaultClient none_persist)
        (async_client.fields [] [] text_router \<lparr>pubHandler = None, subHandler = None,
           unsubHandler = None, netHandler = None, persistHandler = None\<rparr> None),
      os_options = defaultConnectOptions 0 tcp, os_packets = [conn_packet_zero]\<rparr>"

definition api_NewClient ::
  "('pool, 'cert, 't) tls_lib \<Rightarrow> 's \<Rightarrow> 'r \<Rightarrow> 'n \<Rightarrow> ('s, 'h, 'r, 'l, 't, 'n) api_option list \<Rightarrow>
   api_error + ('s, 'h, 'r, 'l, 't, 'n) opt_state" where
  "api_NewClient L none_persist text_router tcp options =
     (case apply_api_options L options (default_state none_persist text_router tcp) of
        (Some e, st) \<Rightarrow> Inl e | (None, st) \<Rightarrow> Inr st)"

lemma apply_api_options_plain:
  "apply_api_options L (map Plain_Option opts) st = map_prod (map_option Option_Error) id (apply_options opts st)"
  by (induction opts arbitrary: st) (simp_all add: apply_api_option_def split: sum.split)

text \<open>Without certificate options this is \<open>NewClient\<close> of \<open>Options\<close>.\<close>

lemma api_NewClient_plain:
  "api_NewClient L none_persist text_router tcp (map Plain_Option opts) =
   map_sum Option_Error id (NewClient none_persist text_router tcp opts)"
  by (simp add: api_NewClient_def NewClient_def default_state_def apply_api_options_plain
      split: prod.split option.split)

lemma apply_api_options_append:
  "apply_api_options L (opts @ opts') st =
   (case apply_api_options L opts st of
      (Some e, st) \<Rightarrow> (Some e, st) | (None, st) \<Rightarrow> apply_api_options L opts' st)"
  by (induction opts arbitrary: st) (auto split: prod.split option.split)

text \<open>An option keeps a property of the state if its change does; then every list of options does.\<close>

lemma apply_api_options_inv:
  assumes "\<And>opt st. opt \<in> set opts \<Longrightarrow> P st \<Longrightarrow> P (snd (apply_api_option L opt st))" and "P st"
  shows "P (snd (apply_api_options L opts st))"
  using assms
proof (induction opts arbitrary: st)
  case (Cons opt opts)
  obtain e st' where r: "apply_api_option L opt st = (e, st')"
    by (cases "apply_api_option L opt st")
  then have "P st'"
    using Cons.prems(1) [of opt st] Cons.prems(2) by simp
  then show ?case
    using Cons.IH [of st'] Cons.prems(1) r by (cases e) auto
qed simp

lemma WithTLS_keeps:
  assumes "WithTLS L certFile keyFile caCert name skip st = (e, st')"
  shows "os_client st' = os_client st \<and> os_packets st' = os_packets st \<and>
    (\<exists>tls. os_options st' = (os_options st)\<lparr>co_tlsConfig := tls\<rparr>)"
  using assms by (auto simp: WithTLS_def set_options_def split: sum.splits option.splits
      intro: exI [of _ "co_tlsConfig (os_options st)"])

section \<open>UnSubscribe and Wait\<close>

definition UnSubscribe :: "'s client \<Rightarrow> gostring list \<Rightarrow> action list" where
  "UnSubscribe c topics = Unsubscribe c topics"

text \<open>
  \<open>Wait\<close> returns at once for a client that is closing. Otherwise it waits until the number of workers is
  0; \<open>None\<close> is that it goes on waiting.
\<close>

definition Client_Wait :: "bool \<Rightarrow> nat \<Rightarrow> unit option" where
  "Client_Wait closing workers = (if closing then Some () else if workers = 0 then Some () else None)"

section \<open>The logger\<close>

datatype log_level = Verbose | Debug | Info | Warning | Error

definition level_number :: "log_level \<Rightarrow> byte" where
  "level_number l = (case l of Verbose \<Rightarrow> 1 | Debug \<Rightarrow> 2 | Info \<Rightarrow> 3 | Warning \<Rightarrow> 4 | Error \<Rightarrow> 5)"

text \<open>
  A logger holds loggers of the standard library, where it has them: each is its prefix, as all of them
  print the date and the time to the standard error.
\<close>

record logger =
  lg_verbose :: "string option"
  lg_debug :: "string option"
  lg_info :: "string option"
  lg_warning :: "string option"
  lg_error :: "string option"

abbreviation (input) Silent :: byte where "Silent \<equiv> 0"

definition newLogger :: "byte \<Rightarrow> logger option" where
  "newLogger l =
     (let lo = \<lparr>lg_verbose = None, lg_debug = None, lg_info = None, lg_warning = None, lg_error = None\<rparr>;
          lo = (if l \<le> level_number Error then lo\<lparr>lg_error := Some ''[LIBMQTT] E ''\<rparr> else lo);
          lo = (if l \<le> level_number Warning then lo\<lparr>lg_warning := Some ''[LIBMQTT] W ''\<rparr> else lo);
          lo = (if l \<le> level_number Info then lo\<lparr>lg_info := Some ''[LIBMQTT] I ''\<rparr> else lo);
          lo = (if l \<le> level_number Debug then lo\<lparr>lg_debug := Some ''[LIBMQTT] D ''\<rparr> else lo);
          lo = (if l \<le> level_number Verbose then lo\<lparr>lg_verbose := Some ''[LIBMQTT] V ''\<rparr> else lo)
      in if l \<le> Silent then None else Some lo)"

text \<open>The five output methods: what reaches the output.\<close>

definition log_v :: "logger option \<Rightarrow> string \<Rightarrow> string list" where
  "log_v l data = (case l of None \<Rightarrow> [] | Some l \<Rightarrow> case lg_verbose l of None \<Rightarrow> [] | Some p \<Rightarrow> [p @ data])"

definition log_d :: "logger option \<Rightarrow> string \<Rightarrow> string list" where
  "log_d l data = (case l of None \<Rightarrow> [] | Some l \<Rightarrow> case lg_debug l of None \<Rightarrow> [] | Some p \<Rightarrow> [p @ data])"

definition log_i :: "logger option \<Rightarrow> string \<Rightarrow> string list" where
  "log_i l data = (case l of None \<Rightarrow> [] | Some l \<Rightarrow> case lg_info l of None \<Rightarrow> [] | Some p \<Rightarrow> [p @ data])"

definition log_w :: "logger option \<Rightarrow> string \<Rightarrow> string list" where
  "log_w l data = (case l of None \<Rightarrow> [] | Some l \<Rightarrow> case lg_warning l of None \<Rightarrow> [] | Some p \<Rightarrow> [p @ data])"

definition log_e :: "logger option \<Rightarrow> string \<Rightarrow> string list" where
  "log_e l data = (case l of None \<Rightarrow> [] | Some l \<Rightarrow> case lg_error l of None \<Rightarrow> [] | Some p \<Rightarrow> [p @ data])"

definition log_at :: "log_level \<Rightarrow> logger option \<Rightarrow> string \<Rightarrow> string list" where
  "log_at s = (case s of Verbose \<Rightarrow> log_v | Debug \<Rightarrow> log_d | Info \<Rightarrow> log_i | Warning \<Rightarrow> log_w | Error \<Rightarrow> log_e)"

text \<open>How a topic shows in the log.\<close>

definition topic_String :: "topic \<Rightarrow> gostring" where
  "topic_String t = topic_Name t"

text \<open>A message is written exactly if the client's level is not silent and not above the message's.\<close>

lemma log_threshold: "log_at s (newLogger l) data \<noteq> [] \<longleftrightarrow> Silent < l \<and> l \<le> level_number s"
proof -
  have mono: "l \<le> a \<Longrightarrow> a \<le> b \<Longrightarrow> l \<le> b" for a b :: byte
    by (rule order_trans)
  show ?thesis
    by (cases s; cases "l \<le> 1"; cases "l \<le> 2"; cases "l \<le> 3"; cases "l \<le> 4"; cases "l \<le> 5")
      (auto simp: log_at_def newLogger_def log_v_def log_d_def log_i_def log_w_def log_e_def
        level_number_def Let_def word_gt_0)
qed

text \<open>The levels a client can ask for are ordered as the source declares them: \<open>Verbose\<close> first, \<open>Error\<close> last.\<close>

instantiation log_level :: linorder
begin

definition less_eq_log_level :: "log_level \<Rightarrow> log_level \<Rightarrow> bool" where
  "less_eq_log_level k l \<longleftrightarrow> level_number k \<le> level_number l"

definition less_log_level :: "log_level \<Rightarrow> log_level \<Rightarrow> bool" where
  "less_log_level k l \<longleftrightarrow> level_number k < level_number l"

lemma level_number_inject: "level_number k = level_number l \<longleftrightarrow> k = l"
  by (cases k; cases l) (simp_all add: level_number_def)

instance
  by standard (auto simp: less_eq_log_level_def less_log_level_def level_number_inject less_le)

end

lemma log_at_level: "log_at s (newLogger (level_number l)) data \<noteq> [] \<longleftrightarrow> l \<le> s"
  by (cases l) (simp_all add: log_threshold less_eq_log_level_def, simp_all add: level_number_def)

end
