(* ===== verification/Command.thy ===== *)
theory Command
  imports Api
begin

text \<open>
  The command-line program of \<open>src/cmd/libmqtt\<close>: it splits a line at spaces, takes the first word as the
  command and the rest as its arguments, and calls the API on the one client it has.

  The program's state is the package variable \<open>client\<close>. A command returns what became visible (the text it
  printed, the calls it made on the client) and how it ended. The client is that of \<open>Options\<close>, with
  \<open>NonePersist\<close>, a text router and the functions of \<open>util.go\<close> as handlers. An \<open>int\<close> has 64 bits.
\<close>

section \<open>The standard library\<close>

text \<open>\<open>strings.Split\<close> with a separator of one byte, and its inverse.\<close>

fun Split :: "gostring \<Rightarrow> byte \<Rightarrow> gostring list" where
  "Split [] sep = [[]]"
| "Split (b # s) sep =
     (if b = sep then [] # Split s sep
      else (case Split s sep of [] \<Rightarrow> [[b]] | w # ws \<Rightarrow> (b # w) # ws))"

fun join :: "byte \<Rightarrow> gostring list \<Rightarrow> gostring" where
  "join sep [] = []"
| "join sep [w] = w"
| "join sep (w # ws) = w @ sep # join sep ws"

lemma Split_neq_Nil [simp]: "Split s sep \<noteq> []"
  by (cases s) (auto split: list.split)

lemma Split_word [simp]: "sep \<notin> set w \<Longrightarrow> Split w sep = [w]"
  by (induction w) auto

lemma Split_append [simp]: "sep \<notin> set w \<Longrightarrow> Split (w @ sep # s) sep = w # Split s sep"
  by (induction w) auto

lemma Split_join: "ws \<noteq> [] \<Longrightarrow> \<forall>w \<in> set ws. sep \<notin> set w \<Longrightarrow> Split (join sep ws) sep = ws"
  by (induction sep ws rule: join.induct) auto

lemma join_Split: "join sep (Split s sep) = s"
proof (induction s)
  case (Cons b s)
  then show ?case
    by (cases "Split s sep" rule: list.exhaust [case_product list.exhaust]; cases "tl (Split s sep)") auto
qed simp

lemma set_join: "set (join sep ws) \<subseteq> insert sep (\<Union>w \<in> set ws. set w)"
  by (induction sep ws rule: join.induct) auto

text \<open>\<open>strconv.Atoi\<close>: an optional sign and decimal digits, within 64 bits; \<open>None\<close> is an error.\<close>

definition is_digit :: "byte \<Rightarrow> bool" where
  "is_digit c \<longleftrightarrow> 0x30 \<le> c \<and> c \<le> 0x39"

definition Atoi :: "gostring \<Rightarrow> int option" where
  "Atoi s =
     (let (negative, digits) =
        (case s of [] \<Rightarrow> (False, [])
         | c # cs \<Rightarrow> if c = 0x2D then (True, cs) else if c = 0x2B then (False, cs) else (False, s));
          n = (if negative then - int (digits_value digits) else int (digits_value digits))
      in if digits = [] \<or> \<not> list_all is_digit digits then None
         else if - (2 ^ 63) \<le> n \<and> n < 2 ^ 63 then Some n else None)"

lemma is_digit_of_nat: "d < 10 \<Longrightarrow> is_digit (of_nat (48 + d))"
  by (simp add: is_digit_def word_le_nat_alt unat_digit del: of_nat_add)

lemma decimal_digits: "list_all is_digit (decimal n) \<and> decimal n \<noteq> []"
proof (induction n rule: decimal.induct)
  case (1 n)
  then show ?case
    using is_digit_of_nat [of n] is_digit_of_nat [of "n mod 10"]
    by (subst (1 2) decimal.simps) (auto simp del: of_nat_add)
qed

lemma not_in_decimal: "\<not> is_digit c \<Longrightarrow> c \<notin> set (decimal n)"
  using decimal_digits [of n] by (auto simp: list_all_iff)

lemma Atoi_decimal: "int n < 2 ^ 63 \<Longrightarrow> Atoi (decimal n) = Some (int n)"
proof (cases "decimal n")
  case (Cons c cs)
  assume n: "int n < 2 ^ 63"
  have "list_all is_digit (c # cs)"
    using decimal_digits [of n] Cons by simp
  moreover from this have "c \<noteq> 0x2D" "c \<noteq> 0x2B"
    by (auto simp: is_digit_def)
  moreover have "digits_value (c # cs) = n"
    using digits_value_decimal [of n] Cons by simp
  ultimately show ?thesis
    using n Cons by (simp add: Atoi_def)
qed (use decimal_digits [of n] in simp)

text \<open>\<open>strings.ToLower\<close>: byte by byte when the text is ASCII; \<open>unicode_lower\<close> stands for its Unicode tables.\<close>

definition lower_byte :: "byte \<Rightarrow> byte" where
  "lower_byte c = (if 0x41 \<le> c \<and> c \<le> 0x5A then c + 0x20 else c)"

definition ToLower :: "(gostring \<Rightarrow> gostring) \<Rightarrow> gostring \<Rightarrow> gostring" where
  "ToLower unicode_lower s = (if list_all (\<lambda>c. c < 0x80) s then map lower_byte s else unicode_lower s)"

section \<open>What a command does\<close>

datatype cmd_handler = CmdPub | CmdConn | CmdUnSub | CmdNet | CmdSub | CmdTopic

type_synonym ('t, 'n) cmd_client =
  "(unit, cmd_handler, cmd_handler text_router, logger option, 't, 'n) opt_state"

type_synonym ('t, 'n) cmd_option =
  "(unit, cmd_handler, cmd_handler text_router, logger option, 't, 'n) api_option"

datatype cmd_event =
    Say gostring                \<comment> \<open>text on the standard error\<close>
  | Acts "action list"          \<comment> \<open>what a call on the client starts\<close>
  | Destroys bool               \<comment> \<open>\<open>client.Destroy\<close>\<close>

text \<open>A command ends with its result and the client, with the end of the process, or with a panic.\<close>

datatype ('t, 'n) cmd_end = Done bool "('t, 'n) cmd_client option" | Exited | Panicked

type_synonym ('t, 'n) cmd_result = "cmd_event list \<times> ('t, 'n) cmd_end"

abbreviation (input) newline :: byte where "newline \<equiv> 0x0A"

definition go_println :: "gostring list \<Rightarrow> cmd_event" where
  "go_println args = Say (join 0x20 args @ [newline])"

abbreviation lineStart :: gostring where
  "lineStart \<equiv> ascii ''> ''"

definition invalidQos :: "cmd_event list" where
  "invalidQos = [go_println [newline # ascii ''qos level should either be 0, 1 or 2''], Say lineStart]"

section \<open>Usage\<close>

definition connUsage :: "cmd_event list" where
  "connUsage = [go_println [join newline (map ascii
     [''c, conn [server:port] [OPTIONS] - connect to server'',
      ''    [OPTIONS] is a key=value config list separated by comma, valid keys:'',
      ''      clean={y|n},ssl={y|n},ssl_cert={cert_path},'',
      ''      ssl_key={key_path},ssl_ca={ca},'',
      ''      ssl_server={server_name},ssl_skip_verify={y|n},'',
      ''      will={y|n},will_topic={topic_name},will_qos={qos},'',
      ''      will_msg={msg},will_retain={y|n}''])]]"

definition pubUsage :: "cmd_event list" where
  "pubUsage = [go_println [ascii ''p, pub [topic,qos,message] [...] - publish topic message(s)'']]"

definition subUsage :: "cmd_event list" where
  "subUsage = [go_println [ascii ''s, sub [topic,qos] [...] - subscribe topic(s)'']]"

definition unSubUsage :: "cmd_event list" where
  "unSubUsage = [go_println [ascii ''u, unsub [topic] [...] - unsubscribe topic(s)'']]"

definition usage :: "cmd_event list" where
  "usage = [Say (ascii ''Usage'' @ [newline, newline]), Say (ascii ''  '')] @ connUsage @
     [Say (ascii ''  '')] @ pubUsage @ [Say (ascii ''  '')] @ subUsage @ [Say (ascii ''  '')] @ unSubUsage @
     [go_println [ascii ''  q, exit [force] - disconnect and exit''],
      go_println [ascii ''  h, help - print this help message'']]"

section \<open>conn\<close>

text \<open>The local variables of \<open>execConn\<close> while it reads the options.\<close>

record ('t, 'n) conn_args =
  ca_options :: "('t, 'n) cmd_option list"
  ca_willQos :: byte
  ca_sslSkipVerify :: bool
  ca_ssl :: bool
  ca_will :: bool
  ca_willRetain :: bool
  ca_sslCert :: gostring
  ca_sslKey :: gostring
  ca_sslCA :: gostring
  ca_sslServer :: gostring
  ca_willTopic :: gostring
  ca_willMsg :: gostring

definition no_conn_args :: "('t, 'n) conn_args" where
  "no_conn_args = \<lparr>ca_options = [], ca_willQos = 0, ca_sslSkipVerify = False, ca_ssl = False, ca_will = False,
     ca_willRetain = False, ca_sslCert = [], ca_sslKey = [], ca_sslCA = [], ca_sslServer = [],
     ca_willTopic = [], ca_willMsg = []\<rparr>"

text \<open>One turn of the loop over the options; \<open>Inl\<close> is its early return, with what it printed.\<close>

definition conn_option :: "gostring \<Rightarrow> ('t, 'n) conn_args \<Rightarrow> cmd_event list + ('t, 'n) conn_args" where
  "conn_option v a =
     (let kv = Split v 0x3D; k = kv ! 0; y = (kv ! 1 = ascii ''y'') in
      if length kv \<noteq> 2 then Inl [go_println [v, ascii ''option should be key=value'']]
      else if k = ascii ''clean'' then
        Inr (a\<lparr>ca_options := ca_options a @ [Plain_Option (WithCleanSession (kv ! 0 = ascii ''y''))]\<rparr>)
      else if k = ascii ''ssl'' then Inr (a\<lparr>ca_ssl := y\<rparr>)
      else if k = ascii ''ssl_cert'' then Inr (a\<lparr>ca_sslCert := kv ! 1\<rparr>)
      else if k = ascii ''ssl_key'' then Inr (a\<lparr>ca_sslKey := kv ! 1\<rparr>)
      else if k = ascii ''ssl_ca'' then Inr (a\<lparr>ca_sslCA := kv ! 1\<rparr>)
      else if k = ascii ''ssl_server'' then Inr (a\<lparr>ca_sslServer := kv ! 1\<rparr>)
      else if k = ascii ''ssl_skip_verify'' then Inr (a\<lparr>ca_sslSkipVerify := y\<rparr>)
      else if k = ascii ''will'' then Inr (a\<lparr>ca_will := y\<rparr>)
      else if k = ascii ''will_topic'' then Inr (a\<lparr>ca_willTopic := kv ! 1\<rparr>)
      else if k = ascii ''will_qos'' then
        (case Atoi (kv ! 1) of
           None \<Rightarrow> Inl invalidQos
         | Some qos \<Rightarrow> if qos > 2 then Inl invalidQos else Inr (a\<lparr>ca_willQos := word_of_int qos\<rparr>))
      else if k = ascii ''will_msg'' then Inr (a\<lparr>ca_willMsg := kv ! 1\<rparr>)
      else if k = ascii ''will_retain'' then Inr (a\<lparr>ca_willRetain := y\<rparr>)
      else Inr a)"

fun conn_options_loop :: "gostring list \<Rightarrow> ('t, 'n) conn_args \<Rightarrow> cmd_event list + ('t, 'n) conn_args" where
  "conn_options_loop [] a = Inr a"
| "conn_options_loop (v # opts) a =
     (case conn_option v a of Inl out \<Rightarrow> Inl out | Inr a \<Rightarrow> conn_options_loop opts a)"

text \<open>The program's handlers, set before the options.\<close>

definition handler_options :: "('t, 'n) cmd_option list" where
  "handler_options = map Plain_Option
     [WithPubHandleFunc (Some CmdPub), WithConnHandleFunc (Some CmdConn), WithUnsubHandleFunc (Some CmdUnSub),
      WithNetHandleFunc (Some CmdNet), WithSubHandleFunc (Some CmdSub)]"

definition newClient ::
  "('pool, 'cert, 't) tls_lib \<Rightarrow> 'n \<Rightarrow> ('t, 'n) cmd_client option \<Rightarrow> ('t, 'n) cmd_option list \<Rightarrow>
   cmd_event list \<times> ('t, 'n) cmd_client option" where
  "newClient L tcp client options =
     (let out = (if client \<noteq> None then [Destroys True] else []) in
      case api_NewClient L () NewTextRouter tcp (handler_options @ options) of
        Inl err \<Rightarrow> (out @ [go_println [api_error_text err]], None)
      | Inr c \<Rightarrow> (out, Some c))"

definition conn_all_options :: "('t, 'n) conn_args \<Rightarrow> ('t, 'n) cmd_option list" where
  "conn_all_options a = ca_options a @
     (if ca_ssl a
      then [TLS_Option (ca_sslCert a) (ca_sslKey a) (ca_sslCA a) (ca_sslServer a) (ca_sslSkipVerify a)] else []) @
     (if ca_will a
      then [Plain_Option (WithWill (ca_willTopic a) (ca_willQos a) (ca_willRetain a) (ca_willMsg a))] else [])"

definition execConn ::
  "('pool, 'cert, 't) tls_lib \<Rightarrow> 'n \<Rightarrow> ('t, 'n) cmd_client option \<Rightarrow> gostring list \<Rightarrow> ('t, 'n) cmd_result" where
  "execConn L tcp client args =
     (if length args < 1 then ([], Done False client)
      else if length (Split (args ! 0) 0x3A) \<noteq> 2 then ([], Done False client)
      else
        case (if length args = 2 then conn_options_loop (Split (args ! 1) 0x2C) no_conn_args else Inr no_conn_args) of
          Inl out \<Rightarrow> (out, Done True client)
        | Inr a \<Rightarrow>
            (case newClient L tcp client (conn_all_options a @ [Plain_Option (WithServer [args ! 0])]) of
               (out, client) \<Rightarrow> (out, Done True client)))"

text \<open>
  \<open>execDisConn\<close> leaves the process. It looks at \<open>args[1]\<close> where the first argument is \<open>args[0]\<close>, because
  \<open>execCmd\<close> has removed the command.
\<close>

definition execDisConn :: "('t, 'n) cmd_client option \<Rightarrow> gostring list \<Rightarrow> ('t, 'n) cmd_result" where
  "execDisConn client args = (case client of
       None \<Rightarrow> ([], Exited)
     | Some c \<Rightarrow>
         if length args > 0 then
           (if length args > 1 then ([Destroys (\<not> args ! 1 \<noteq> ascii ''force'')], Exited) else ([], Panicked))
         else ([Destroys True], Exited))"

section \<open>pub, sub, unsub\<close>

definition connect_first :: "cmd_event list" where
  "connect_first = [go_println [ascii ''please connect to server first'']]"

text \<open>The loop of \<open>execPub\<close> over its arguments: \<open>Inl\<close> is the early return, with what was printed and the result.\<close>

fun pub_args :: "gostring list \<Rightarrow> (cmd_event list \<times> bool) + publish_packet option list" where
  "pub_args [] = Inr []"
| "pub_args (v # args) =
     (let pubStr = Split v 0x2C in
      if length pubStr \<noteq> 3 then Inl (pubUsage, True)
      else case Atoi (pubStr ! 1) of
        None \<Rightarrow> Inl (pubUsage, False)
      | Some qos \<Rightarrow>
          (case pub_args args of
             Inl e \<Rightarrow> Inl e
           | Inr pubs \<Rightarrow> Inr (Some (publish_packet_zero\<lparr>pub_TopicName := pubStr ! 0,
               pub_Qos := word_of_int qos, pub_Payload := pubStr ! 2\<rparr>) # pubs)))"

definition execPub :: "('t, 'n) cmd_client option \<Rightarrow> gostring list \<Rightarrow> ('t, 'n) cmd_result" where
  "execPub client args = (case client of
       None \<Rightarrow> (connect_first, Done True client)
     | Some c \<Rightarrow>
         (case pub_args args of
            Inl (out, ok) \<Rightarrow> (out, Done ok client)
          | Inr pubs \<Rightarrow> ([Acts (Publish (client.truncate (os_client c)) pubs)], Done True client)))"

fun sub_args :: "gostring list \<Rightarrow> cmd_event list + topic list" where
  "sub_args [] = Inr []"
| "sub_args (v # args) =
     (let topicStr = Split v 0x2C in
      if length topicStr \<noteq> 2 then Inl subUsage
      else case Atoi (topicStr ! 1) of
        None \<Rightarrow> Inl subUsage
      | Some qos \<Rightarrow>
          (case sub_args args of
             Inl e \<Rightarrow> Inl e
           | Inr topics \<Rightarrow> Inr (\<lparr>topic_Name = topicStr ! 0, topic_Qos = word_of_int qos\<rparr> # topics)))"

text \<open>\<open>client.HandleTopic\<close>, which changes the client's router.\<close>

definition client_HandleTopic :: "gostring \<Rightarrow> cmd_handler option \<Rightarrow> ('t, 'n) cmd_client \<Rightarrow> ('t, 'n) cmd_client" where
  "client_HandleTopic topic h = set_client (\<lambda>c. c\<lparr>ac_router := HandleTopic text_Handle (ac_router c) topic h\<rparr>)"

definition handle_topics :: "topic list \<Rightarrow> ('t, 'n) cmd_client \<Rightarrow> ('t, 'n) cmd_client" where
  "handle_topics topics c = foldl (\<lambda>c t. client_HandleTopic (topic_Name t) (Some CmdTopic) c) c topics"

definition execSub :: "('t, 'n) cmd_client option \<Rightarrow> gostring list \<Rightarrow> ('t, 'n) cmd_result" where
  "execSub client args = (case client of
       None \<Rightarrow> (connect_first, Done True client)
     | Some c \<Rightarrow>
         (case sub_args args of
            Inl out \<Rightarrow> (out, Done True client)
          | Inr topics \<Rightarrow>
              let c = handle_topics topics c
              in ([Acts (Subscribe (client.truncate (os_client c)) topics)], Done True (Some c))))"

definition execUnSub :: "('t, 'n) cmd_client option \<Rightarrow> gostring list \<Rightarrow> ('t, 'n) cmd_result" where
  "execUnSub client args = (case client of
       None \<Rightarrow> (connect_first, Done True client)
     | Some c \<Rightarrow> ([Acts (UnSubscribe (client.truncate (os_client c)) args)], Done True client))"

section \<open>The command loop\<close>

definition execCmd ::
  "(gostring \<Rightarrow> gostring) \<Rightarrow> ('pool, 'cert, 't) tls_lib \<Rightarrow> 'n \<Rightarrow> ('t, 'n) cmd_client option \<Rightarrow> gostring list \<Rightarrow>
   ('t, 'n) cmd_result" where
  "execCmd unicode_lower L tcp client args =
     (let cmd = ToLower unicode_lower (hd args); args = tl args;
          (out, e) =
            (if cmd = ascii ''c'' \<or> cmd = ascii ''conn'' then execConn L tcp client args
             else if cmd = ascii ''p'' \<or> cmd = ascii ''pub'' then execPub client args
             else if cmd = ascii ''s'' \<or> cmd = ascii ''sub'' then execSub client args
             else if cmd = ascii ''u'' \<or> cmd = ascii ''unsub'' then execUnSub client args
             else if cmd = ascii ''q'' \<or> cmd = ascii ''exit'' then execDisConn client args
             else if cmd = ascii ''?'' \<or> cmd = ascii ''h'' \<or> cmd = ascii ''help'' then (usage, Done True client)
             else ([], Done False client))
      in case e of
           Done ok client \<Rightarrow> (if ok then out else out @ usage, Done ok client)
         | e \<Rightarrow> (out, e))"

text \<open>\<open>main\<close> on the lines that the scanner delivers, without signals; at the end of the input it returns.\<close>

fun scan_loop ::
  "(gostring \<Rightarrow> gostring) \<Rightarrow> ('pool, 'cert, 't) tls_lib \<Rightarrow> 'n \<Rightarrow> ('t, 'n) cmd_client option \<Rightarrow> gostring list \<Rightarrow>
   ('t, 'n) cmd_result" where
  "scan_loop unicode_lower L tcp client [] = ([], Exited)"
| "scan_loop unicode_lower L tcp client (line # lines) =
     (case (if line \<noteq> [] then execCmd unicode_lower L tcp client (Split line 0x20) else ([], Done True client)) of
        (out, Done ok client) \<Rightarrow>
          (case scan_loop unicode_lower L tcp client lines of (out', e) \<Rightarrow> (out @ Say lineStart # out', e))
      | (out, e) \<Rightarrow> (out, e))"

definition cmd_main ::
  "(gostring \<Rightarrow> gostring) \<Rightarrow> ('pool, 'cert, 't) tls_lib \<Rightarrow> 'n \<Rightarrow> gostring list \<Rightarrow> ('t, 'n) cmd_result" where
  "cmd_main unicode_lower L tcp lines =
     (case scan_loop unicode_lower L tcp None lines of (out, e) \<Rightarrow> (Say lineStart # out, e))"

section \<open>The handlers\<close>

text \<open>
  What the handlers print. The built-in \<open>println\<close> prints an error and a slice as addresses: \<open>show_error\<close> and
  \<open>show_slice\<close> stand for that.
\<close>

definition cmd_connHandler :: "(goerr option \<Rightarrow> gostring) \<Rightarrow> gostring \<Rightarrow> byte \<Rightarrow> goerr option \<Rightarrow> cmd_event list" where
  "cmd_connHandler show_error server code err =
     [if err \<noteq> None then go_println [newline # ascii ''connect to server error:'', show_error err]
      else if code \<noteq> 0
      then go_println [newline # ascii ''connection rejected by server, code:'', decimal (unat code)]
      else go_println [newline # ascii ''connected to server''],
      Say lineStart]"

definition cmd_pubHandler :: "(goerr option \<Rightarrow> gostring) \<Rightarrow> gostring \<Rightarrow> goerr option \<Rightarrow> cmd_event list" where
  "cmd_pubHandler show_error topic err =
     [if err \<noteq> None then go_println [newline # ascii ''pub'', topic, ascii ''failed, error ='', show_error err]
      else go_println [newline # ascii ''pub'', topic, ascii ''success''],
      Say lineStart]"

definition cmd_subHandler ::
  "('a list \<Rightarrow> gostring) \<Rightarrow> (goerr option \<Rightarrow> gostring) \<Rightarrow> 'a list \<Rightarrow> goerr option \<Rightarrow> cmd_event list" where
  "cmd_subHandler show_slice show_error topics err =
     [if err \<noteq> None
      then go_println [newline # ascii ''sub'', show_slice topics, ascii ''failed, error ='', show_error err]
      else go_println [newline # ascii ''sub'', show_slice topics, ascii ''success''],
      Say lineStart]"

definition cmd_unSubHandler ::
  "('a list \<Rightarrow> gostring) \<Rightarrow> (goerr option \<Rightarrow> gostring) \<Rightarrow> 'a list \<Rightarrow> goerr option \<Rightarrow> cmd_event list" where
  "cmd_unSubHandler show_slice show_error topics err =
     [if err \<noteq> None
      then go_println [newline # ascii ''unsub'', show_slice topics, ascii ''failed, error ='', show_error err]
      else go_println [newline # ascii ''unsub'', show_slice topics, ascii ''success''],
      Say lineStart]"

definition cmd_netHandler :: "(goerr option \<Rightarrow> gostring) \<Rightarrow> gostring \<Rightarrow> goerr option \<Rightarrow> cmd_event list" where
  "cmd_netHandler show_error server err =
     [go_println [newline # ascii ''connection to server, error:'', show_error err], Say lineStart]"

definition cmd_topicHandler :: "gostring \<Rightarrow> byte \<Rightarrow> bytes \<Rightarrow> cmd_event list" where
  "cmd_topicHandler topic qos msg =
     [go_println [newline # ascii ''[MSG] topic:'', topic, ascii ''msg:'', msg, ascii ''qos:'', decimal (unat qos)],
      Say lineStart]"

section \<open>A typed command does what it says\<close>

text \<open>What a user can mean to type, as the line, and what should follow for a client \<open>c\<close>.\<close>

datatype typed_command =
    TypedPub "(gostring \<times> nat \<times> gostring) list"
  | TypedSub "(gostring \<times> nat) list"
  | TypedUnSub "gostring list"

fun typed_words :: "typed_command \<Rightarrow> gostring list" where
  "typed_words (TypedPub ms) = ascii ''pub'' # map (\<lambda>(t, q, m). join 0x2C [t, decimal q, m]) ms"
| "typed_words (TypedSub ts) = ascii ''sub'' # map (\<lambda>(t, q). join 0x2C [t, decimal q]) ts"
| "typed_words (TypedUnSub ts) = ascii ''unsub'' # ts"

definition typed_line :: "typed_command \<Rightarrow> gostring" where
  "typed_line t = join 0x20 (typed_words t)"

definition plain_field :: "gostring \<Rightarrow> bool" where
  "plain_field s \<longleftrightarrow> 0x20 \<notin> set s \<and> 0x2C \<notin> set s"

fun typed_ok :: "typed_command \<Rightarrow> bool" where
  "typed_ok (TypedPub ms) \<longleftrightarrow> list_all (\<lambda>(t, q, m). plain_field t \<and> int q < 2 ^ 63 \<and> plain_field m) ms"
| "typed_ok (TypedSub ts) \<longleftrightarrow> list_all (\<lambda>(t, q). plain_field t \<and> int q < 2 ^ 63) ts"
| "typed_ok (TypedUnSub ts) \<longleftrightarrow> list_all (\<lambda>t. 0x20 \<notin> set t) ts"

fun typed_result :: "('t, 'n) cmd_client \<Rightarrow> typed_command \<Rightarrow> ('t, 'n) cmd_result" where
  "typed_result c (TypedPub ms) =
     ([Acts (Publish (client.truncate (os_client c))
        (map (\<lambda>(t, q, m). Some (publish_packet_zero\<lparr>pub_TopicName := t, pub_Qos := of_nat q, pub_Payload := m\<rparr>)) ms))],
      Done True (Some c))"
| "typed_result c (TypedSub ts) =
     (let ts = map (\<lambda>(t, q). \<lparr>topic_Name = t, topic_Qos = of_nat q\<rparr>) ts
      in ([Acts (Subscribe (client.truncate (os_client c)) ts)], Done True (Some (handle_topics ts c))))"
| "typed_result c (TypedUnSub ts) =
     ([Acts (Unsubscribe (client.truncate (os_client c)) ts)], Done True (Some c))"

lemma not_in_join: "c \<noteq> sep \<Longrightarrow> \<forall>w \<in> set ws. c \<notin> set w \<Longrightarrow> c \<notin> set (join sep ws)"
  using set_join [of sep ws] by blast

lemma decimal_plain [simp]: "0x20 \<notin> set (decimal n)" "0x2C \<notin> set (decimal n)"
  by (rule not_in_decimal, simp add: is_digit_def)+

lemma typed_words_plain: "typed_ok t \<Longrightarrow> w \<in> set (typed_words t) \<Longrightarrow> 0x20 \<notin> set w"
  by (induction t rule: typed_ok.induct) (fastforce simp: list_all_iff plain_field_def ascii_def)+

lemma Split_typed_line: "typed_ok t \<Longrightarrow> Split (typed_line t) 0x20 = typed_words t"
  unfolding typed_line_def
  by (rule Split_join) (use typed_words_plain [of t] in \<open>auto elim: typed_words.elims\<close>)

lemma pub_args_typed:
  "list_all (\<lambda>(t, q, m). plain_field t \<and> int q < 2 ^ 63 \<and> plain_field m) ms \<Longrightarrow>
   pub_args (map (\<lambda>(t, q, m). join 0x2C [t, decimal q, m]) ms) =
   Inr (map (\<lambda>(t, q, m). Some (publish_packet_zero\<lparr>pub_TopicName := t, pub_Qos := of_nat q, pub_Payload := m\<rparr>)) ms)"
  by (induction ms) (auto simp: plain_field_def Atoi_decimal)

lemma sub_args_typed:
  "list_all (\<lambda>(t, q). plain_field t \<and> int q < 2 ^ 63) ts \<Longrightarrow>
   sub_args (map (\<lambda>(t, q). join 0x2C [t, decimal q]) ts) =
   Inr (map (\<lambda>(t, q). \<lparr>topic_Name = t, topic_Qos = of_nat q\<rparr>) ts)"
  by (induction ts) (auto simp: plain_field_def Atoi_decimal)

lemma client_handle_topics [simp]:
  "client.truncate (os_client (handle_topics ts c)) = client.truncate (os_client c)"
  by (induction ts arbitrary: c)
    (simp_all add: handle_topics_def client_HandleTopic_def set_client_def client.defs)

lemmas typed_execs = execPub_def execSub_def execUnSub_def UnSubscribe_def Let_def

text \<open>
  C27: the program does what a line says: if the fields have no spaces and commas, a \<open>pub\<close>, \<open>sub\<close> or \<open>unsub\<close>
  line is taken apart into exactly the messages or topics that were put together into it, and the
  client's \<open>Publish\<close>, \<open>Subscribe\<close> or \<open>Unsubscribe\<close> is called with all of them in order, after a handler
  was registered for every subscribed topic. The quality of service is the number modulo 256.
\<close>
theorem command_line_round_trip:
  assumes "typed_ok t"
  shows "execCmd unicode_lower L tcp (Some c) (Split (typed_line t) 0x20) = typed_result c t"
proof -
  have low: "ToLower unicode_lower (ascii ''pub'') = ascii ''pub''"
    "ToLower unicode_lower (ascii ''sub'') = ascii ''sub''"
    "ToLower unicode_lower (ascii ''unsub'') = ascii ''unsub''"
    by (simp_all add: ToLower_def lower_byte_def ascii_def)
  have neq: "ascii ''pub'' \<noteq> ascii ''c''" "ascii ''pub'' \<noteq> ascii ''conn''"
    "ascii ''sub'' \<noteq> ascii ''c''" "ascii ''sub'' \<noteq> ascii ''conn''" "ascii ''sub'' \<noteq> ascii ''p''" "ascii ''sub'' \<noteq> ascii ''pub''"
    "ascii ''unsub'' \<noteq> ascii ''c''" "ascii ''unsub'' \<noteq> ascii ''conn''" "ascii ''unsub'' \<noteq> ascii ''p''"
    "ascii ''unsub'' \<noteq> ascii ''pub''" "ascii ''unsub'' \<noteq> ascii ''s''" "ascii ''unsub'' \<noteq> ascii ''sub''"
    by (simp_all add: ascii_def)
  show ?thesis
    unfolding Split_typed_line [OF assms]
  proof (cases t)
    case (TypedPub ms)
    then show "execCmd unicode_lower L tcp (Some c) (typed_words t) = typed_result c t"
      using assms pub_args_typed [of ms] by (simp add: execCmd_def low neq typed_execs)
  next
    case (TypedSub ts)
    then show "execCmd unicode_lower L tcp (Some c) (typed_words t) = typed_result c t"
      using assms sub_args_typed [of ts] by (simp add: execCmd_def low neq typed_execs)
  qed (simp add: execCmd_def low neq typed_execs)
qed

text \<open>A client without servers, as \<open>conn\<close> makes it but for the address.\<close>

definition idle_client :: "(unit, unit) cmd_client" where
  "idle_client = default_state () NewTextRouter ()"

lemma command_line_round_trip_witness:
  "execCmd id no_certs () (Some idle_client) (Split (typed_line (TypedPub [([0x61], 1, [0x62])])) 0x20) =
   typed_result idle_client (TypedPub [([0x61], 1, [0x62])])"
  by (rule command_line_round_trip) (simp add: plain_field_def)

section \<open>What conn leaves behind\<close>

definition no_session_yet :: "('t, 'n) cmd_client \<Rightarrow> bool" where
  "no_session_yet c \<longleftrightarrow> ac_servers (os_client c) = [] \<and> ac_secureServers (os_client c) = [] \<and>
     co_connPacket (os_options c) = 0 \<and> length (os_packets c) = 1 \<and> \<not> conn_CleanSession (os_packets c ! 0)"

lemma no_session_yet_default: "no_session_yet (default_state () NewTextRouter tcp)"
  by (simp add: no_session_yet_def default_state_def client.defs async_client.defs defaultConnectOptions_def
      conn_packet_zero_def)

lemma conn_option_clean:
  "conn_option v a = Inr a' \<Longrightarrow> set (ca_options a) \<subseteq> {Plain_Option (WithCleanSession False)} \<Longrightarrow>
   set (ca_options a') \<subseteq> {Plain_Option (WithCleanSession False)}"
  by (auto simp: conn_option_def Let_def ascii_def split: if_splits option.splits)

lemma conn_options_loop_clean:
  "conn_options_loop opts a = Inr a' \<Longrightarrow> set (ca_options a) \<subseteq> {Plain_Option (WithCleanSession False)} \<Longrightarrow>
   set (ca_options a') \<subseteq> {Plain_Option (WithCleanSession False)}"
proof (induction opts arbitrary: a)
  case (Cons v opts)
  then show ?case
    using conn_option_clean [of v a] by (auto split: sum.splits)
qed simp

lemma no_session_yet_option:
  assumes "opt \<in> set (handler_options @ conn_all_options a)"
    and "set (ca_options a) \<subseteq> {Plain_Option (WithCleanSession False)}" and "no_session_yet st"
  shows "no_session_yet (snd (apply_api_option L opt st))"
proof (cases opt)
  case (TLS_Option cert key ca name skip)
  obtain e st' where r: "WithTLS L cert key ca name skip st = (e, st')"
    by (cases "WithTLS L cert key ca name skip st")
  from WithTLS_keeps [OF r] obtain tls where "os_client st' = os_client st" "os_packets st' = os_packets st"
    "os_options st' = (os_options st)\<lparr>co_tlsConfig := tls\<rparr>"
    by blast
  then show ?thesis
    using assms(3) r TLS_Option by (simp add: apply_api_option_def no_session_yet_def)
next
  case (Plain_Option o')
  then have "o' = WithCleanSession False \<or> (\<exists>t q r m. o' = WithWill t q r m) \<or> (\<exists>h. o' = WithPubHandleFunc h) \<or>
      (\<exists>h. o' = WithConnHandleFunc h) \<or> (\<exists>h. o' = WithUnsubHandleFunc h) \<or> (\<exists>h. o' = WithNetHandleFunc h) \<or>
      (\<exists>h. o' = WithSubHandleFunc h)"
    using assms(1,2) by (auto simp: handler_options_def conn_all_options_def split: if_splits)
  then show ?thesis
    using assms(3) unfolding Plain_Option
    by (elim disjE exE) (simp_all add: apply_api_option_def no_session_yet_def option_setters)
qed

lemma newClient_servers:
  assumes "newClient L tcp client (conn_all_options a @ [Plain_Option (WithServer [server])]) = (out, Some c)"
    and "set (ca_options a) \<subseteq> {Plain_Option (WithCleanSession False)}"
  shows "ac_servers (os_client c) = [server] \<and> ac_secureServers (os_client c) = [] \<and>
    \<not> conn_CleanSession (os_packets c ! co_connPacket (os_options c)) \<and>
    out = (if client = None then [] else [Destroys True])"
proof -
  let ?opts = "handler_options @ conn_all_options a"
  let ?st = "snd (apply_api_options L ?opts (default_state () NewTextRouter tcp))"
  have kept: "no_session_yet ?st"
    by (rule apply_api_options_inv) (use no_session_yet_option assms(2) no_session_yet_default in auto)
  from assms(1) have "api_NewClient L () NewTextRouter tcp (?opts @ [Plain_Option (WithServer [server])]) = Inr c"
    and out: "out = (if client = None then [] else [Destroys True])"
    by (auto simp: newClient_def Let_def split: sum.splits)
  then have "c = set_client (\<lambda>c. c\<lparr>ac_servers := ac_servers c @ [server]\<rparr>) ?st"
    unfolding api_NewClient_def apply_api_options_append [of L ?opts]
    by (auto simp: apply_api_option_def split: prod.splits option.splits)
  with kept out show ?thesis
    by (simp add: no_session_yet_def set_client_def)
qed

text \<open>
  \<open>conn\<close> only configures. A client it makes has the one server that was typed, but neither \<open>execConn\<close>
  nor any other command tells the client to connect to it: all \<open>conn\<close> does to clients is to destroy the
  one before. And the session is never a clean one, whatever the \<open>clean\<close> option says, because the code
  compares the key of that option with \<open>y\<close> instead of the value.
\<close>
theorem conn_command_client:
  assumes "execConn L tcp client args = (out, Done ok (Some c))" and "client \<noteq> Some c"
  shows "ac_servers (os_client c) = [args ! 0] \<and> ac_secureServers (os_client c) = [] \<and>
    \<not> conn_CleanSession (os_packets c ! co_connPacket (os_options c)) \<and>
    out = (if client = None then [] else [Destroys True])"
proof -
  obtain a where a: "(if length args = 2 then conn_options_loop (Split (args ! 1) 0x2C) no_conn_args
      else Inr no_conn_args) = Inr a"
    and new: "newClient L tcp client (conn_all_options a @ [Plain_Option (WithServer [args ! 0])]) = (out, Some c)"
    using assms by (auto simp: execConn_def split: if_splits sum.splits prod.splits)
  have "set (ca_options a) \<subseteq> {Plain_Option (WithCleanSession False)}"
    using a conn_options_loop_clean [of "Split (args ! 1) 0x2C" no_conn_args a]
    by (auto simp: no_conn_args_def split: if_splits)
  from newClient_servers [OF new this] show ?thesis .
qed

lemma conn_command_client_witness:
  "\<exists>c. execConn no_certs () (None :: (unit, unit) cmd_client option)
      [ascii ''a:1'', ascii ''clean=y''] = ([], Done True (Some c)) \<and>
    ac_servers (os_client c) = [ascii ''a:1''] \<and>
    \<not> conn_CleanSession (os_packets c ! co_connPacket (os_options c))"
proof -
  have "\<exists>c out. execConn no_certs () (None :: (unit, unit) cmd_client option)
      [ascii ''a:1'', ascii ''clean=y''] = (out, Done True (Some c))"
    by (simp add: execConn_def ascii_def conn_option_def no_conn_args_def newClient_def api_NewClient_def
        conn_all_options_def handler_options_def apply_api_option_def)
  then obtain c out where run: "execConn no_certs () (None :: (unit, unit) cmd_client option)
      [ascii ''a:1'', ascii ''clean=y''] = (out, Done True (Some c))"
    by blast
  from conn_command_client [OF run] run show ?thesis
    by auto
qed

end
