(* ===== verification/C_Api.thy ===== *)
theory C_Api
  imports Api Teardown File_Persist "HOL-Library.Multiset"
begin

text \<open>
  The C interface of \<open>src/c/options_c.go\<close> and \<open>src/c/libmqtt_c.go\<close>: clients are integers, options are
  collected per integer, \<open>Libmqtt_setup_client\<close> makes the client, and every other function looks the
  client up and calls it; handlers are C function pointers that the bridge functions call.

  A C string is given by what \<open>C.GoString\<close> reads from it. The two package variables are maps; the functions
  are called one after the other. A store that an option carries is made when the option is added.
\<close>

type_synonym c_int = "32 word"

section \<open>Handlers\<close>

text \<open>
  A C function pointer is a value of a type variable, \<open>None\<close> for \<open>NULL\<close>. What a callback does is the list
  of its steps: a string allocated by \<open>C.CString\<close>, the call, a string released by \<open>free\<close> (which does
  nothing for \<open>NULL\<close>).
\<close>

datatype c_args =
    ConnArgs c_int gostring c_int "gostring option"
  | PubArgs c_int gostring "gostring option"
  | SubArgs c_int gostring c_int "gostring option"
  | UnsubArgs c_int gostring "gostring option"
  | NetArgs c_int gostring "gostring option"
  | PersistArgs c_int "gostring option"
  | TopicArgs c_int gostring c_int bytes c_int

datatype 'f c_step = CString gostring | CCall 'f c_args | CFree gostring

definition CString_opt :: "gostring option \<Rightarrow> 'f c_step list" where
  "CString_opt p = (case p of None \<Rightarrow> [] | Some s \<Rightarrow> [CString s])"

definition CFree_opt :: "gostring option \<Rightarrow> 'f c_step list" where
  "CFree_opt p = (case p of None \<Rightarrow> [] | Some s \<Rightarrow> [CFree s])"

definition call_conn_handler ::
  "'f option \<Rightarrow> c_int \<Rightarrow> gostring \<Rightarrow> c_int \<Rightarrow> gostring option \<Rightarrow> 'f c_step list" where
  "call_conn_handler h client server code err = (case h of
       None \<Rightarrow> [] | Some h \<Rightarrow> [CCall h (ConnArgs client server code err), CFree server] @ CFree_opt err)"

definition call_pub_handler :: "'f option \<Rightarrow> c_int \<Rightarrow> gostring \<Rightarrow> gostring option \<Rightarrow> 'f c_step list" where
  "call_pub_handler h client topic err = (case h of
       None \<Rightarrow> [] | Some h \<Rightarrow> [CCall h (PubArgs client topic err), CFree topic] @ CFree_opt err)"

definition call_sub_handler ::
  "'f option \<Rightarrow> c_int \<Rightarrow> gostring \<Rightarrow> c_int \<Rightarrow> gostring option \<Rightarrow> 'f c_step list" where
  "call_sub_handler h client topic qos err = (case h of
       None \<Rightarrow> [] | Some h \<Rightarrow> [CCall h (SubArgs client topic qos err), CFree topic] @ CFree_opt err)"

definition call_unsub_handler :: "'f option \<Rightarrow> c_int \<Rightarrow> gostring \<Rightarrow> gostring option \<Rightarrow> 'f c_step list" where
  "call_unsub_handler h client topic err = (case h of
       None \<Rightarrow> [] | Some h \<Rightarrow> [CCall h (UnsubArgs client topic err), CFree topic] @ CFree_opt err)"

definition call_net_handler :: "'f option \<Rightarrow> c_int \<Rightarrow> gostring \<Rightarrow> gostring option \<Rightarrow> 'f c_step list" where
  "call_net_handler h client server err = (case h of
       None \<Rightarrow> [] | Some h \<Rightarrow> [CCall h (NetArgs client server err), CFree server] @ CFree_opt err)"

definition call_persist_handler :: "'f option \<Rightarrow> c_int \<Rightarrow> gostring option \<Rightarrow> 'f c_step list" where
  "call_persist_handler h client err = (case h of
       None \<Rightarrow> [] | Some h \<Rightarrow> [CCall h (PersistArgs client err)] @ CFree_opt err)"

definition call_topic_handler ::
  "'f option \<Rightarrow> c_int \<Rightarrow> gostring \<Rightarrow> c_int \<Rightarrow> bytes \<Rightarrow> c_int \<Rightarrow> 'f c_step list" where
  "call_topic_handler h client topic qos msg msgSize = (case h of
       None \<Rightarrow> [] | Some h \<Rightarrow> [CCall h (TopicArgs client topic qos msg msgSize), CFree topic, CFree msg])"

text \<open>The closures that the setters register, by the function pointer they close over.\<close>

datatype 'f c_callback =
    ConnCallback c_int "'f option"
  | PubCallback c_int "'f option"
  | SubCallback c_int "'f option"
  | UnsubCallback c_int "'f option"
  | NetCallback c_int "'f option"
  | PersistCallback c_int "'f option"
  | TopicCallback c_int "'f option"

text \<open>What a closure is called with: a message, the result of a connect, or a received message.\<close>

datatype callback_arg =
    OnMessage message
  | OnConnect gostring byte "goerr option"
  | OnTopic gostring byte bytes

text \<open>
  Running a closure; \<open>error_text\<close> is \<open>Error()\<close>. The clients call a closure only with its own kind of argument.
\<close>

fun run_callback :: "(goerr \<Rightarrow> gostring) \<Rightarrow> 'f c_callback \<Rightarrow> callback_arg \<Rightarrow> 'f c_step list" where
  "run_callback error_text (ConnCallback client h) (OnConnect server code err) =
     (let er = map_option error_text err
      in CString_opt er @ [CString server] @ call_conn_handler h client server (ucast code) er)"
| "run_callback error_text (PubCallback client h) (OnMessage (PubMsg topic err)) =
     (let er = map_option error_text err
      in CString_opt er @ [CString topic] @ call_pub_handler h client topic er)"
| "run_callback error_text (SubCallback client h) (OnMessage (SubMsg topics err)) =
     concat (map (\<lambda>t. let er = map_option error_text err
       in CString_opt er @ [CString (topic_Name t)] @
          call_sub_handler h client (topic_Name t) (ucast (topic_Qos t)) er) topics)"
| "run_callback error_text (UnsubCallback client h) (OnMessage (UnSubMsg topics err)) =
     concat (map (\<lambda>t. let er = map_option error_text err
       in CString_opt er @ [CString t] @ call_unsub_handler h client t er) topics)"
| "run_callback error_text (NetCallback client h) (OnMessage (NetMsg server err)) =
     (case err of None \<Rightarrow> [] | Some err \<Rightarrow>
        [CString server, CString (error_text err)] @ call_net_handler h client server (Some (error_text err)))"
| "run_callback error_text (PersistCallback client h) (OnMessage (PersistMsg packet err)) =
     (case err of None \<Rightarrow> [] | Some err \<Rightarrow>
        [CString (error_text err)] @ call_persist_handler h client (Some (error_text err)))"
| "run_callback error_text (TopicCallback client h) (OnTopic topic qos msg) =
     [CString topic, CString msg] @
     call_topic_handler h client topic (ucast qos) msg (of_nat (length msg))"
| "run_callback error_text _ _ = []"

section \<open>The two tables\<close>

datatype c_store = NoStore | MemStore "packet mem_persist option" | FileStore gostring "file_persist option"

type_synonym 'f c_handler = "(unit, 'f c_callback) api_handler"

type_synonym ('f, 're, 't) c_option =
  "(c_store, 'f c_handler, ('re, 'f c_handler) router, logger option, 't, unit) api_option"

type_synonym ('f, 're, 't) c_client =
  "(c_store, 'f c_handler, ('re, 'f c_handler) router, logger option, 't, unit) opt_state"

text \<open>\<open>clientOptions\<close> and \<open>clients\<close>. A client is an interface, which can be nil.\<close>

record ('f, 're, 't) c_state =
  cs_options :: "int \<rightharpoonup> ('f, 're, 't) c_option list"
  cs_clients :: "int \<rightharpoonup> ('f, 're, 't) c_client option"

definition c_init :: "('f, 're, 't) c_state" where
  "c_init = \<lparr>cs_options = Map.empty, cs_clients = Map.empty\<rparr>"

definition storeClient ::
  "('f, 're, 't) c_state \<Rightarrow> int \<Rightarrow> ('f, 're, 't) c_client option \<Rightarrow> ('f, 're, 't) c_state" where
  "storeClient s cid client = s\<lparr>cs_clients := (cs_clients s)(cid \<mapsto> client)\<rparr>"

text \<open>\<open>getClient\<close>: the type assertion panics when the stored interface is nil.\<close>

definition getClient :: "('f, 're, 't) c_state \<Rightarrow> int \<Rightarrow> ('f, 're, 't) c_client option res" where
  "getClient s cid = (case cs_clients s cid of
       None \<Rightarrow> Inr None | Some None \<Rightarrow> Inl Panic | Some (Some c) \<Rightarrow> Inr (Some c))"

abbreviation (input) MaxInt64 :: int where "MaxInt64 \<equiv> 2 ^ 63 - 1"

text \<open>The loop of \<open>newClientOptions\<close>: the first free identifier from \<open>cid\<close> on.\<close>

function find_id :: "(int \<rightharpoonup> 'o) \<Rightarrow> int \<Rightarrow> int" where
  "find_id m cid = (if cid < MaxInt64 then if m cid = None then cid else find_id m (cid + 1) else - 1)"
  by pat_completeness auto
termination
  by (relation "measure (\<lambda>(m, cid). nat (MaxInt64 - cid))") auto

declare find_id.simps [simp del]

definition newClientOptions :: "('f, 're, 't) c_state \<Rightarrow> int \<times> ('f, 're, 't) c_state" where
  "newClientOptions s =
     (let cid = find_id (cs_options s) 1
      in (cid, if cid = - 1 then s else s\<lparr>cs_options := (cs_options s)(cid \<mapsto> [])\<rparr>))"

definition getClientOptions :: "('f, 're, 't) c_state \<Rightarrow> int \<Rightarrow> ('f, 're, 't) c_option list option" where
  "getClientOptions s cid = cs_options s cid"

definition addOption ::
  "('f, 're, 't) c_state \<Rightarrow> c_int \<Rightarrow> ('f, 're, 't) c_option \<Rightarrow> ('f, 're, 't) c_state" where
  "addOption s client option = (case getClientOptions s (sint client) of
       None \<Rightarrow> s
     | Some options \<Rightarrow> s\<lparr>cs_options := (cs_options s)(sint client \<mapsto> options @ [option])\<rparr>)"

definition Libmqtt_new_client :: "('f, 're, 't) c_state \<Rightarrow> c_int \<times> ('f, 're, 't) c_state" where
  "Libmqtt_new_client s = (case newClientOptions s of (cid, s) \<Rightarrow> (word_of_int cid, s))"

text \<open>\<open>Libmqtt_setup_client\<close>: the string it returns, \<open>None\<close> for \<open>NULL\<close>. On an error \<open>NewClient\<close> returns no client.\<close>

definition Libmqtt_setup_client ::
  "('pool, 'cert, 't) tls_lib \<Rightarrow> ('f, 're, 't) c_state \<Rightarrow> c_int \<Rightarrow> gostring option \<times> ('f, 're, 't) c_state" where
  "Libmqtt_setup_client L s client =
     (let cid = sint client in
      case getClientOptions s cid of
        None \<Rightarrow> (Some (ascii ''no such client''), s)
      | Some options \<Rightarrow>
          (case api_NewClient L NoStore (TextRouter NewTextRouter) () options of
             Inl err \<Rightarrow> (Some (api_error_text err), storeClient s cid None)
           | Inr c \<Rightarrow> (None, s)))"

section \<open>Options\<close>

definition Libmqtt_client_with_clean_session ::
  "('f, 're, 't) c_state \<Rightarrow> c_int \<Rightarrow> bool \<Rightarrow> ('f, 're, 't) c_state" where
  "Libmqtt_client_with_clean_session s client flag = addOption s client (Plain_Option (WithCleanSession flag))"

definition Libmqtt_client_with_identity ::
  "('f, 're, 't) c_state \<Rightarrow> c_int \<Rightarrow> gostring \<Rightarrow> gostring \<Rightarrow> ('f, 're, 't) c_state" where
  "Libmqtt_client_with_identity s client username password =
     addOption s client (Plain_Option (WithIdentity username password))"

definition Libmqtt_client_with_keepalive ::
  "('f, 're, 't) c_state \<Rightarrow> c_int \<Rightarrow> c_int \<Rightarrow> rat \<Rightarrow> ('f, 're, 't) c_state" where
  "Libmqtt_client_with_keepalive s client keepalive factor =
     addOption s client (Plain_Option (WithKeepalive (ucast keepalive) factor))"

definition Libmqtt_client_with_auto_reconnect ::
  "('f, 're, 't) c_state \<Rightarrow> c_int \<Rightarrow> bool \<Rightarrow> ('f, 're, 't) c_state" where
  "Libmqtt_client_with_auto_reconnect s client enable = addOption s client (Plain_Option (WithAutoReconnect enable))"

definition Libmqtt_client_with_backoff_strategy ::
  "('f, 're, 't) c_state \<Rightarrow> c_int \<Rightarrow> c_int \<Rightarrow> c_int \<Rightarrow> rat \<Rightarrow> ('f, 're, 't) c_state" where
  "Libmqtt_client_with_backoff_strategy s client firstDelay maxDelay factor =
     addOption s client (Plain_Option (WithBackoffStrategy
       (sint firstDelay * Millisecond) (sint maxDelay * Millisecond) factor))"

definition Libmqtt_client_with_client_id ::
  "('f, 're, 't) c_state \<Rightarrow> c_int \<Rightarrow> gostring \<Rightarrow> ('f, 're, 't) c_state" where
  "Libmqtt_client_with_client_id s client clientID = addOption s client (Plain_Option (WithClientID clientID))"

text \<open>\<open>C.GoBytes\<close> copies \<open>n\<close> bytes of memory; a negative number of them is a panic.\<close>

definition GoBytes :: "(nat \<Rightarrow> byte) \<Rightarrow> c_int \<Rightarrow> bytes res" where
  "GoBytes mem n = (if sint n < 0 then Inl Panic else Inr (map mem [0..<unat n]))"

definition Libmqtt_client_with_will ::
  "('f, 're, 't) c_state \<Rightarrow> c_int \<Rightarrow> gostring \<Rightarrow> c_int \<Rightarrow> bool \<Rightarrow> (nat \<Rightarrow> byte) \<Rightarrow> c_int \<Rightarrow>
   ('f, 're, 't) c_state res" where
  "Libmqtt_client_with_will s client topic qos retain payload payloadSize =
     (case GoBytes payload payloadSize of
        Inl e \<Rightarrow> Inl e
      | Inr msg \<Rightarrow> Inr (addOption s client (Plain_Option (WithWill topic (ucast qos) retain msg))))"

definition Libmqtt_client_with_secure_server ::
  "('f, 're, 't) c_state \<Rightarrow> c_int \<Rightarrow> gostring \<Rightarrow> ('f, 're, 't) c_state" where
  "Libmqtt_client_with_secure_server s client server = addOption s client (Plain_Option (WithSecureServer [server]))"

definition Libmqtt_client_with_server ::
  "('f, 're, 't) c_state \<Rightarrow> c_int \<Rightarrow> gostring \<Rightarrow> ('f, 're, 't) c_state" where
  "Libmqtt_client_with_server s client server = addOption s client (Plain_Option (WithServer [server]))"

definition Libmqtt_client_with_tls ::
  "('f, 're, 't) c_state \<Rightarrow> c_int \<Rightarrow> gostring \<Rightarrow> gostring \<Rightarrow> gostring \<Rightarrow> gostring \<Rightarrow> bool \<Rightarrow>
   ('f, 're, 't) c_state" where
  "Libmqtt_client_with_tls s client certFile keyFile caCert serverNameOverride skipVerify =
     addOption s client (TLS_Option certFile keyFile caCert serverNameOverride skipVerify)"

definition Libmqtt_client_with_dial_timeout ::
  "('f, 're, 't) c_state \<Rightarrow> c_int \<Rightarrow> c_int \<Rightarrow> ('f, 're, 't) c_state" where
  "Libmqtt_client_with_dial_timeout s client timeout =
     addOption s client (Plain_Option (WithDialTimeout (ucast timeout)))"

definition Libmqtt_client_with_buf_size ::
  "('f, 're, 't) c_state \<Rightarrow> c_int \<Rightarrow> c_int \<Rightarrow> c_int \<Rightarrow> ('f, 're, 't) c_state" where
  "Libmqtt_client_with_buf_size s client sendBuf recvBuf =
     addOption s client (Plain_Option (WithBufSize (sint sendBuf) (sint recvBuf)))"

definition Libmqtt_client_with_log ::
  "('f, 're, 't) c_state \<Rightarrow> c_int \<Rightarrow> u32 \<Rightarrow> ('f, 're, 't) c_state" where
  "Libmqtt_client_with_log s client l = addOption s client (Plain_Option (WithLog (newLogger (ucast l))))"

definition Libmqtt_client_with_version ::
  "('f, 're, 't) c_state \<Rightarrow> c_int \<Rightarrow> u32 \<Rightarrow> bool \<Rightarrow> ('f, 're, 't) c_state" where
  "Libmqtt_client_with_version s client version compromise =
     addOption s client (Plain_Option (WithVersion (ucast version) compromise))"

definition Libmqtt_client_with_none_persist ::
  "('f, 're, 't) c_state \<Rightarrow> c_int \<Rightarrow> ('f, 're, 't) c_state" where
  "Libmqtt_client_with_none_persist s client = addOption s client (Plain_Option (WithPersist (Some NoStore)))"

text \<open>The strategy of a store that is asked for from C has no interval.\<close>

definition c_strategy :: "c_int \<Rightarrow> bool \<Rightarrow> bool \<Rightarrow> persist_strategy" where
  "c_strategy maxCount dropOnExceed duplicateReplace = \<lparr>ps_Interval = 0, ps_MaxCount = maxCount,
     ps_DropOnExceed = dropOnExceed, ps_DuplicateReplace = duplicateReplace\<rparr>"

definition Libmqtt_client_with_mem_persist ::
  "('f, 're, 't) c_state \<Rightarrow> c_int \<Rightarrow> c_int \<Rightarrow> bool \<Rightarrow> bool \<Rightarrow> ('f, 're, 't) c_state" where
  "Libmqtt_client_with_mem_persist s client maxCount dropOnExceed duplicateReplace =
     addOption s client (Plain_Option (WithPersist (Some (MemStore
       (NewMemPersist (Some (c_strategy maxCount dropOnExceed duplicateReplace)))))))"

definition Libmqtt_client_with_file_persist ::
  "(gostring \<Rightarrow> dir) \<Rightarrow> ('f, 're, 't) c_state \<Rightarrow> c_int \<Rightarrow> gostring \<Rightarrow> c_int \<Rightarrow> bool \<Rightarrow> bool \<Rightarrow>
   ('f, 're, 't) c_state" where
  "Libmqtt_client_with_file_persist disk s client dirPath maxCount dropOnExceed duplicateReplace =
     addOption s client (Plain_Option (WithPersist (Some (FileStore dirPath
       (NewFilePersist (disk dirPath) (Some (c_strategy maxCount dropOnExceed duplicateReplace)))))))"

definition Libmqtt_client_with_std_router :: "('f, 're, 't) c_state \<Rightarrow> c_int \<Rightarrow> ('f, 're, 't) c_state" where
  "Libmqtt_client_with_std_router s client =
     addOption s client (Plain_Option (WithRouter (Some (StandardRouter NewStandardRouter))))"

definition Libmqtt_client_with_text_router :: "('f, 're, 't) c_state \<Rightarrow> c_int \<Rightarrow> ('f, 're, 't) c_state" where
  "Libmqtt_client_with_text_router s client =
     addOption s client (Plain_Option (WithRouter (Some (TextRouter NewTextRouter))))"

definition Libmqtt_client_with_regex_router :: "('f, 're, 't) c_state \<Rightarrow> c_int \<Rightarrow> ('f, 're, 't) c_state" where
  "Libmqtt_client_with_regex_router s client =
     addOption s client (Plain_Option (WithRouter (Some (RegexRouter NewRegexRouter))))"

definition Libmqtt_client_with_redis_persist :: "('f, 're, 't) c_state \<Rightarrow> c_int \<Rightarrow> ('f, 're, 't) c_state" where
  "Libmqtt_client_with_redis_persist s client = s"

section \<open>Calls on a client\<close>

text \<open>What a call makes the client do, next to what it changes in it.\<close>

datatype ('f, 't) c_effect =
    Connects "('f c_handler, 't, unit) connect_call list"
  | CActs "action list"
  | Waits
  | CDestroys bool

type_synonym ('f, 're, 't) c_result = "(('f, 't) c_effect list \<times> ('f, 're, 't) c_state) res"

text \<open>The frame of these functions: without a client nothing happens; \<open>f\<close> is what is done with one.\<close>

definition with_client ::
  "('f, 're, 't) c_state \<Rightarrow> c_int \<Rightarrow>
   (('f, 're, 't) c_client \<Rightarrow> (('f, 't) c_effect list \<times> ('f, 're, 't) c_client) res) \<Rightarrow> ('f, 're, 't) c_result" where
  "with_client s client f = (case getClient s (sint client) of
       Inl e \<Rightarrow> Inl e
     | Inr None \<Rightarrow> Inr ([], s)
     | Inr (Some c) \<Rightarrow>
         (case f c of Inl e \<Rightarrow> Inl e | Inr (es, c) \<Rightarrow> Inr (es, storeClient s (sint client) (Some c))))"

definition wrapTopicHandler :: "c_int \<Rightarrow> 'f option \<Rightarrow> 'f c_callback option" where
  "wrapTopicHandler client h = Some (TopicCallback client h)"

definition Libmqtt_handle ::
  "(gostring \<Rightarrow> 're option) \<Rightarrow> ('f, 're, 't) c_state \<Rightarrow> c_int \<Rightarrow> gostring \<Rightarrow> 'f option \<Rightarrow> ('f, 're, 't) c_result" where
  "Libmqtt_handle compile s client topic h = with_client s client (\<lambda>c.
     case Handle (\<lambda>r topic k. case r of Inl e \<Rightarrow> Inl e | Inr r \<Rightarrow> router_Handle compile r topic k)
         (Inr (ac_router (os_client c))) topic (wrapTopicHandler client h) of
       Inl e \<Rightarrow> Inl e
     | Inr r \<Rightarrow> Inr ([], set_client (\<lambda>c. c\<lparr>ac_router := r\<rparr>) c))"

definition Libmqtt_connect ::
  "(gostring \<Rightarrow> 't) \<Rightarrow> ('f, 're, 't) c_state \<Rightarrow> c_int \<Rightarrow> 'f option \<Rightarrow> ('f, 're, 't) c_result" where
  "Libmqtt_connect server_tls s client h = with_client s client (\<lambda>c.
     Inr ([Connects (Client_Connect server_tls c (Closure (Some (ConnCallback client h))))], c))"

definition Libmqtt_subscribe ::
  "('f, 're, 't) c_state \<Rightarrow> c_int \<Rightarrow> gostring \<Rightarrow> c_int \<Rightarrow> ('f, 're, 't) c_result" where
  "Libmqtt_subscribe s client topic qos = with_client s client (\<lambda>c.
     Inr ([CActs (Subscribe (client.truncate (os_client c))
       [\<lparr>topic_Name = topic, topic_Qos = ucast qos\<rparr>])], c))"

definition Libmqtt_publish ::
  "('f, 're, 't) c_state \<Rightarrow> c_int \<Rightarrow> gostring \<Rightarrow> c_int \<Rightarrow> (nat \<Rightarrow> byte) \<Rightarrow> c_int \<Rightarrow> ('f, 're, 't) c_result" where
  "Libmqtt_publish s client topic qos payload payloadSize = with_client s client (\<lambda>c.
     case GoBytes payload payloadSize of
       Inl e \<Rightarrow> Inl e
     | Inr msg \<Rightarrow> Inr ([CActs (Publish (client.truncate (os_client c))
         [Some (publish_packet_zero\<lparr>pub_TopicName := topic, pub_Qos := ucast qos, pub_Payload := msg\<rparr>)])], c))"

definition Libmqtt_unsubscribe :: "('f, 're, 't) c_state \<Rightarrow> c_int \<Rightarrow> gostring \<Rightarrow> ('f, 're, 't) c_result" where
  "Libmqtt_unsubscribe s client topic = with_client s client (\<lambda>c.
     Inr ([CActs (UnSubscribe (client.truncate (os_client c)) [topic])], c))"

definition Libmqtt_wait :: "('f, 're, 't) c_state \<Rightarrow> c_int \<Rightarrow> ('f, 're, 't) c_result" where
  "Libmqtt_wait s client = with_client s client (\<lambda>c. Inr ([Waits], c))"

definition Libmqtt_destroy :: "('f, 're, 't) c_state \<Rightarrow> c_int \<Rightarrow> bool \<Rightarrow> ('f, 're, 't) c_result" where
  "Libmqtt_destroy s client force = with_client s client (\<lambda>c. Inr ([CDestroys force], c))"

text \<open>The setters of handlers.\<close>

definition set_callback ::
  "(('f c_handler) handlers \<Rightarrow> ('f c_handler) handlers) \<Rightarrow> ('f, 're, 't) c_client \<Rightarrow> ('f, 're, 't) c_client" where
  "set_callback f = set_client (\<lambda>c. c\<lparr>ac_handlers := f (ac_handlers c)\<rparr>)"

definition Libmqtt_set_pub_handler :: "('f, 're, 't) c_state \<Rightarrow> c_int \<Rightarrow> 'f option \<Rightarrow> ('f, 're, 't) c_result" where
  "Libmqtt_set_pub_handler s client h =
     with_client s client (\<lambda>c. Inr ([], set_callback (HandlePub (Some (PubCallback client h))) c))"

definition Libmqtt_set_sub_handler :: "('f, 're, 't) c_state \<Rightarrow> c_int \<Rightarrow> 'f option \<Rightarrow> ('f, 're, 't) c_result" where
  "Libmqtt_set_sub_handler s client h =
     with_client s client (\<lambda>c. Inr ([], set_callback (HandleSub (Some (SubCallback client h))) c))"

definition Libmqtt_set_unsub_handler :: "('f, 're, 't) c_state \<Rightarrow> c_int \<Rightarrow> 'f option \<Rightarrow> ('f, 're, 't) c_result" where
  "Libmqtt_set_unsub_handler s client h =
     with_client s client (\<lambda>c. Inr ([], set_callback (HandleUnSub (Some (UnsubCallback client h))) c))"

definition Libmqtt_set_net_handler :: "('f, 're, 't) c_state \<Rightarrow> c_int \<Rightarrow> 'f option \<Rightarrow> ('f, 're, 't) c_result" where
  "Libmqtt_set_net_handler s client h =
     with_client s client (\<lambda>c. Inr ([], set_callback (HandleNet (Some (NetCallback client h))) c))"

definition Libmqtt_set_persist_handler :: "('f, 're, 't) c_state \<Rightarrow> c_int \<Rightarrow> 'f option \<Rightarrow> ('f, 're, 't) c_result" where
  "Libmqtt_set_persist_handler s client h =
     with_client s client (\<lambda>c. Inr ([], set_callback (HandlePersist (Some (PersistCallback client h))) c))"

section \<open>Memory of the callbacks\<close>

fun callback_pointer :: "'f c_callback \<Rightarrow> 'f option" where
  "callback_pointer (ConnCallback _ h) = h"
| "callback_pointer (PubCallback _ h) = h"
| "callback_pointer (SubCallback _ h) = h"
| "callback_pointer (UnsubCallback _ h) = h"
| "callback_pointer (NetCallback _ h) = h"
| "callback_pointer (PersistCallback _ h) = h"
| "callback_pointer (TopicCallback _ h) = h"

fun allocated :: "'f c_step list \<Rightarrow> gostring multiset" where
  "allocated [] = {#}"
| "allocated (CString s # steps) = add_mset s (allocated steps)"
| "allocated (_ # steps) = allocated steps"

fun freed :: "'f c_step list \<Rightarrow> gostring multiset" where
  "freed [] = {#}"
| "freed (CFree s # steps) = add_mset s (freed steps)"
| "freed (_ # steps) = freed steps"

lemma allocated_append [simp]: "allocated (xs @ ys) = allocated xs + allocated ys"
  by (induction xs rule: allocated.induct) auto

lemma freed_append [simp]: "freed (xs @ ys) = freed xs + freed ys"
  by (induction xs rule: freed.induct) auto

lemma string_steps [simp]:
  "allocated (CString_opt p) = (case p of None \<Rightarrow> {#} | Some s \<Rightarrow> {#s#})" "freed (CString_opt p) = {#}"
  "freed (CFree_opt p) = (case p of None \<Rightarrow> {#} | Some s \<Rightarrow> {#s#})" "allocated (CFree_opt p) = {#}"
  by (simp_all add: CString_opt_def CFree_opt_def split: option.split)

lemmas call_handlers = call_conn_handler_def call_pub_handler_def call_sub_handler_def call_unsub_handler_def
  call_net_handler_def call_persist_handler_def call_topic_handler_def

lemma steps_concat [simp]:
  "freed (concat xss) = sum_list (map freed xss)" "allocated (concat xss) = sum_list (map allocated xss)"
  by (induction xss) simp_all

text \<open>
  C37: a callback releases every C string it allocates if there is a C handler, and none of them if the
  handler is \<open>NULL\<close>: the bridge functions free the strings only after a call, so an absent handler leaks
  the strings of every message.
\<close>
theorem callback_strings_freed:
  "freed (run_callback error_text cb a) =
   (if callback_pointer cb = None then {#} else allocated (run_callback error_text cb a))"
  by (induction error_text cb a rule: run_callback.induct)
    (auto simp: call_handlers Let_def comp_def split: option.split)

section \<open>Runs\<close>

text \<open>The calls of a C program, with the handler setters and the options summed up by their argument.\<close>

datatype handler_kind = KindPub | KindSub | KindUnsub | KindNet | KindPersist

datatype ('f, 're, 't) c_call =
    CallNew
  | CallSetup c_int
  | CallOption c_int "('f, 're, 't) c_option"
  | CallHandle c_int gostring "'f option"
  | CallConnect c_int "'f option"
  | CallSubscribe c_int gostring c_int
  | CallPublish c_int gostring c_int "nat \<Rightarrow> byte" c_int
  | CallUnsubscribe c_int gostring
  | CallWait c_int
  | CallDestroy c_int bool
  | CallSetHandler handler_kind c_int "'f option"

record ('pool, 'cert, 'f, 're, 't) c_env =
  cv_tls :: "('pool, 'cert, 't) tls_lib"
  cv_compile :: "gostring \<Rightarrow> 're option"
  cv_server_tls :: "gostring \<Rightarrow> 't"

fun c_exec ::
  "('pool, 'cert, 'f, 're, 't) c_env \<Rightarrow> ('f, 're, 't) c_state \<Rightarrow> ('f, 're, 't) c_call \<Rightarrow> ('f, 're, 't) c_result" where
  "c_exec E s CallNew = Inr ([], snd (Libmqtt_new_client s))"
| "c_exec E s (CallSetup c) = Inr ([], snd (Libmqtt_setup_client (cv_tls E) s c))"
| "c_exec E s (CallOption c opt) = Inr ([], addOption s c opt)"
| "c_exec E s (CallHandle c topic h) = Libmqtt_handle (cv_compile E) s c topic h"
| "c_exec E s (CallConnect c h) = Libmqtt_connect (cv_server_tls E) s c h"
| "c_exec E s (CallSubscribe c topic qos) = Libmqtt_subscribe s c topic qos"
| "c_exec E s (CallPublish c topic qos payload n) = Libmqtt_publish s c topic qos payload n"
| "c_exec E s (CallUnsubscribe c topic) = Libmqtt_unsubscribe s c topic"
| "c_exec E s (CallWait c) = Libmqtt_wait s c"
| "c_exec E s (CallDestroy c force) = Libmqtt_destroy s c force"
| "c_exec E s (CallSetHandler k c h) = (case k of
       KindPub \<Rightarrow> Libmqtt_set_pub_handler s c h
     | KindSub \<Rightarrow> Libmqtt_set_sub_handler s c h
     | KindUnsub \<Rightarrow> Libmqtt_set_unsub_handler s c h
     | KindNet \<Rightarrow> Libmqtt_set_net_handler s c h
     | KindPersist \<Rightarrow> Libmqtt_set_persist_handler s c h)"

fun c_run ::
  "('pool, 'cert, 'f, 're, 't) c_env \<Rightarrow> ('f, 're, 't) c_state \<Rightarrow> ('f, 're, 't) c_call list \<Rightarrow> ('f, 're, 't) c_result" where
  "c_run E s [] = Inr ([], s)"
| "c_run E s (call # calls) = (case c_exec E s call of
       Inl e \<Rightarrow> Inl e
     | Inr (es, s) \<Rightarrow> (case c_run E s calls of Inl e \<Rightarrow> Inl e | Inr (es', s) \<Rightarrow> Inr (es @ es', s)))"

lemmas client_calls = Libmqtt_handle_def Libmqtt_connect_def Libmqtt_subscribe_def Libmqtt_publish_def
  Libmqtt_unsubscribe_def Libmqtt_wait_def Libmqtt_destroy_def Libmqtt_set_pub_handler_def
  Libmqtt_set_sub_handler_def Libmqtt_set_unsub_handler_def Libmqtt_set_net_handler_def
  Libmqtt_set_persist_handler_def

lemma client_call_with_client:
  "(\<exists>c f. c_exec E s call = with_client s c f) \<or> call = CallNew \<or> (\<exists>c. call = CallSetup c) \<or>
   (\<exists>c opt. call = CallOption c opt)"
  by (cases call) (auto simp: client_calls split: handler_kind.split)

subsection \<open>No client is ever reached\<close>

definition no_clients :: "('f, 're, 't) c_state \<Rightarrow> bool" where
  "no_clients s \<longleftrightarrow> (\<forall>cid c. cs_clients s cid \<noteq> Some (Some c))"

lemma with_no_client:
  "no_clients s \<Longrightarrow> with_client s c f = Inr (es, s') \<Longrightarrow> es = [] \<and> s' = s"
  by (auto simp: no_clients_def with_client_def getClient_def split: option.splits)

lemma no_clients_steps:
  assumes "no_clients s"
  shows "no_clients (snd (Libmqtt_new_client s))" and "no_clients (snd (Libmqtt_setup_client L s c))"
    and "no_clients (addOption s c opt)"
  using assms
  by (auto simp: no_clients_def Libmqtt_new_client_def newClientOptions_def Let_def Libmqtt_setup_client_def
      storeClient_def addOption_def split: option.split sum.split)

lemma no_clients_exec:
  assumes "c_exec E s call = Inr (es, s')" and "no_clients s"
  shows "es = [] \<and> no_clients s'"
  using client_call_with_client [of E s call]
proof (elim disjE exE)
  fix c f
  assume "c_exec E s call = with_client s c f"
  then show ?thesis
    using with_no_client [OF assms(2), of c f es s'] assms by simp
qed (use assms no_clients_steps [OF assms(2)] in auto)

lemma no_clients_init: "no_clients c_init"
  by (simp add: no_clients_def c_init_def)

lemma no_clients_run:
  "c_run E s calls = Inr (es, s') \<Longrightarrow> no_clients s \<Longrightarrow> es = [] \<and> no_clients s'"
proof (induction calls arbitrary: s es)
  case (Cons call calls)
  obtain es1 s1 es2 where "c_exec E s call = Inr (es1, s1)" "c_run E s1 calls = Inr (es2, s')" "es = es1 @ es2"
    using Cons.prems(1) by (auto split: sum.splits prod.splits)
  then show ?case
    using no_clients_exec [of E s call es1 s1] Cons.IH [of s1 es2] Cons.prems(2) by simp
qed simp

text \<open>
  C38: no C program ever reaches a client. \<open>Libmqtt_setup_client\<close> stores the client where \<open>NewClient\<close> failed
  and forgets it where it succeeded, so after any sequence of calls none of them has connected,
  published or done anything else, and every further call for a client does nothing, or panics on the
  nil interface that a failed setup stored.
\<close>
theorem c_client_never_reached:
  assumes "c_run E c_init calls = Inr (es, s)"
  shows "es = [] \<and> (getClient s cid = Inr None \<or> getClient s cid = Inl Panic)"
  using no_clients_run [OF assms no_clients_init]
  by (auto simp: no_clients_def getClient_def split: option.split)

lemma c_client_never_reached_witness:
  "\<exists>s. c_run \<lparr>cv_tls = no_certs, cv_compile = \<lambda>_. Some (), cv_server_tls = \<lambda>_. ()\<rparr> c_init
      [CallNew, CallOption 1 (Plain_Option (WithServer [[0x61]])), CallSetup 1, CallConnect 1 (Some ()),
       CallPublish 1 [0x62] 1 (\<lambda>_. 0) 3] = Inr ([], s) \<and> (getClient s 1 = Inr None \<or> getClient s 1 = Inl Panic)"
proof -
  have "\<exists>es s. c_run \<lparr>cv_tls = no_certs, cv_compile = \<lambda>_. Some (), cv_server_tls = \<lambda>_. ()\<rparr> c_init
      [CallNew, CallOption 1 (Plain_Option (WithServer [[0x61]])), CallSetup 1, CallConnect 1 (Some ()),
       CallPublish 1 [0x62] 1 (\<lambda>_. 0) 3] = Inr (es, s)"
    by (simp add: c_init_def Libmqtt_new_client_def newClientOptions_def find_id.simps Libmqtt_setup_client_def
        addOption_def getClientOptions_def Let_def Libmqtt_connect_def Libmqtt_publish_def with_client_def
        getClient_def api_NewClient_def apply_api_option_def)
  then obtain es s where run: "c_run \<lparr>cv_tls = no_certs, cv_compile = \<lambda>_. Some (), cv_server_tls = \<lambda>_. ()\<rparr> c_init
      [CallNew, CallOption 1 (Plain_Option (WithServer [[0x61]])), CallSetup 1, CallConnect 1 (Some ()),
       CallPublish 1 [0x62] 1 (\<lambda>_. 0) 3] = Inr (es, s)"
    by blast
  from c_client_never_reached [OF run, of 1] run show ?thesis
    by auto
qed

text \<open>What happens to a client whose setup failed: every later call for it panics.\<close>

lemma failed_setup_panics:
  assumes "Libmqtt_setup_client L s c = (Some e, s')" and "getClientOptions s (sint c) \<noteq> None"
  shows "with_client s' c f = Inl Panic"
  using assms
  by (auto simp: Libmqtt_setup_client_def Let_def with_client_def getClient_def storeClient_def split: sum.splits)

subsection \<open>Options are kept per client, in order\<close>

text \<open>The specification: a list with the options of the first client, of the second one, and so on.\<close>

fun options_spec :: "('f, 're, 't) c_option list list \<Rightarrow> ('f, 're, 't) c_call \<Rightarrow> ('f, 're, 't) c_option list list" where
  "options_spec oss CallNew = oss @ [[]]"
| "options_spec oss (CallOption c opt) =
     (if 1 \<le> sint c \<and> sint c \<le> int (length oss)
      then oss[nat (sint c - 1) := oss ! nat (sint c - 1) @ [opt]] else oss)"
| "options_spec oss _ = oss"

definition options_at :: "'o list list \<Rightarrow> int \<Rightarrow> 'o list option" where
  "options_at oss cid = (if 1 \<le> cid \<and> cid \<le> int (length oss) then Some (oss ! nat (cid - 1)) else None)"

lemma sint_c_int: "0 \<le> x \<Longrightarrow> x < 2 ^ 31 \<Longrightarrow> sint (word_of_int x :: c_int) = x"
  by (simp only: sint_sbintrunc') (simp add: signed_take_bit_int_eq_self)

lemma find_id_options_at:
  "1 \<le> cid \<Longrightarrow> cid \<le> int (length oss) + 1 \<Longrightarrow> int (length oss) + 1 < MaxInt64 \<Longrightarrow>
   find_id (options_at oss) cid = int (length oss) + 1"
proof (induction "options_at oss" cid rule: find_id.induct)
  case (1 cid)
  show ?case
  proof (cases "cid = int (length oss) + 1")
    case True
    then show ?thesis
      using 1 by (subst find_id.simps) (simp add: options_at_def)
  next
    case False
    then have "find_id (options_at oss) (cid + 1) = int (length oss) + 1"
      using 1 by (simp add: options_at_def)
    then show ?thesis
      using False 1 by (subst find_id.simps) (simp add: options_at_def)
  qed
qed

lemma options_at_snoc: "(options_at oss)(int (length oss) + 1 \<mapsto> []) = options_at (oss @ [[]])"
  by (rule ext) (auto simp: options_at_def nth_append nat_less_iff)

lemma options_at_update:
  assumes "1 \<le> cid" and "cid \<le> int (length oss)"
  shows "(options_at oss)(cid \<mapsto> os) = options_at (oss[nat (cid - 1) := os])"
  using assms by (auto simp: options_at_def fun_eq_iff nth_list_update nat_diff_distrib nat_eq_iff2)

lemma new_client_options:
  assumes "cs_options s = options_at oss" and "int (length oss) + 1 < MaxInt64"
  shows "Libmqtt_new_client s =
    (word_of_int (int (length oss) + 1), s\<lparr>cs_options := options_at (oss @ [[]])\<rparr>)"
  using assms find_id_options_at [of 1 oss]
  by (simp add: Libmqtt_new_client_def newClientOptions_def Let_def options_at_snoc)

lemma exec_options:
  assumes "c_exec E s call = Inr (es, s')" and "cs_options s = options_at oss" and "no_clients s"
    and "int (length oss) + 1 < MaxInt64"
  shows "cs_options s' = options_at (options_spec oss call)"
proof -
  consider c f where "c_exec E s call = with_client s c f" "options_spec oss call = oss"
    | "call = CallNew" | c where "call = CallSetup c" | c opt where "call = CallOption c opt"
    using client_call_with_client [of E s call] by (cases call) auto
  then show ?thesis
  proof cases
    case 1
    then show ?thesis
      using with_no_client [OF assms(3)] assms by metis
  next
    case 2
    then show ?thesis
      using new_client_options [OF assms(2,4)] assms(1) by auto
  next
    case (3 c)
    then show ?thesis
      using assms(1,2) by (auto simp: Libmqtt_setup_client_def storeClient_def Let_def split: option.splits sum.splits)
  next
    case (4 c opt)
    have "options_at oss (sint c) =
        (if 1 \<le> sint c \<and> sint c \<le> int (length oss) then Some (oss ! nat (sint c - 1)) else None)"
      by (simp add: options_at_def)
    then show ?thesis
      using assms(1,2) 4 options_at_update [of "sint c" oss "oss ! nat (sint c - 1) @ [opt]"]
      by (auto simp: addOption_def getClientOptions_def split: if_splits)
  qed
qed

lemma length_options_spec: "length (options_spec oss call) \<le> Suc (length oss)"
  by (induction oss call rule: options_spec.induct) auto

lemma run_options:
  assumes "c_run E s calls = Inr (es, s')" and "cs_options s = options_at oss" and "no_clients s"
    and "length oss + length calls < 2 ^ 31 - 1"
  shows "cs_options s' = options_at (foldl options_spec oss calls) \<and>
    length (foldl options_spec oss calls) \<le> length oss + length calls"
  using assms
proof (induction calls arbitrary: s es oss)
  case (Cons call calls)
  obtain es1 s1 es2 where run: "c_exec E s call = Inr (es1, s1)" "c_run E s1 calls = Inr (es2, s')"
    using Cons.prems(1) by (auto split: sum.splits prod.splits)
  have len: "length (options_spec oss call) \<le> Suc (length oss)"
    by (rule length_options_spec)
  have "cs_options s1 = options_at (options_spec oss call)"
    by (rule exec_options [OF run(1) Cons.prems(2,3)]) (use Cons.prems(4) in simp)
  moreover have "no_clients s1"
    using no_clients_exec [OF run(1) Cons.prems(3)] by simp
  ultimately show ?case
    using Cons.IH [OF run(2), of "options_spec oss call"] Cons.prems(4) len by simp
qed simp

text \<open>
  C28: the table of options implements a list: after any sequence of fewer than 2147483647 calls, the
  options under an identifier are exactly those that were added for it, in order, and the next client
  gets the number of clients so far plus one, which is unused.
\<close>
theorem c_options_refine:
  assumes "c_run E c_init calls = Inr (es, s)" and "length calls < 2 ^ 31 - 1"
  shows "getClientOptions s cid = options_at (foldl options_spec [] calls) cid \<and>
    sint (fst (Libmqtt_new_client s)) = int (length (foldl options_spec [] calls)) + 1 \<and>
    getClientOptions s (sint (fst (Libmqtt_new_client s))) = None"
proof -
  let ?oss = "foldl options_spec [] calls"
  have "cs_options (c_init :: ('c, 'd, 'e) c_state) = options_at []"
    by (simp add: c_init_def options_at_def fun_eq_iff)
  with run_options [OF assms(1) _ no_clients_init, of "[]"] assms(2)
  have o: "cs_options s = options_at ?oss" and len: "length ?oss \<le> length calls"
    by (simp_all add: c_init_def options_at_def fun_eq_iff)
  have "sint (word_of_int (int (length ?oss) + 1) :: c_int) = int (length ?oss) + 1"
    by (rule sint_c_int) (use len assms(2) in simp_all)
  moreover have "fst (Libmqtt_new_client s) = word_of_int (int (length ?oss) + 1)"
    using new_client_options [OF o] len assms(2) by simp
  ultimately show ?thesis
    by (simp add: getClientOptions_def o options_at_def)
qed

lemma c_options_refine_witness:
  "\<exists>s. c_run \<lparr>cv_tls = no_certs, cv_compile = \<lambda>_. Some (), cv_server_tls = \<lambda>_. ()\<rparr> c_init
      [CallNew, CallNew, CallOption 2 (Plain_Option (WithServer [[0x61]])),
       CallOption 3 (Plain_Option (WithServer [[0x62]]))] = Inr ([], s) \<and>
    getClientOptions (s :: (unit, unit, unit) c_state) 2 = Some [Plain_Option (WithServer [[0x61]])] \<and>
    sint (fst (Libmqtt_new_client s)) = 3"
proof -
  let ?calls = "[CallNew, CallNew, CallOption 2 (Plain_Option (WithServer [[0x61]])),
       CallOption 3 (Plain_Option (WithServer [[0x62]]))] :: (unit, unit, unit) c_call list"
  let ?E = "\<lparr>cv_tls = no_certs, cv_compile = \<lambda>_. Some (), cv_server_tls = \<lambda>_. ()\<rparr>"
  have "\<exists>s. c_run ?E c_init ?calls = Inr ([], s)"
    by simp
  then obtain s where run: "c_run ?E c_init ?calls = Inr ([], s)"
    by blast
  have "foldl options_spec [] ?calls = [[], [Plain_Option (WithServer [[0x61]])]]"
    by simp
  with c_options_refine [OF run, of 2] run show ?thesis
    by (auto simp: options_at_def)
qed

end
