(* ===== verification/Framing.thy ===== *)
theory Framing
  imports Decoder
begin

text \<open>
  How \<open>Decode\<close> (\<open>src/decoder.go\<close>) takes packets from a stream: it reads one packet and not a byte more, and a
  packet of which the end is missing is an error.
\<close>

section \<open>The remaining length\<close>




section \<open>One packet\<close>

text \<open>What \<open>Decode\<close> makes of a header byte and a remaining length, and of a body.\<close>

definition decode_header :: "ping_vars \<Rightarrow> byte \<Rightarrow> byte \<Rightarrow> packet res" where
  "decode_header g version header =
     (if drop_bit 4 header = CtrlPingReq then Inr (PingReqPkt (PingReqPacket_version g))
      else if drop_bit 4 header = CtrlPingResp then Inr (PingRespPkt (PingRespPacket_version g))
      else if drop_bit 4 header = CtrlDisConn \<and> version = V311
      then Inr (DisconnPkt \<lparr>disconn_ProtoVersion = 0, disconn_Code = 0, disconn_Props = None\<rparr>)
      else bad)"

definition decode_body :: "byte \<Rightarrow> byte \<Rightarrow> bytes \<Rightarrow> packet res" where
  "decode_body version header body =
     (if version = V311 then decodeV311Packet header body
      else if version = V5 then decodeV5Packet header body
      else Inl (GoErr ErrUnsupportedVersion))"

lemma Decode_split:
  "Decode g version (header # r) = (case getRemainLength r of (n, _, r) \<Rightarrow>
     if n = 0 then (decode_header g version header, r)
     else if n < 2 then (bad, r)
     else if n \<le> length r then (decode_body version header (take n r), drop n r)
     else (Inl (GoErr (if r = [] then ErrEOF else ErrUnexpectedEOF)), []))"
  by (auto simp: Decode_def decode_header_def decode_body_def read_full_def split: prod.split)






text \<open>The exception: a stream of one byte is a ping.\<close>

lemma cut_ping_accepted: "Decode g version [0xC0] = (Inr (PingReqPkt (PingReqPacket_version g)), [])"
  by (simp add: Decode_split getRemainLength_def decode_header_def)

end
