(* ===== verification/Delivery.thy ===== *)
theory Delivery
  imports End_To_End
begin

text \<open>
  The client's \<open>sendCh\<close> (\<open>src/client_async.go\<close>) between the callers of the API and the \<open>handleSend\<close> of every
  connection (\<open>src/client_conn.go\<close>): it is a queue which all connections of the client share. Seen from one
  connection, its peer gets packets the application put on that channel, each at most once and in their
  order, mixed with those of the connection's own protocol logic.
\<close>

section \<open>A run of the system, seen from one connection\<close>

datatype observation =
    Put packet                       \<comment> \<open>a packet is put on \<open>sendCh\<close>\<close>
  | Taken packet                     \<comment> \<open>another connection takes it\<close>
  | Wrote "packet option" packet     \<comment> \<open>this connection writes a packet; the first argument is that of \<open>sendCh\<close>\<close>
  | Quiet

inductive sys_obs ::
  "('s, packet) persist_method \<Rightarrow> nat \<Rightarrow> 's sys \<Rightarrow> observation \<Rightarrow> 's sys \<Rightarrow> bool" for M i where
  wrote: "i < length (sy_conns s) \<Longrightarrow> send_step M (sy_client s, sy_conns s ! i) (Some p') (c', n') \<Longrightarrow>
    cl_sendCh (sy_client s) = p # cl_sendCh c' \<Longrightarrow>
    sys_obs M i s (Wrote (Some p) p')
      (s\<lparr>sy_client := c', sy_conns := (sy_conns s)[i := n'], sy_vars := sent_var (Some p') (sy_vars s)\<rparr>)"
| wrote_logic: "i < length (sy_conns s) \<Longrightarrow> send_step M (sy_client s, sy_conns s ! i) (Some p') (c', n') \<Longrightarrow>
    cl_sendCh c' = cl_sendCh (sy_client s) \<Longrightarrow>
    sys_obs M i s (Wrote None p')
      (s\<lparr>sy_client := c', sy_conns := (sy_conns s)[i := n'], sy_vars := sent_var (Some p') (sy_vars s)\<rparr>)"
| put: "sys_step M s s' \<Longrightarrow> link_event M (sy_client s, sy_conns s ! i) None (sy_client s', sy_conns s' ! i) \<Longrightarrow>
    cl_sendCh (sy_client s') = cl_sendCh (sy_client s) @ [p] \<Longrightarrow> sys_obs M i s (Put p) s'"
| taken: "sys_step M s s' \<Longrightarrow> link_event M (sy_client s, sy_conns s ! i) None (sy_client s', sy_conns s' ! i) \<Longrightarrow>
    cl_sendCh (sy_client s) = p # cl_sendCh (sy_client s') \<Longrightarrow> sys_obs M i s (Taken p) s'"
| quiet: "sys_step M s s' \<Longrightarrow> link_event M (sy_client s, sy_conns s ! i) None (sy_client s', sy_conns s' ! i) \<Longrightarrow>
    cl_sendCh (sy_client s') = cl_sendCh (sy_client s) \<Longrightarrow> sys_obs M i s Quiet s'"

inductive sys_run ::
  "('s, packet) persist_method \<Rightarrow> nat \<Rightarrow> 's sys \<Rightarrow> observation list \<Rightarrow> 's sys \<Rightarrow> bool" for M i where
  start: "sys_run M i s [] s"
| event: "sys_run M i s os s1 \<Longrightarrow> sys_obs M i s1 ob s2 \<Longrightarrow> sys_run M i s (os @ [ob]) s2"

section \<open>Every run is such a run\<close>

lemma client_act_sendCh:
  assumes "client_act M c a rest c' rest'"
  shows "cl_sendCh c' = cl_sendCh c \<or> (\<exists>p. cl_sendCh c' = cl_sendCh c @ [p])"
  using assms by (cases rule: client_act.cases) simp_all

lemma send_step_sendCh:
  assumes "send_step M (c, n) sent (c', n')"
  shows "cl_sendCh c' = cl_sendCh c \<or> sent = None \<and> (\<exists>p. cl_sendCh c' = cl_sendCh c @ [p]) \<or>
    (\<exists>p p'. sent = Some p' \<and> cl_sendCh c = p # cl_sendCh c')"
  using assms by (cases rule: send_step.cases) (auto dest: client_act_sendCh)

lemma logic_step_sendCh:
  assumes "logic_step M (c, n) (c', n')"
  shows "cl_sendCh c' = cl_sendCh c \<or> (\<exists>p. cl_sendCh c' = cl_sendCh c @ [p])"
  using assms by (cases rule: logic_step.cases) (auto dest: client_act_sendCh)

lemma recv_step_sendCh: "recv_step g (c, n) (c', n') \<Longrightarrow> cl_sendCh c' = cl_sendCh c"
  by (cases rule: recv_step.cases) auto

lemma sys_obs_other:
  assumes "sys_step M s s'" and "link_event M (sy_client s, sy_conns s ! i) None (sy_client s', sy_conns s' ! i)"
    and "cl_sendCh (sy_client s') = cl_sendCh (sy_client s) \<or>
      (\<exists>p. cl_sendCh (sy_client s') = cl_sendCh (sy_client s) @ [p]) \<or>
      (\<exists>p. cl_sendCh (sy_client s) = p # cl_sendCh (sy_client s'))"
  shows "\<exists>ob. sys_obs M i s ob s'"
  using assms sys_obs.put sys_obs.taken sys_obs.quiet by metis

lemma sys_step_sys_obs:
  assumes "sys_step M s s'" and "i < length (sy_conns s)"
  shows "\<exists>ob. sys_obs M i s ob s'"
  using assms(1)
proof (cases rule: sys_step.cases)
  case (send k sent c' n')
  show ?thesis
  proof (cases "k = i \<and> sent \<noteq> None")
    case True
    then obtain p' where p': "sent = Some p'" and k: "k = i"
      by blast
    then have step: "send_step M (sy_client s, sy_conns s ! i) (Some p') (c', n')"
      using send by simp
    from send_step_sendCh [OF this] consider "cl_sendCh c' = cl_sendCh (sy_client s)"
      | p where "cl_sendCh (sy_client s) = p # cl_sendCh c'"
      by auto
    then show ?thesis
      using sys_obs.wrote [OF assms(2) step] sys_obs.wrote_logic [OF assms(2) step] send(1) p' k
      by cases blast+
  next
    case False
    then have "link_event M (sy_client s, sy_conns s ! i) None (sy_client s', sy_conns s' ! i)"
      using send assms(2) by (cases "k = i") (auto intro: link_event.send link_event.client)
    then show ?thesis
      using sys_obs_other [OF assms(1)] send send_step_sendCh [OF send(3)] by auto
  qed
next
  case (recv k c' n')
  then have "link_event M (sy_client s, sy_conns s ! i) None (sy_client s', sy_conns s' ! i)"
    using assms(2) by (cases "k = i") (auto intro: link_event.recv link_event.client)
  then show ?thesis
    using sys_obs_other [OF assms(1)] recv recv_step_sendCh [OF recv(3)] by simp
next
  case (logic k c' n')
  then have "link_event M (sy_client s, sy_conns s ! i) None (sy_client s', sy_conns s' ! i)"
    using assms(2) by (cases "k = i") (auto intro: link_event.logic link_event.client)
  then show ?thesis
    using sys_obs_other [OF assms(1)] logic logic_step_sendCh [OF logic(3)] by auto
next
  case (call k a rest c' rest')
  then have "link_event M (sy_client s, sy_conns s ! i) None (sy_client s', sy_conns s' ! i)"
    by (auto intro: link_event.client)
  then show ?thesis
    using sys_obs_other [OF assms(1)] call client_act_sendCh [OF call(4)] by auto
next
  case (keepalive k n')
  then have "link_event M (sy_client s, sy_conns s ! i) None (sy_client s', sy_conns s' ! i)"
    using assms(2) by (cases "k = i") (auto intro: link_event.keepalive link_event.client)
  then show ?thesis
    using sys_obs_other [OF assms(1)] keepalive by simp
next
  case (disconnect k d)
  then have "link_event M (sy_client s, sy_conns s ! i) None (sy_client s', sy_conns s' ! i)"
    using assms(2) by (cases "k = i") (auto intro: link_event.disconnect link_event.client)
  then show ?thesis
    using sys_obs_other [OF assms(1)] disconnect by simp
qed (use assms in \<open>auto simp: nth_append intro!: sys_obs_other intro: link_event.client link_event.stop\<close>)

lemma sys_step_conns_mono: "sys_step M s s' \<Longrightarrow> length (sy_conns s) \<le> length (sy_conns s')"
  by (cases rule: sys_step.cases) auto

lemma sys_run_exists:
  assumes "(sys_step M)\<^sup>*\<^sup>* s s'" and "i < length (sy_conns s)"
  shows "\<exists>os. sys_run M i s os s' \<and> i < length (sy_conns s')"
  using assms
proof (induction rule: rtranclp_induct)
  case base
  then show ?case
    using sys_run.start by blast
next
  case (step s1 s2)
  then obtain os where "sys_run M i s os s1" and i: "i < length (sy_conns s1)"
    by blast
  moreover obtain ob where "sys_obs M i s1 ob s2"
    using sys_step_sys_obs step(2) i by blast
  ultimately show ?case
    using sys_run.event sys_step_conns_mono [OF step(2)] by (meson order_less_le_trans)
qed

section \<open>The shared queue\<close>

definition puts :: "observation list \<Rightarrow> packet list" where
  "puts os = List.map_filter (\<lambda>ob. case ob of Put p \<Rightarrow> Some p | _ \<Rightarrow> None) os"

definition wrotes :: "observation list \<Rightarrow> packet list" where
  "wrotes os = List.map_filter (\<lambda>ob. case ob of Wrote _ p' \<Rightarrow> Some p' | _ \<Rightarrow> None) os"

text \<open>Those of the written packets that came from the application, and those that other connections took.\<close>

definition wrotes_app :: "observation list \<Rightarrow> packet list" where
  "wrotes_app os = List.map_filter (\<lambda>ob. case ob of Wrote (Some _) p' \<Rightarrow> Some p' | _ \<Rightarrow> None) os"

definition others :: "observation list \<Rightarrow> packet list" where
  "others os = List.map_filter (\<lambda>ob. case ob of Taken p \<Rightarrow> Some p | _ \<Rightarrow> None) os"

definition removed :: "observation list \<Rightarrow> packet list" where
  "removed os = List.map_filter
     (\<lambda>ob. case ob of Taken p \<Rightarrow> Some p | Wrote (Some p) _ \<Rightarrow> Some p | _ \<Rightarrow> None) os"

lemmas observation_defs = puts_def wrotes_def wrotes_app_def others_def removed_def List.map_filter_def

text \<open>What was on the channel and was put there is what was removed and what is still there.\<close>

lemma queue_step:
  assumes "sys_obs M i s ob s'"
  shows "removed [ob] @ cl_sendCh (sy_client s') = cl_sendCh (sy_client s) @ puts [ob]"
  using assms by (cases rule: sys_obs.cases) (simp_all add: observation_defs)

lemma queue_run:
  "sys_run M i s os s' \<Longrightarrow> removed os @ cl_sendCh (sy_client s') = cl_sendCh (sy_client s) @ puts os"
proof (induction rule: sys_run.induct)
  case (event s os s1 ob s2)
  have "removed (os @ [ob]) @ cl_sendCh (sy_client s2) = removed os @ removed [ob] @ cl_sendCh (sy_client s2)"
    by (simp add: observation_defs)
  also have "\<dots> = (removed os @ cl_sendCh (sy_client s1)) @ puts [ob]"
    by (simp add: queue_step [OF event(2)])
  also have "\<dots> = cl_sendCh (sy_client s) @ puts (os @ [ob])"
    using event(3) by (simp add: observation_defs)
  finally show ?case .
qed (simp add: observation_defs)

text \<open>A packet of the application is written with the connection's version and is otherwise unchanged.\<close>

lemma send_taken_version:
  assumes "send_taken after n p = Some (n', p')" and "packet_Type p' \<noteq> CtrlConn"
  shows "p' = packet_SetVersion p (cn_version n)"
proof -
  have p': "p' = snd (packet_WriteTo bytes_Buffer (cn_buf n) (packet_SetVersion p (cn_version n)))"
    using assms(1) by (auto simp: send_taken_def send_packet_def split: prod.splits option.splits fault.splits)
  then have "packet_Type (packet_SetVersion p (cn_version n)) \<noteq> CtrlConn"
    using assms(2) by (metis packet_WriteTo_type)
  then show ?thesis
    using p' packet_WriteTo_same by metis
qed

lemma send_step_version:
  assumes "send_step M (c, n) (Some p') (c', n')" and "cl_sendCh c = p # cl_sendCh c'" and "packet_Type p' \<noteq> CtrlConn"
  shows "p' = packet_SetVersion p (cn_version n)"
  using assms by (cases rule: send_step.cases) (auto dest: send_taken_version)

lemma wrotes_app_subseq: "subseq (wrotes_app os) (wrotes os)"
  by (induction os)
    (auto simp: wrotes_app_def wrotes_def List.map_filter_simps split: observation.split option.split)

lemma sys_obs_link:
  assumes "sys_obs M i s ob s'"
  shows "link_event M (sy_client s, sy_conns s ! i)
    (case ob of Wrote _ p' \<Rightarrow> Some p' | _ \<Rightarrow> None) (sy_client s', sy_conns s' ! i)"
  using assms by (cases rule: sys_obs.cases) (auto intro: link_event.send)

lemma sys_run_sent_trace:
  assumes "sys_run M i s os s'"
  shows "sent_trace M (sy_client s, sy_conns s ! i) (wrotes os) (sy_client s', sy_conns s' ! i)"
  using assms
proof (induction rule: sys_run.induct)
  case (event s os s1 ob s2)
  have "wrotes (os @ [ob]) =
      wrotes os @ (case (case ob of Wrote _ p' \<Rightarrow> Some p' | _ \<Rightarrow> None) of None \<Rightarrow> [] | Some p \<Rightarrow> [p])"
    by (cases ob) (simp_all add: observation_defs)
  then show ?case
    using sent_trace.event [OF event(3) sys_obs_link [OF event(2)]] by simp
qed (simp add: observation_defs sent_trace.start)

text \<open>A connection keeps its version.\<close>

lemma link_event_version: "link_event M (c, n) l (c', n') \<Longrightarrow> cn_version n' = cn_version n"
  by (cases rule: link_event.cases)
    (auto dest: send_step_receiver logic_step_receiver elim: recv_step.cases keepalive_step.cases)

lemma sent_trace_version: "sent_trace M s ps s' \<Longrightarrow> cn_version (snd s') = cn_version (snd s)"
proof (induction rule: sent_trace.induct)
  case (event s ps s1 l s2)
  then show ?case
    using link_event_version [of M "fst s1" "snd s1" l "fst s2" "snd s2"] by simp
qed simp

text \<open>
  What a connection wrote of the application's packets is, in order, a part of what was taken from the
  channel, and all of it if no other connection took anything.
\<close>

lemma app_part_step:
  assumes "sys_obs M i s ob s'" and "\<forall>p \<in> set (wrotes [ob]). packet_Type p \<noteq> CtrlConn"
  shows "subseq (wrotes_app [ob]) (map (\<lambda>p. packet_SetVersion p (cn_version (sy_conns s ! i))) (removed [ob]))"
    and "others [ob] = [] \<Longrightarrow>
      wrotes_app [ob] = map (\<lambda>p. packet_SetVersion p (cn_version (sy_conns s ! i))) (removed [ob])"
  using assms(1) assms(2)
  by (cases rule: sys_obs.cases; auto simp: observation_defs dest: send_step_version)+

lemma app_part_run:
  assumes "sys_run M i s os s'" and "\<forall>p \<in> set (wrotes os). packet_Type p \<noteq> CtrlConn"
  shows "subseq (wrotes_app os) (map (\<lambda>p. packet_SetVersion p (cn_version (sy_conns s ! i))) (removed os)) \<and>
    (others os = [] \<longrightarrow>
      wrotes_app os = map (\<lambda>p. packet_SetVersion p (cn_version (sy_conns s ! i))) (removed os))"
  using assms
proof (induction rule: sys_run.induct)
  case (event s os s1 ob s2)
  have v: "cn_version (sy_conns s1 ! i) = cn_version (sy_conns s ! i)"
    using sent_trace_version [OF sys_run_sent_trace [OF event(1)]] by simp
  have parts: "wrotes (os @ [ob]) = wrotes os @ wrotes [ob]" "removed (os @ [ob]) = removed os @ removed [ob]"
    "wrotes_app (os @ [ob]) = wrotes_app os @ wrotes_app [ob]" "others (os @ [ob]) = others os @ others [ob]"
    by (simp_all add: observation_defs)
  then show ?case
    using event.IH event.prems app_part_step [OF event(2)] v by (auto intro: list_emb_append_mono)
qed (simp add: observation_defs)

text \<open>
  C8: what the application hands over reaches the peer in order and at most once. Take a run of the whole
  system, with any number of connections, callers and interleavings, seen from one 3.1.1 connection while
  its \<open>handleSend\<close> runs, and let the packets it wrote be ones that 3.1.1 can encode. The peer decodes the
  \<open>CONNECT\<close> and then the packets the connection wrote; those of them that came from \<open>sendCh\<close> are a subsequence of the packets put there, unchanged but for the
  version; and if no other connection took a packet, they are all of those but the ones still queued.
\<close>
theorem application_packets_reach_peer:
  assumes "sys_run M i s os s'" and "cl_sendCh (sy_client s) = []"
    and "sy_conns s ! i = new_conn V311 name stream (v311_bytes (ConnPkt cp)) k"
    and "cn_sender (sy_conns s' ! i) = Running as"
    and "sendable (ConnPkt cp)" and "\<forall>p \<in> set (wrotes os). later_packet p"
    and "base_Version (PingReqPacket_version g) = V311" and "base_Version (PingRespPacket_version g) = V311"
  shows "handleNetRecv g V311 (cn_wire (sy_conns s' ! i) @ cn_buf (sy_conns s' ! i)) =
      RecvPacket (v311_view g (ConnPkt cp)) # map (v311_event g) (wrotes os) @ [RecvError (GoErr ErrEOF)] \<and>
    subseq (wrotes_app os) (wrotes os) \<and>
    subseq (wrotes_app os) (map (\<lambda>p. packet_SetVersion p V311) (puts os)) \<and>
    (others os = [] \<longrightarrow> wrotes_app os @ map (\<lambda>p. packet_SetVersion p V311) (cl_sendCh (sy_client s')) =
      map (\<lambda>p. packet_SetVersion p V311) (puts os))"
proof (intro conjI)
  let ?set = "\<lambda>p. packet_SetVersion p V311"
  have "sent_trace M (sy_client s, new_conn V311 name stream (v311_bytes (ConnPkt cp)) k) (wrotes os)
      (sy_client s', sy_conns s' ! i)"
    using sys_run_sent_trace [OF assms(1)] assms(3) by simp
  from peer_reads [OF this assms(4-8)]
  show "handleNetRecv g V311 (cn_wire (sy_conns s' ! i) @ cn_buf (sy_conns s' ! i)) =
      RecvPacket (v311_view g (ConnPkt cp)) # map (v311_event g) (wrotes os) @ [RecvError (GoErr ErrEOF)]" .
  show "subseq (wrotes_app os) (wrotes os)"
    by (rule wrotes_app_subseq)
  have v: "cn_version (sy_conns s ! i) = V311"
    using assms(3) by (simp add: new_conn_def)
  have q: "removed os @ cl_sendCh (sy_client s') = puts os"
    using queue_run [OF assms(1)] assms(2) by simp
  then have "map ?set (puts os) = map ?set (removed os) @ map ?set (cl_sendCh (sy_client s'))"
    by (metis map_append)
  moreover have "subseq (wrotes_app os) (map ?set (removed os)) \<and> (others os = [] \<longrightarrow> wrotes_app os = map ?set (removed os))"
    using app_part_run [OF assms(1)] assms(6) v by (simp add: later_packet_def)
  ultimately show "subseq (wrotes_app os) (map ?set (puts os))"
    "others os = [] \<longrightarrow> wrotes_app os @ map ?set (cl_sendCh (sy_client s')) = map ?set (puts os)"
    by (auto intro: subseq_order.order_trans)
qed

text \<open>A run: a caller publishes a message, which goes through the channel to the connection and is written.\<close>

definition hello :: publish_packet where
  "hello = publish_packet_zero\<lparr>pub_TopicName := [0x61], pub_Payload := [0x62]\<rparr>"

definition hello_sys :: "unit sys" where
  "hello_sys = (sys_init ())\<lparr>sy_conns := [new_conn V311 [0x61] [] (v311_bytes (ConnPkt conn_packet_zero)) False]\<rparr>"

lemma hello_run:
  "\<exists>s'. sys_run NonePersist 0 hello_sys
       [Quiet, Put (PublishPkt hello), Wrote (Some (PublishPkt hello)) (PublishPkt (hello\<lparr>pub_ProtoVersion := V311\<rparr>))] s' \<and>
     cl_sendCh (sy_client s') = [] \<and>
     cn_sender (sy_conns s' ! 0) = Running (after_send (PublishPkt (hello\<lparr>pub_ProtoVersion := V311\<rparr>))) \<and>
     cn_wire (sy_conns s' ! 0) @ cn_buf (sy_conns s' ! 0) =
       v311_bytes (ConnPkt conn_packet_zero) @ v311_bytes (PublishPkt (hello\<lparr>pub_ProtoVersion := V311\<rparr>))"
proof -
  let ?p = "PublishPkt hello" and ?p' = "PublishPkt (hello\<lparr>pub_ProtoVersion := V311\<rparr>)"
  let ?n = "new_conn V311 [0x61] [] (v311_bytes (ConnPkt conn_packet_zero)) False"
  let ?s1 = "hello_sys\<lparr>sy_calls := [[Enqueue ?p]]\<rparr>"
  let ?s2 = "?s1\<lparr>sy_client := (sy_client hello_sys)\<lparr>cl_sendCh := [?p]\<rparr>, sy_calls := [[]]\<rparr>"
  let ?n3 = "?n\<lparr>cn_buf := v311_bytes ?p', cn_sender := Running (after_send ?p')\<rparr>"
  let ?s3 = "?s2\<lparr>sy_client := (sy_client ?s2)\<lparr>cl_sendCh := []\<rparr>, sy_conns := [?n3], sy_vars := sent_var (Some ?p') (sy_vars ?s2)\<rparr>"
  have "Publish (sy_client hello_sys) [Some hello] = [Enqueue ?p]"
    by (simp add: Publish_def publish_one_def hello_def publish_packet_zero_def hello_sys_def sys_init_def
        defaultClient_def)
  then have "sys_step NonePersist hello_sys ?s1"
    using sys_step.publish [of NonePersist hello_sys "[Some hello]"] by (simp add: hello_sys_def sys_init_def)
  then have 1: "sys_obs NonePersist 0 hello_sys Quiet ?s1"
    by (intro sys_obs.quiet link_event.client) (simp_all add: link_event.client)
  have "client_act NonePersist (sy_client ?s1) (Enqueue ?p) [] (sy_client ?s2) []"
    using client_act.enqueue [of "sy_client ?s1"] by (simp add: hello_sys_def sys_init_def defaultClient_def)
  then have "sys_step NonePersist ?s1 ?s2"
    using sys_step.call [of 0 ?s1 "Enqueue ?p" "[]" NonePersist "sy_client ?s2" "[]"] by simp
  then have 2: "sys_obs NonePersist 0 ?s1 (Put ?p) ?s2"
    by (intro sys_obs.put) (simp_all add: link_event.client hello_sys_def sys_init_def defaultClient_def)
  have "send_packet V311 [] ?p = ((v311_bytes ?p', None), ?p')"
    by code_simp
  then have taken: "send_taken after_send ?n ?p = Some (?n3, ?p')"
    by (simp add: send_taken_def new_conn_def)
  have conn: "sy_conns ?s2 ! 0 = ?n" "0 < length (sy_conns ?s2)" "sy_conns ?s2 = [?n]"
    by (simp_all add: hello_sys_def)
  have "send_step NonePersist (sy_client ?s2, ?n) (Some ?p') ((sy_client ?s2)\<lparr>cl_sendCh := []\<rparr>, ?n3)"
    by (rule send_step.take [OF _ _ taken]) (simp_all add: new_conn_def)
  then have 3: "sys_obs NonePersist 0 ?s2 (Wrote (Some ?p) ?p') ?s3"
    using sys_obs.wrote [of 0 ?s2 NonePersist ?p' "(sy_client ?s2)\<lparr>cl_sendCh := []\<rparr>" ?n3 ?p] conn by simp
  from sys_run.event [OF sys_run.event [OF sys_run.event [OF sys_run.start 1] 2] 3] show ?thesis
    by (intro exI [of _ ?s3]) (simp add: new_conn_def)
qed

lemma application_packets_reach_peer_witness:
  "handleNetRecv ping_vars_init V311
       (v311_bytes (ConnPkt conn_packet_zero) @ v311_bytes (PublishPkt (hello\<lparr>pub_ProtoVersion := V311\<rparr>))) =
     [RecvPacket (v311_view ping_vars_init (ConnPkt conn_packet_zero)),
      RecvPacket (v311_view ping_vars_init (PublishPkt (hello\<lparr>pub_ProtoVersion := V311\<rparr>))), RecvError (GoErr ErrEOF)]"
proof -
  obtain s' where run: "sys_run NonePersist 0 hello_sys [Quiet, Put (PublishPkt hello),
        Wrote (Some (PublishPkt hello)) (PublishPkt (hello\<lparr>pub_ProtoVersion := V311\<rparr>))] s'"
    and s': "cn_sender (sy_conns s' ! 0) = Running (after_send (PublishPkt (hello\<lparr>pub_ProtoVersion := V311\<rparr>)))"
      "cn_wire (sy_conns s' ! 0) @ cn_buf (sy_conns s' ! 0) =
       v311_bytes (ConnPkt conn_packet_zero) @ v311_bytes (PublishPkt (hello\<lparr>pub_ProtoVersion := V311\<rparr>))"
    using hello_run by blast
  from application_packets_reach_peer [OF run _ _ s'(1), of "[0x61]" "[]" conn_packet_zero False ping_vars_init] s'(2)
  show ?thesis
    by (simp add: hello_sys_def sys_init_def defaultClient_def wrotes_def List.map_filter_simps later_packet_def
        sendable_def is_v311_def packet_Version_def base_Version_def maxMsgSize_def ping_vars_init_def
        conn_packet_zero_def conn_body_def be16_def encodeBytesWithLen_def putUint16_def hello_def
        publish_packet_zero_def publish_payload_def v311_event_def)
qed

end
