(* ===== verification/Reception.thy ===== *)
theory Reception
  imports Delivery
begin

text \<open>
  The way of a received message to the application (\<open>src/client_conn.go\<close>, \<open>src/client_async.go\<close>): \<open>logic\<close> takes
  the packets of its connection and puts the messages on the client's \<open>recvCh\<close>, which all connections share;
  \<open>handleTopicMsg\<close> takes them from there for the router. Seen from one connection, the application gets the
  messages its server sent, each at most once and in their order.
\<close>

section \<open>What logic has to deliver\<close>


definition delivers :: "action list \<Rightarrow> publish_packet list" where
  "delivers as = List.map_filter (\<lambda>a. case a of Deliver q \<Rightarrow> Some q | _ \<Rightarrow> None) as"


lemma delivers_simps [simp]:
  "delivers [] = []" "delivers (a # as) = (case a of Deliver q \<Rightarrow> [q] | _ \<Rightarrow> []) @ delivers as"
  "delivers (as @ bs) = delivers as @ delivers bs" "delivers (map Notify ms) = []"
  by (simp_all add: delivers_def List.map_filter_def split: action.split)







lemma client_act_recvCh:
  assumes "client_act M c a rest c' rest'"
  shows "cl_recvCh c' = cl_recvCh c \<or> (\<exists>p. cl_recvCh c' = cl_recvCh c @ [p])"
  using assms by (cases rule: client_act.cases) simp_all

text \<open>What a step of \<open>logic\<close> does with a message: it takes it, delivers it, or leaves it.\<close>

lemma logic_step_recvCh:
  assumes "logic_step M (c, n) (c', n')"
  shows "cl_recvCh c' = cl_recvCh c \<or> cn_netRecvC n' = cn_netRecvC n \<and> (\<exists>p. cl_recvCh c' = cl_recvCh c @ [p])"
  using assms by (cases rule: logic_step.cases) (auto dest: client_act_recvCh)




section \<open>A run of the system, seen from the messages of one connection\<close>

datatype reception =
    Delivered publish_packet    \<comment> \<open>\<open>logic\<close> of this connection puts a message on \<open>recvCh\<close>\<close>
  | Foreign publish_packet      \<comment> \<open>another goroutine does\<close>
  | Dispatched publish_packet   \<comment> \<open>\<open>handleTopicMsg\<close> takes one for the router\<close>
  | Silent

text \<open>Next to the observation, a step has the label it has in \<open>Ordering\<close>: the packet that \<open>logic\<close> takes.\<close>

inductive rec_obs ::
  "('s, packet) persist_method \<Rightarrow> nat \<Rightarrow> 's sys \<Rightarrow> packet option \<Rightarrow> reception \<Rightarrow> 's sys \<Rightarrow> bool" for M i where
  delivered: "logic_step M (sy_client s, sy_conns s ! i) (sy_client s', sy_conns s' ! i) \<Longrightarrow>
    cn_netRecvC (sy_conns s' ! i) = cn_netRecvC (sy_conns s ! i) \<Longrightarrow>
    cl_recvCh (sy_client s') = cl_recvCh (sy_client s) @ [p] \<Longrightarrow> rec_obs M i s None (Delivered p) s'"
| foreign: "conn_event M (sy_client s, sy_conns s ! i) None (sy_client s', sy_conns s' ! i) \<Longrightarrow>
    cn_logic (sy_conns s' ! i) = cn_logic (sy_conns s ! i) \<Longrightarrow>
    cl_recvCh (sy_client s') = cl_recvCh (sy_client s) @ [p] \<Longrightarrow> rec_obs M i s None (Foreign p) s'"
| dispatched: "conn_event M (sy_client s, sy_conns s ! i) None (sy_client s', sy_conns s' ! i) \<Longrightarrow>
    cn_logic (sy_conns s' ! i) = cn_logic (sy_conns s ! i) \<Longrightarrow>
    cl_recvCh (sy_client s) = p # cl_recvCh (sy_client s') \<Longrightarrow> rec_obs M i s None (Dispatched p) s'"
| silent: "conn_event M (sy_client s, sy_conns s ! i) l (sy_client s', sy_conns s' ! i) \<Longrightarrow>
    cl_recvCh (sy_client s') = cl_recvCh (sy_client s) \<Longrightarrow> rec_obs M i s l Silent s'"

inductive rec_run ::
  "('s, packet) persist_method \<Rightarrow> nat \<Rightarrow> 's sys \<Rightarrow> packet list \<Rightarrow> reception list \<Rightarrow> 's sys \<Rightarrow> bool" for M i where
  start: "rec_run M i s [] [] s"
| event: "rec_run M i s ps os s1 \<Longrightarrow> rec_obs M i s1 l ob s2 \<Longrightarrow>
    rec_run M i s (ps @ (case l of None \<Rightarrow> [] | Some p \<Rightarrow> [p])) (os @ [ob]) s2"

text \<open>Every run of the system is such a run.\<close>

lemma send_taken_logic: "send_taken after n p = Some (n', p') \<Longrightarrow> cn_logic n' = cn_logic n"
  by (auto simp: send_taken_def split: prod.splits option.splits fault.splits)

lemma send_step_recvCh:
  assumes "send_step M (c, n) sent (c', n')"
  shows "cn_logic n' = cn_logic n \<and> (cl_recvCh c' = cl_recvCh c \<or> (\<exists>p. cl_recvCh c' = cl_recvCh c @ [p]))"
  using assms by (cases rule: send_step.cases) (auto dest: client_act_recvCh send_taken_logic)

lemma recv_step_recvCh: "recv_step g (c, n) (c', n') \<Longrightarrow> cl_recvCh c' = cl_recvCh c"
  by (cases rule: recv_step.cases) auto

lemma rec_obs_other:
  assumes "conn_event M (sy_client s, sy_conns s ! i) None (sy_client s', sy_conns s' ! i)"
    and "cn_logic (sy_conns s' ! i) = cn_logic (sy_conns s ! i)"
    and "cl_recvCh (sy_client s') = cl_recvCh (sy_client s) \<or>
      (\<exists>p. cl_recvCh (sy_client s') = cl_recvCh (sy_client s) @ [p]) \<or>
      (\<exists>p. cl_recvCh (sy_client s) = p # cl_recvCh (sy_client s'))"
  shows "\<exists>l ob. rec_obs M i s l ob s'"
  using assms rec_obs.foreign rec_obs.dispatched rec_obs.silent by metis

lemma rec_obs_silent:
  assumes "sys_step M s s'" and "i < length (sy_conns s)" and "cl_recvCh (sy_client s') = cl_recvCh (sy_client s)"
  shows "\<exists>l ob. rec_obs M i s l ob s'"
  using sys_step_conn_event [OF assms(1,2)] rec_obs.silent assms(3) by blast

lemma sys_step_rec_obs:
  assumes "sys_step M s s'" and "i < length (sy_conns s)"
  shows "\<exists>l ob. rec_obs M i s l ob s'"
  using assms(1)
proof (cases rule: sys_step.cases)
  case (logic k c' n')
  show ?thesis
  proof (cases "k = i")
    case True
    then have step: "logic_step M (sy_client s, sy_conns s ! i) (sy_client s', sy_conns s' ! i)"
      using logic by simp
    from sys_step_conn_event [OF assms] logic_step_recvCh [OF step] show ?thesis
      using rec_obs.delivered [OF step] rec_obs.silent by metis
  next
    case False
    then have "conn_event M (sy_client s, sy_conns s ! i) None (sy_client s', sy_conns s' ! i)"
      using logic assms(2) by (auto intro: conn_event.client)
    then show ?thesis
      using rec_obs_other [of M s i s'] logic logic_step_recvCh [OF logic(3)] False by auto
  qed
next
  case (send k sent c' n')
  then have "conn_event M (sy_client s, sy_conns s ! i) None (sy_client s', sy_conns s' ! i)"
    using assms(2) by (cases "k = i") (auto intro: conn_event.send conn_event.client)
  then show ?thesis
    using rec_obs_other [of M s i s'] send send_step_recvCh [OF send(3)] assms(2) by (cases "k = i") auto
next
  case (recv k c' n')
  then show ?thesis
    using rec_obs_silent [OF assms] recv_step_recvCh [OF recv(3)] by simp
next
  case (keepalive k n')
  then show ?thesis
    using rec_obs_silent [OF assms] by simp
next
  case (disconnect k d)
  then show ?thesis
    using rec_obs_silent [OF assms] by simp
next
  case (call k a rest c' rest')
  then have "conn_event M (sy_client s, sy_conns s ! i) None (sy_client s', sy_conns s' ! i)"
    by (auto intro: conn_event.client)
  then show ?thesis
    using rec_obs_other [of M s i s'] call client_act_recvCh [OF call(4)] by auto
qed (use assms(2) in \<open>auto simp: nth_append intro!: rec_obs_other intro: conn_event.client conn_event.stop\<close>)

lemma rec_run_exists:
  assumes "(sys_step M)\<^sup>*\<^sup>* s s'" and "i < length (sy_conns s)"
  shows "\<exists>ps os. rec_run M i s ps os s' \<and> i < length (sy_conns s')"
  using assms
proof (induction rule: rtranclp_induct)
  case base
  then show ?case
    using rec_run.start by blast
next
  case (step s1 s2)
  then obtain ps os where "rec_run M i s ps os s1" and i: "i < length (sy_conns s1)"
    by blast
  moreover obtain l ob where "rec_obs M i s1 l ob s2"
    using sys_step_rec_obs step(2) i by blast
  ultimately show ?case
    using rec_run.event sys_step_conns_mono [OF step(2)] by (meson order_less_le_trans)
qed

section \<open>Messages in order\<close>

definition delivered :: "reception list \<Rightarrow> publish_packet list" where
  "delivered os = List.map_filter (\<lambda>ob. case ob of Delivered p \<Rightarrow> Some p | _ \<Rightarrow> None) os"

definition foreign :: "reception list \<Rightarrow> publish_packet list" where
  "foreign os = List.map_filter (\<lambda>ob. case ob of Foreign p \<Rightarrow> Some p | _ \<Rightarrow> None) os"


definition dispatched :: "reception list \<Rightarrow> publish_packet list" where
  "dispatched os = List.map_filter (\<lambda>ob. case ob of Dispatched p \<Rightarrow> Some p | _ \<Rightarrow> None) os"










section \<open>The messages of the server\<close>










end
