(* ===== verification/Example.thy ===== *)
theory Example
  imports Transport Teardown Api
begin

text \<open>
  \<open>src/examples/client.go\<close>, the application that the repository shows to its users, on the model of the
  client: its options and its four connections, and its handlers. The regexp package, \<open>websocket.Dial\<close> and
  the TCP connector are parameters; a line that is logged is the format it has, with its arguments.
\<close>

section \<open>Handlers\<close>

datatype example_log =
    Connect_failed gostring goerr
  | Connect_refused gostring byte
  | Net_error gostring goerr
  | Persist_error goerr
  | Subscribe_failed gostring goerr
  | Subscribe_success gostring
  | Unsubscribe_failed gostring "goerr option"
  | Publish_failed gostring goerr
  | Publish_success gostring
  | Message gostring bytes

datatype example_handler =
    ConnHandler | NetHandler | PersistHandler | SubHandler | UnSubHandler | PubHandler | EveryMessage

text \<open>A handler logs and makes calls of the API, whose actions the client then runs.\<close>

definition connHandler ::
  "'s client \<Rightarrow> gostring \<Rightarrow> byte \<Rightarrow> goerr option \<Rightarrow> example_log list \<times> action list" where
  "connHandler c server code err = (case err of
       Some err \<Rightarrow> ([Connect_failed server err], [])
     | None \<Rightarrow>
         if code \<noteq> CodeSuccess then ([Connect_refused server code], [])
         else ([], Subscribe c [\<lparr>topic_Name = ascii ''foo'', topic_Qos = Qos0\<rparr>,
                                \<lparr>topic_Name = ascii ''bar'', topic_Qos = Qos1\<rparr>]))"

definition on_net :: "gostring \<Rightarrow> goerr option \<Rightarrow> example_log list" where
  "on_net server err = (case err of Some err \<Rightarrow> [Net_error server err] | None \<Rightarrow> [])"

definition on_persist :: "packet \<Rightarrow> goerr option \<Rightarrow> example_log list" where
  "on_persist packet err = (case err of Some err \<Rightarrow> [Persist_error err] | None \<Rightarrow> [])"

definition foo_bar :: publish_packet where
  "foo_bar = publish_packet_zero\<lparr>pub_TopicName := ascii ''foo'', pub_Payload := ascii ''bar'', pub_Qos := Qos0\<rparr>"

definition bar_foo :: publish_packet where
  "bar_foo = publish_packet_zero\<lparr>pub_TopicName := ascii ''bar'', pub_Payload := ascii ''foo'', pub_Qos := Qos1\<rparr>"

definition on_sub :: "'s client \<Rightarrow> topic list \<Rightarrow> goerr option \<Rightarrow> example_log list \<times> action list" where
  "on_sub c topics err = (case err of
       Some err \<Rightarrow> (map (\<lambda>t. Subscribe_failed (topic_Name t) err) topics, [])
     | None \<Rightarrow> (map (\<lambda>t. Subscribe_success (topic_Name t)) topics, Publish c [Some foo_bar, Some bar_foo]))"

text \<open>The success branch logs the same text as the failure, with a nil error.\<close>

definition on_unsub :: "gostring list \<Rightarrow> goerr option \<Rightarrow> example_log list" where
  "on_unsub topic err = (if err \<noteq> None then map (\<lambda>t. Unsubscribe_failed t err) topic
     else map (\<lambda>t. Unsubscribe_failed t err) topic)"

definition on_pub :: "gostring \<Rightarrow> goerr option \<Rightarrow> example_log list" where
  "on_pub topic err = (case err of Some err \<Rightarrow> [Publish_failed topic err] | None \<Rightarrow> [Publish_success topic])"

text \<open>A goroutine of \<open>handleMsg\<close>: a handler with its message.\<close>

fun run_handler :: "'s client \<Rightarrow> example_handler \<times> message \<Rightarrow> example_log list \<times> action list" where
  "run_handler c (SubHandler, SubMsg topics err) = on_sub c topics err"
| "run_handler c (NetHandler, NetMsg server err) = (on_net server err, [])"
| "run_handler c (PersistHandler, PersistMsg packet err) = (on_persist packet err, [])"
| "run_handler c (UnSubHandler, UnSubMsg topics err) = (on_unsub topics err, [])"
| "run_handler c (PubHandler, PubMsg topic err) = (on_pub topic err, [])"
| "run_handler c _ = ([], [])"

text \<open>The topic handler.\<close>

definition every_message :: "example_handler handler_call \<Rightarrow> example_log" where
  "every_message = (\<lambda>(h, topic, qos, msg). Message topic msg)"

section \<open>The program\<close>

datatype ('t, 'c) example_conn = Tcp "('t, 'c) tcp_result" | WebSocket "tls_error + ws_conn"

type_synonym ('t, 'c) example_connector = "('t, ('t, 'c) example_conn) connector"

type_synonym ('re, 't, 'c) example_state =
  "(unit, example_handler, ('re, example_handler) router, logger option, 't, ('t, 'c) example_connector) opt_state"

type_synonym ('re, 't, 'c) example_option =
  "(unit, example_handler, ('re, example_handler) router, logger option, 't, ('t, 'c) example_connector) client_option"

definition example_options :: "('re, 't, 'c) example_option list" where
  "example_options =
     [WithVersion V5 True, WithKeepalive 10 (6 / 5), WithAutoReconnect True,
      WithBackoffStrategy Second (5 * Second) (6 / 5), WithRouter (Some (RegexRouter NewRegexRouter)),
      WithConnHandleFunc (Some ConnHandler), WithNetHandleFunc (Some NetHandler),
      WithSubHandleFunc (Some SubHandler), WithUnsubHandleFunc (Some UnSubHandler),
      WithPubHandleFunc (Some PubHandler), WithPersistHandleFunc (Some PersistHandler)]"

type_synonym ('t, 'hd) ws_dial = "gostring \<Rightarrow> ('t, 'hd) ws_dial_options \<Rightarrow> tls_error + (goerr + bytes) list"

text \<open>\<open>WithWebSocketConnector(0, nil)\<close>.\<close>

definition web_socket :: "('t, 'hd option) ws_dial \<Rightarrow> ('re, 't, 'c) example_option" where
  "web_socket dial = WithCustomConnector
     (\<lambda>address timeout tlsConfig. WebSocket (websocketConnect dial address timeout 0 None tlsConfig))"

definition example_servers :: "('t, 'hd option) ws_dial \<Rightarrow> (string \<times> ('re, 't, 'c) example_option list) list" where
  "example_servers dial =
     [(''test.mosquitto.org:1883'', []),
      (''test.mosquitto.org:8883'', [WithCustomTLS None]),
      (''test.mosquitto.org:8080'', [web_socket dial]),
      (''test.mosquitto.org:8081'', [WithCustomTLS None, web_socket dial])]"

text \<open>The calls of \<open>ConnectServer\<close>, whose errors are ignored.\<close>

fun connect_servers ::
  "('re, 't, 'c) example_state \<Rightarrow> (string \<times> ('re, 't, 'c) example_option list) list \<Rightarrow>
   ('re, 't, 'c) example_state \<times> (example_handler, 't, ('t, 'c) example_connector) connect_call list" where
  "connect_servers st [] = (st, [])"
| "connect_servers st ((server, options) # servers) =
     (let (_, st, calls) = ConnectServer st (ascii server) options;
          (st, calls') = connect_servers st servers
      in (st, calls @ calls'))"

text \<open>\<open>ExampleClient\<close> up to its \<open>Wait\<close>; \<open>tcp\<close> is the default connector, \<open>compile\<close> that of the regexp package.\<close>

definition ExampleClient ::
  "(gostring \<Rightarrow> 're option) \<Rightarrow> ('t, 'hd option) ws_dial \<Rightarrow> ('t, 'c) example_connector \<Rightarrow>
   (('re, 't, 'c) example_state \<times> (example_handler, 't, ('t, 'c) example_connector) connect_call list) res" where
  "ExampleClient compile dial tcp =
     (case NewClient () (TextRouter NewTextRouter) tcp example_options of
        Inl e \<Rightarrow> Inl Panic
      | Inr st \<Rightarrow>
          rbind (router_Handle compile (ac_router (os_client st)) (ascii ''.*'') EveryMessage) (\<lambda>r.
          Inr (connect_servers (set_client (\<lambda>c. c\<lparr>ac_router := r\<rparr>) st) (example_servers dial))))"


section \<open>What the program does\<close>

lemmas option_defs = option_setters first_of_def defaultConnectOptions_def client.defs async_client.defs defaultClient_def

text \<open>The client with the example's options.\<close>

definition example_init :: "('t, 'c) example_connector \<Rightarrow> ('re, 't, 'c) example_state" where
  "example_init tcp = \<lparr>os_client = client.extend (defaultClient ())
       (async_client.fields [] [] (RegexRouter NewRegexRouter) \<lparr>pubHandler = Some PubHandler,
          subHandler = Some SubHandler, unsubHandler = Some UnSubHandler, netHandler = Some NetHandler,
          persistHandler = Some PersistHandler\<rparr> None),
     os_options = (defaultConnectOptions 0 tcp)\<lparr>co_protoVersion := V5, co_protoCompromise := True,
       co_keepalive := 10 * Second, co_keepaliveFactor := 6 / 5, co_autoReconnect := True,
       co_firstDelay := Second, co_maxDelay := 5 * Second, co_backOffFactor := 6 / 5,
       co_connHandler := Some ConnHandler\<rparr>,
     os_packets = [conn_packet_zero\<lparr>conn_Keepalive := 10\<rparr>]\<rparr>"

lemma NewClient_example: "NewClient () (TextRouter NewTextRouter) tcp example_options = Inr (example_init tcp)"
  by (simp add: NewClient_def example_options_def example_init_def option_defs Let_def)

text \<open>The four calls change nothing but their own options.\<close>

lemma connect_servers_example:
  assumes "\<not> cl_closing (os_client st)" and "q = os_options st"
  shows "connect_servers st (example_servers dial) = (st,
    map (\<lambda>(server, q). (ascii server, q, co_protoVersion q, co_firstDelay q))
      [(''test.mosquitto.org:1883'', q),
       (''test.mosquitto.org:8883'', q\<lparr>co_tlsConfig := None\<rparr>),
       (''test.mosquitto.org:8080'', q\<lparr>co_newConnection :=
          \<lambda>address timeout tlsConfig. WebSocket (websocketConnect dial address timeout 0 None tlsConfig)\<rparr>),
       (''test.mosquitto.org:8081'', q\<lparr>co_tlsConfig := None, co_newConnection :=
          \<lambda>address timeout tlsConfig. WebSocket (websocketConnect dial address timeout 0 None tlsConfig)\<rparr>)])"
  using assms
  by (simp add: example_servers_def ConnectServer_def server_options_def clone_options_def web_socket_def
      option_setters Let_def)

lemma ExampleClient_result:
  assumes "compile (ascii ''.*'') = Some re"
  shows "ExampleClient compile dial tcp = Inr (connect_servers
    (set_client (\<lambda>c. c\<lparr>ac_router := RegexRouter (Some [(re, EveryMessage)])\<rparr>) (example_init tcp)) (example_servers dial))"
  using assms
  by (simp add: ExampleClient_def NewClient_example regex_Handle_def NewRegexRouter_def example_init_def
      client.defs async_client.defs)

lemmas example_run = ExampleClient_result connect_servers_example [OF _ refl] example_init_def




text \<open>Every message is logged, whatever its topic, if \<open>.*\<close> matches it.\<close>

lemma example_logs_messages:
  assumes "compile (ascii ''.*'') = Some re" and "matches re (pub_TopicName p)"
  shows "\<exists>st calls. ExampleClient compile dial tcp = Inr (st, calls) \<and>
    map every_message (router_Dispatch matches (ac_router (os_client st)) p) = [Message (pub_TopicName p) (pub_Payload p)]"
  using assms by (simp add: example_run option_defs regex_Dispatch_def call_handler_def every_message_def)

section \<open>A refused subscription\<close>

text \<open>The handlers of the example's client.\<close>

lemma example_handlers:
  assumes "compile (ascii ''.*'') = Some re"
  shows "\<exists>st calls. ExampleClient compile dial tcp = Inr (st, calls) \<and> subHandler (ac_handlers (os_client st)) = Some SubHandler"
  using assms by (simp add: example_run option_defs)

lemma logic_suback_success:
  assumes "getExtra g (suback_PacketID p) = Some (SubscribePkt sub)"
  shows "\<exists>rest. logic_actions g (SubAckPkt p) =
    Notify (SubMsg (granted_topics (sub_Topics sub) (suback_Codes p)) None) # rest"
  using assms by (simp add: logic_suback_def notifySubMsg_def)

lemma granted_topics_names: "map topic_Name (granted_topics ts codes) = map topic_Name ts"
  by (induction ts codes rule: granted_topics.induct) simp_all

text \<open>
  C31: a refused subscription is reported as a success. When the \<open>SUBACK\<close> of a pending subscription arrives,
  \<open>logic\<close> starts with the report, \<open>handleMsg\<close> starts the subscription handler, and the example logs a success
  for every topic and publishes its two messages, whatever return codes the server sent, refusals included.
\<close>
theorem suback_runs_example:
  assumes "getExtra (cl_idGen c) (suback_PacketID p) = Some (SubscribePkt sub)" and "\<not> cl_closing c"
    and "subHandler hs = Some SubHandler"
  shows "\<exists>m rest. logic_actions (cl_idGen c) (SubAckPkt p) = Notify m # rest \<and>
    map (run_handler c) (handleMsg (cl_closing c) hs m) =
      [(map (\<lambda>t. Subscribe_success (topic_Name t)) (sub_Topics sub), [Enqueue (PublishPkt foo_bar), Alloc (PublishPkt bar_foo)])]"
proof -
  have "map (\<lambda>t. Subscribe_success (topic_Name t)) (granted_topics (sub_Topics sub) (suback_Codes p)) =
      map (\<lambda>t. Subscribe_success (topic_Name t)) (sub_Topics sub)"
    using arg_cong [OF granted_topics_names [of "sub_Topics sub" "suback_Codes p"], of "map Subscribe_success"]
    by (simp add: comp_def)
  then show ?thesis
    using logic_suback_success [OF assms(1)] assms(2,3)
    by (auto simp: handleMsg_def handler_of_def on_sub_def Publish_def publish_one_def foo_bar_def bar_foo_def
        publish_packet_zero_def)
qed

text \<open>The server refuses the subscription to \<open>foo\<close>.\<close>

lemma suback_runs_example_witness:
  "let sub = \<lparr>sub_ProtoVersion = V311, sub_PacketID = 7, sub_Topics = [\<lparr>topic_Name = ascii ''foo'', topic_Qos = Qos1\<rparr>],
         sub_Props = None\<rparr>;
       c = (defaultClient ())\<lparr>cl_idGen := setUsed newIDGenerator 7 (SubscribePkt sub)\<rparr>;
       hs = \<lparr>pubHandler = None, subHandler = Some SubHandler, unsubHandler = None, netHandler = None, persistHandler = None\<rparr>
   in \<exists>m rest. logic_actions (cl_idGen c) (SubAckPkt \<lparr>suback_ProtoVersion = V311, suback_PacketID = 7,
         suback_Codes = [SubFail], suback_Props = None\<rparr>) = Notify m # rest \<and>
       map (run_handler c) (handleMsg (cl_closing c) hs m) =
         [([Subscribe_success (ascii ''foo'')], [Enqueue (PublishPkt foo_bar), Alloc (PublishPkt bar_foo)])]"
proof -
  let ?sub = "\<lparr>sub_ProtoVersion = V311, sub_PacketID = 7, sub_Topics = [\<lparr>topic_Name = ascii ''foo'', topic_Qos = Qos1\<rparr>],
     sub_Props = None\<rparr>"
  let ?c = "(defaultClient ())\<lparr>cl_idGen := setUsed newIDGenerator 7 (SubscribePkt ?sub)\<rparr>"
  let ?hs = "\<lparr>pubHandler = None, subHandler = Some SubHandler, unsubHandler = None, netHandler = None, persistHandler = None\<rparr>"
  let ?p = "\<lparr>suback_ProtoVersion = V311, suback_PacketID = 7, suback_Codes = [SubFail], suback_Props = None\<rparr>"
  have "getExtra (cl_idGen ?c) (suback_PacketID ?p) = Some (SubscribePkt ?sub)" "\<not> cl_closing ?c"
    "subHandler ?hs = Some SubHandler"
    by (simp_all add: getExtra_def setUsed_def defaultClient_def)
  from suback_runs_example [OF this] show ?thesis
    by (simp add: Let_def)
qed

end
