(* ===== verification/Spec2Isabelle.thy ===== *)
theory Spec2Isabelle
  imports Go_Prelude Wire Writer Id_Gen Property_Set Packet_Props Packets Decoder Codec Decoded Codec_V5
    Persist File_Persist Router Client Conn System Flows Options Sessions Teardown Transport Channels Requests Ordering
    End_To_End Bytes_Methods Api Command C_Api Framing Delivery Reception Example
begin

text \<open>
  A model of libmqtt, an MQTT 3.1.1 / 5 client library in Go.

  \<^bold>\<open>The program.\<close> A client (\<open>AsyncClient\<close>, \<open>src/client_async.go\<close>) owns a packet-identifier generator, a
  packet store, a topic router and three channels: packets to send, received messages, and messages
  for the application's handlers. Every \<open>ConnectServer\<close> call starts a goroutine that runs \<open>connect\<close>
  (\<open>src/client_conn_options.go\<close>): it dials, sends \<open>CONNECT\<close>, waits for the first packet, and then runs a
  connection (\<open>clientConn\<close>, \<open>src/client_conn.go\<close>) with a receive loop, the protocol logic, a sender and a
  keepalive loop; when the connection is lost it starts its own successor. Packets are encoded by the
  \<open>pkt_*.go\<close> files through \<open>BasePacket\<close> of \<open>src/libmqtt.go\<close> and decoded by \<open>src/decoder.go\<close>.

  \<^bold>\<open>Theories and code.\<close>
  \<^item> \<open>Go_Prelude\<close>: bytes, errors, panics and endless loops as values (\<open>'a res\<close>), Go's indexing and slicing.
  \<^item> \<open>Wire\<close>, \<open>Writer\<close> (\<open>src/util.go\<close>, \<open>BasePacket.write\<close> of \<open>src/libmqtt.go\<close>): integers, length-prefixed data, the
    variable-length integer, writing a frame through any \<open>BufferedWriter\<close> (locales \<open>byte_sink\<close>, \<open>total_sink\<close>).
  \<^item> \<open>Id_Gen\<close> (\<open>idGenerator\<close> of \<open>src/util.go\<close>).
  \<^item> \<open>Property_Set\<close>, \<open>Packet_Props\<close> (\<open>propertySet\<close>, \<open>UserProps\<close>, \<open>getRawProps\<close>, and the \<open>props\<close> and \<open>setProps\<close>
    methods of each property record).
  \<^item> \<open>Packets\<close> (\<open>src/pkt_*.go\<close>, \<open>src/encoder.go\<close>): a record per packet struct, the datatype \<open>packet\<close> for the
    interface \<open>Packet\<close>, \<open>WriteTo\<close>, \<open>clone\<close>. \<open>Bytes_Methods\<close>: \<open>Bytes\<close> of each packet type.
  \<^item> \<open>Decoder\<close> (\<open>src/decoder.go\<close>, \<open>src/fuzz.go\<close>): \<open>Decode\<close> on a stream of bytes, a definition per packet type and version.
  \<^item> \<open>Framing\<close>: \<open>Decode\<close> takes one packet from a stream, and what it makes of a packet that is cut off.
  \<^item> \<open>Codec\<close>, \<open>Decoded\<close>, \<open>Codec_V5\<close>: round trips, what the decoder returns, and where MQTT 5 does not survive.
  \<^item> \<open>Persist\<close>, \<open>File_Persist\<close> (\<open>src/persist.go\<close>): the stores, under the locales \<open>persist_laws\<close> and
    \<open>reliable_persist\<close>; the memory store also step by step, under concurrent calls; the file store over a
    model of one directory.
  \<^item> \<open>Router\<close> (\<open>src/router.go\<close>), under the locale \<open>topic_router\<close>; the regexp package is a parameter.
  \<^item> \<open>Client\<close> (\<open>src/msg.go\<close>, \<open>src/client_async.go\<close>): messages, shared state, and API calls as lists of atomic
    actions. \<open>Conn\<close> (\<open>src/client_conn.go\<close>): the actions of the protocol logic and of the sender for one
    packet, and the receive loop. \<open>System\<close>: all goroutines as one step relation. \<open>Flows\<close>: what follows for
    the quality-of-service exchanges (locale \<open>client_store\<close>).
  \<^item> \<open>Options\<close> (\<open>src/client_options.go\<close>, \<open>connectOptions\<close>): every option as a state change.
  \<^item> \<open>Sessions\<close> (\<open>connect\<close> of \<open>src/client_conn_options.go\<close>, \<open>sendRaw\<close>): one run of \<open>connect\<close> as a function of what
    its environment does, and the session of its successive runs.
  \<^item> \<open>Teardown\<close> (\<open>ConnectServer\<close>, \<open>Connect\<close>, \<open>Disconnect\<close>, \<open>Destroy\<close> of \<open>src/client_async.go\<close> and the table of
    connections).
  \<^item> \<open>Transport\<close> (\<open>src/client_connector*.go\<close>, \<open>WithTLS\<close> and \<open>WithTLSReader\<close> of \<open>src/client_options.go\<close>): dialling,
    the TLS handshake, the WebSocket connection, the connector options.
  \<^item> \<open>Channels\<close>, \<open>Requests\<close>, \<open>Ordering\<close>, \<open>End_To_End\<close>: what holds in every reachable state of \<open>System\<close> (capacities,
    stop signals), how a request lives from its allocation to its answer, that packets are handled in the
    order they arrive, and that a peer decodes exactly what was sent. \<open>Delivery\<close>: the channel \<open>sendCh\<close> that all
    connections share, from the calls of the application to the peer of one connection. \<open>Reception\<close>: the channel \<open>recvCh\<close>, from
    the bytes of one server to the router.
  \<^item> \<open>Api\<close> (\<open>src/handler.go\<close>, the other calls of \<open>src/client_async.go\<close>, \<open>src/log.go\<close>): handler setters, topic handlers,
    \<open>NewClient\<close> with certificate options, the logger.
  \<^item> \<open>Command\<close> (\<open>src/cmd/libmqtt\<close>): the command-line program, from a line of input to the calls it makes.
  \<^item> \<open>C_Api\<close> (\<open>src/c\<close>): the C interface as a state of two tables and one definition per exported function, and
    the C strings its callbacks allocate and free.
  \<^item> \<open>Example\<close> (\<open>src/examples/client.go\<close>): the example program on this model of the client.

  \<^bold>\<open>Conventions.\<close> Machine integers are words (\<open>u16\<close>, \<open>u32\<close>, \<open>byte\<close>), Go's \<open>int\<close> is \<open>int\<close> or \<open>nat\<close> where the
  code bounds it, durations are integers (nanoseconds), \<open>float64\<close> factors are rationals. A pointer that
  can be nil is an option. A Go error is a value, a run-time panic \<open>Inl Panic\<close>, a loop that never ends
  \<open>Inl Hang\<close>. Loops are total functions with a measure, or partial functions with value \<open>None\<close> where the
  code may not return (\<open>sub_ids_loop\<close>, \<open>worker\<close>); no fuel is used. Goroutines are interleaved action by
  action, a channel is the list of what it holds, and a \<open>select\<close> may take any ready case.

  \<^bold>\<open>What the lemmas show.\<close> Encoding and decoding agree at 3.1.1 and in part at 5; decoding never panics,
  never hangs and returns well-typed packets; the receive loop ends and reports what was sent; a
  connection's output is a sequence of whole packets under every interleaving; the identifier
  generator hands out fresh identifiers while its next candidate is free; the memory store is a map
  while its calls succeed; acknowledgements complete exactly the request they answer; options keep
  sound settings; sessions keep their delays and versions in bounds and end when they should; channels
  stay within their capacities and the packets of a connection are handled in order; a typed command
  has exactly the effect it spells; the C interface keeps its options and its memory; the packets of the
  application reach a peer, and the messages of a server the application, in order and at most once; no
  packet of the application is lost while one connection sends them. Where the code
  departs from this, a theorem states what it does instead.

  \<^bold>\<open>Parameters.\<close> Code outside the repository is an argument: regular expressions (\<open>compile\<close>, \<open>matches\<close>),
  the conversion of a \<open>float64\<close> product to a duration (\<open>fmul\<close>), the dialled connection and the timers (the
  environment of \<open>connect\<close>), certificates, files and the handshake (\<open>tls_lib\<close>, \<open>net_env\<close>), the WebSocket dial
  (\<open>dial\<close>), Unicode case tables (\<open>unicode_lower\<close>), the addresses that \<open>println\<close> shows (\<open>show_error\<close>, \<open>show_slice\<close>).

  \<^bold>\<open>Not modelled.\<close> The log lines of the library and their time stamps (the logger itself is modelled); signals and flags of the command-line program, and the prompt that its handlers print between
  two commands at any time; concurrent calls of the C interface. The Java bindings (\<open>src/java\<close>) are in another
  language; benchmarks are test files.
\<close>

end
